(* ===== verification/Prelude.thy ===== *)
theory Prelude
  imports
    Complex_Main
    "HOL-Library.AList"
    "HOL-Library.List_Lexorder"
    "HOL-Library.Char_ord"
    "HOL-Library.Multiset"
    "HOL-Library.Sublist"
    "HOL-Library.Word"
begin

text \<open>
  What the component theories share: the reading of the Go types and of the parts of the Go
  standard library the source uses.

  \<^item> A Go map is an association list with distinct keys (\<open>gomap_ok\<close>). Go leaves the order in which
    \<open>range\<close> visits a map unspecified; the order of the list stands for that order, so a statement
    about every list is a statement about every iteration order.
  \<^item> An instant (\<open>time.Time\<close>) is the number of nanoseconds since Go's zero time, so the zero time,
    which \<open>IsZero\<close> recognises, is 0. The monotonic reading and the time zone are left out.
  \<^item> A \<open>time.Duration\<close> is an \<open>int\<close> in the range of 64-bit signed values; \<open>time.Sub\<close> saturates at the
    ends of that range, products of durations wrap around.
  \<^item> A \<open>float64\<close> is a \<open>real\<close>: rounding, overflow to infinity and NaN are left out. The one infinity
    the source writes down itself (\<open>math.Inf(1)\<close>) is a value of its own where it occurs.
  \<^item> A Go \<open>int\<close> is an \<open>int\<close> on which arithmetic wraps to 64 bits (\<open>wrap64\<close>), a \<open>uint64\<close> is a
    \<open>64 word\<close>.
  \<^item> An \<open>error\<close> is a value of \<open>go_error\<close>: the two sentinels the scheduler tests for, an error built
    by \<open>fmt.Errorf\<close> or by a callee, and an error wrapped by \<open>%w\<close>.
\<close>

named_theorems go_time \<open>unfolding of the time and duration operations\<close>

section \<open>Maps\<close>

type_synonym ('k, 'v) gomap = "('k \<times> 'v) list"

abbreviation mget :: "('k, 'v) gomap \<Rightarrow> 'k \<Rightarrow> 'v option" where
  "mget \<equiv> map_of"

abbreviation mput :: "'k \<Rightarrow> 'v \<Rightarrow> ('k, 'v) gomap \<Rightarrow> ('k, 'v) gomap" where
  "mput \<equiv> AList.update"

abbreviation mdel :: "'k \<Rightarrow> ('k, 'v) gomap \<Rightarrow> ('k, 'v) gomap" where
  "mdel \<equiv> AList.delete"

definition gomap_ok :: "('k, 'v) gomap \<Rightarrow> bool" where
  "gomap_ok m \<longleftrightarrow> distinct (map fst m)"

lemma gomap_ok_Nil [simp, intro]: "gomap_ok []"
  by (simp add: gomap_ok_def)

lemma gomap_ok_mput [simp, intro]: "gomap_ok m \<Longrightarrow> gomap_ok (mput k v m)"
  by (simp add: gomap_ok_def distinct_update)

lemma gomap_ok_mdel [simp, intro]: "gomap_ok m \<Longrightarrow> gomap_ok (mdel k m)"
  by (simp add: gomap_ok_def distinct_delete)

lemma gomap_ok_filter [simp, intro]: "gomap_ok m \<Longrightarrow> gomap_ok (filter P m)"
  by (simp add: gomap_ok_def distinct_map_filter)

lemma mget_mput [simp]: "mget (mput k v m) = (mget m)(k \<mapsto> v)"
  by (rule update_conv')

lemma mget_mdel [simp]: "mget (mdel k m) = (mget m)(k := None)"
  by (rule delete_conv')

lemma mget_mem: "gomap_ok m \<Longrightarrow> mget m k = Some v \<longleftrightarrow> (k, v) \<in> set m"
  by (simp add: gomap_ok_def)

lemma mget_filter:
  "gomap_ok m \<Longrightarrow>
   mget (filter (\<lambda>(k, v). P k v) m) k =
     (case mget m k of None \<Rightarrow> None | Some v \<Rightarrow> if P k v then Some v else None)"
proof (induction m)
  case Nil
  then show ?case by simp
next
  case (Cons p m)
  obtain k' v' where p: "p = (k', v')" by (cases p)
  from Cons.prems have ok: "gomap_ok m" and fresh: "k' \<notin> fst ` set m"
    by (simp_all add: gomap_ok_def p)
  from fresh have none: "mget m k' = None"
    by (simp add: map_of_eq_None_iff)
  show ?case
    using Cons.IH [OF ok] none by (auto simp: p split: option.splits)
qed

lemma mget_map_values:
  "mget (map (\<lambda>(k, v). (k, f k v)) m) k = map_option (f k) (mget m k)"
  by (induction m) auto

lemma gomap_ok_map_values [simp, intro]:
  "gomap_ok m \<Longrightarrow> gomap_ok (map (\<lambda>(k, v). (k, f k v)) m)"
  by (simp add: gomap_ok_def comp_def split_def)

lemma mdel_id: "mget m k = None \<Longrightarrow> mdel k m = m"
  by (simp add: map_of_eq_None_iff)

lemma length_mput:
  "length (mput k v m) = (if mget m k = None then Suc (length m) else length m)"
proof -
  have "length (map fst (mput k v m)) =
      (if k \<in> set (map fst m) then length (map fst m) else Suc (length (map fst m)))"
    by (simp add: update_keys)
  then show ?thesis by (simp add: map_of_eq_None_iff)
qed

lemma list_all_mput: "list_all P m \<Longrightarrow> P (k, v) \<Longrightarrow> list_all P (mput k v m)"
  by (induction m) auto

lemma list_all_mdel: "list_all P m \<Longrightarrow> list_all P (mdel k m)"
  by (induction m) auto

text \<open>\<open>m[k]\<close> read without the second result: the zero value \<open>z\<close> for a missing key.\<close>

definition mget_or :: "'v \<Rightarrow> ('k, 'v) gomap \<Rightarrow> 'k \<Rightarrow> 'v" where
  "mget_or z m k = (case mget m k of None \<Rightarrow> z | Some v \<Rightarrow> v)"

lemma mget_or_mput [simp]: "mget_or z (mput k v m) k' = (if k' = k then v else mget_or z m k')"
  by (simp add: mget_or_def)

section \<open>64-bit integers\<close>

definition min_int64 :: int where
  "min_int64 = - (2 ^ 63)"

definition max_int64 :: int where
  "max_int64 = 2 ^ 63 - 1"

definition in_int64 :: "int \<Rightarrow> bool" where
  "in_int64 x \<longleftrightarrow> min_int64 \<le> x \<and> x \<le> max_int64"

text \<open>The result of an \<open>int\<close> or \<open>int64\<close> operation whose exact value is \<open>x\<close>.\<close>

definition wrap64 :: "int \<Rightarrow> int" where
  "wrap64 x = signed_take_bit 63 x"

lemma wrap64_id [simp]: "in_int64 x \<Longrightarrow> wrap64 x = x"
  by (simp add: wrap64_def in_int64_def min_int64_def max_int64_def signed_take_bit_int_eq_self)

lemma wrap64_range: "in_int64 (wrap64 x)"
  using signed_take_bit_int_greater_eq_minus_exp [of 63 x] signed_take_bit_int_less_exp [of 63 x]
  by (simp add: wrap64_def in_int64_def min_int64_def max_int64_def)

section \<open>Instants and durations\<close>

type_synonym gotime = int
type_synonym duration = int

definition IsZero :: "gotime \<Rightarrow> bool" where
  [go_time]: "IsZero t \<longleftrightarrow> t = 0"

definition nanosecond :: duration where [go_time]: "nanosecond = 1"
definition second :: duration where [go_time]: "second = 1000000000"

text \<open>\<open>t.Sub(u)\<close>: the difference, saturated at the smallest and largest duration.\<close>

definition time_Sub :: "gotime \<Rightarrow> gotime \<Rightarrow> duration" where
  [go_time]: "time_Sub t u = max min_int64 (min max_int64 (t - u))"

definition time_Add :: "gotime \<Rightarrow> duration \<Rightarrow> gotime" where
  [go_time]: "time_Add t d = t + d"

text \<open>\<open>d.Seconds()\<close>: whole seconds plus the remainder over 1e9, both truncated towards zero by
  the source's \<open>/\<close> and \<open>%\<close>; without rounding that is the exact quotient.\<close>

definition dur_Seconds :: "duration \<Rightarrow> real" where
  [go_time]: "dur_Seconds d = real_of_int d / 1000000000"

lemma time_Sub_exact: "in_int64 (t - u) \<Longrightarrow> time_Sub t u = t - u"
  by (auto simp: go_time in_int64_def)

lemma time_Sub_range: "in_int64 (time_Sub t u)"
  by (simp add: go_time in_int64_def min_int64_def max_int64_def)

lemma time_Sub_mono: "u \<le> u' \<Longrightarrow> time_Sub t u' \<le> time_Sub t u"
  by (auto simp: go_time)

lemma time_Sub_mono_left: "t \<le> t' \<Longrightarrow> time_Sub t u \<le> time_Sub t' u"
  by (auto simp: go_time)

lemma time_Sub_nonneg: "u \<le> t \<Longrightarrow> 0 \<le> time_Sub t u"
  by (auto simp: go_time max_int64_def)

lemma dur_Seconds_nonneg [simp]: "0 \<le> d \<Longrightarrow> 0 \<le> dur_Seconds d"
  by (simp add: go_time)

lemma dur_Seconds_add: "dur_Seconds (a + b) = dur_Seconds a + dur_Seconds b"
  by (simp add: go_time add_divide_distrib)

lemma dur_Seconds_mono: "a \<le> b \<Longrightarrow> dur_Seconds a \<le> dur_Seconds b"
  by (simp add: go_time divide_right_mono)

lemma dur_Seconds_pos [simp]: "0 < dur_Seconds d \<longleftrightarrow> 0 < d"
  by (simp add: go_time)

lemma dur_Seconds_zero [simp]: "dur_Seconds 0 = 0"
  by (simp add: go_time)

section \<open>Errors\<close>

text \<open>
  \<open>ErrAllSemanticLocked\<close> and \<open>ErrNotBestWaiter\<close> are the sentinels of the policy package;
  \<open>CtxDone\<close> is the error of a cancelled context; \<open>Errorf msg\<close> any other leaf error;
  \<open>Wrap pre e post\<close> is \<open>fmt.Errorf("pre%wpost", e)\<close>.
\<close>

datatype go_error =
    ErrAllSemanticLocked
  | ErrNotBestWaiter
  | CtxDone
  | Errorf string
  | Wrap string go_error string

fun err_Error :: "go_error \<Rightarrow> string" where
  "err_Error ErrAllSemanticLocked =
     ''semantic-score: all candidates locked and override disabled''"
| "err_Error ErrNotBestWaiter = ''semantic-score: not highest-score Resume waiter''"
| "err_Error CtxDone = ''context canceled''"
| "err_Error (Errorf msg) = msg"
| "err_Error (Wrap pre e post) = pre @ err_Error e @ post"

text \<open>\<open>%q\<close>: the string in double quotes, with the escapes of \<open>strconv.Quote\<close> for ASCII text.\<close>

definition hex_digit :: "nat \<Rightarrow> char" where
  "hex_digit n = ''0123456789abcdef'' ! (n mod 16)"

definition quote_char :: "char \<Rightarrow> string" where
  "quote_char c =
     (let n = of_char c :: nat; bs = CHR 0x5C in
      if n = 34 then [bs, CHR 0x22]
      else if n = 92 then [bs, bs]
      else if n = 7 then bs # ''a''
      else if n = 8 then bs # ''b''
      else if n = 9 then bs # ''t''
      else if n = 10 then bs # ''n''
      else if n = 11 then bs # ''v''
      else if n = 12 then bs # ''f''
      else if n = 13 then bs # ''r''
      else if n < 32 \<or> n = 127 then bs # ''x'' @ [hex_digit (n div 16), hex_digit n]
      else [c])"

definition go_quote :: "string \<Rightarrow> string" where
  "go_quote s = [CHR 0x22] @ concat (map quote_char s) @ [CHR 0x22]"

text \<open>\<open>errors.Is\<close>, asked of a sentinel only.\<close>

fun errors_Is :: "go_error \<Rightarrow> go_error \<Rightarrow> bool" where
  "errors_Is (Wrap pre e post) t \<longleftrightarrow> Wrap pre e post = t \<or> errors_Is e t"
| "errors_Is e t \<longleftrightarrow> e = t"

text \<open>\<open>strings.Contains\<close>.\<close>

definition strings_Contains :: "string \<Rightarrow> string \<Rightarrow> bool" where
  "strings_Contains s sub \<longleftrightarrow> sublist sub s"

lemma strings_Contains_append:
  "strings_Contains s sub \<Longrightarrow> strings_Contains (pre @ s @ post) sub"
  unfolding strings_Contains_def sublist_def by (metis append_assoc)

lemma strings_Contains_mid: "strings_Contains (pre @ sub @ post) sub"
  by (simp add: strings_Contains_def)

type_synonym 'a result = "go_error + 'a"

section \<open>The best-of scan\<close>

text \<open>
  The loop that the three victim pickers write out: start from the first element, go through the
  rest in order, and move to an element whenever it is strictly better than the best one so far.
\<close>

fun best_scan :: "('a \<Rightarrow> 'a \<Rightarrow> bool) \<Rightarrow> 'a \<Rightarrow> 'a list \<Rightarrow> 'a" where
  "best_scan better best [] = best"
| "best_scan better best (x # xs) = best_scan better (if better x best then x else best) xs"

lemma best_scan_mem: "best_scan better b xs \<in> insert b (set xs)"
  by (induction xs arbitrary: b) (auto split: if_splits)

section \<open>sort.Slice\<close>

text \<open>
  \<open>sort.Slice(xs, less)\<close>: some permutation of \<open>xs\<close> that is in order for \<open>less\<close>. Go promises no
  more (the sort is not stable); the model is an insertion sort, and \<open>weak_order.sort_slice_unique\<close>
  says when every other sort gives the same list.
\<close>

fun insert_by :: "('a \<Rightarrow> 'a \<Rightarrow> bool) \<Rightarrow> 'a \<Rightarrow> 'a list \<Rightarrow> 'a list" where
  "insert_by lt x [] = [x]"
| "insert_by lt x (y # ys) = (if lt y x then y # insert_by lt x ys else x # y # ys)"

fun sort_slice :: "('a \<Rightarrow> 'a \<Rightarrow> bool) \<Rightarrow> 'a list \<Rightarrow> 'a list" where
  "sort_slice lt [] = []"
| "sort_slice lt (x # xs) = insert_by lt x (sort_slice lt xs)"

lemma mset_insert_by [simp]: "mset (insert_by lt x ys) = add_mset x (mset ys)"
  by (induction ys) auto

lemma mset_sort_slice [simp]: "mset (sort_slice lt xs) = mset xs"
  by (induction xs) auto

lemma set_sort_slice [simp]: "set (sort_slice lt xs) = set xs"
  by (metis mset_sort_slice set_mset_mset)

lemma length_sort_slice [simp]: "length (sort_slice lt xs) = length xs"
  by (metis mset_sort_slice size_mset)

lemma set_insert_by [simp]: "set (insert_by lt x ys) = insert x (set ys)"
  by (induction ys) auto

text \<open>The contract of a comparison: a strict weak order.\<close>

locale weak_order =
  fixes lt :: "'a \<Rightarrow> 'a \<Rightarrow> bool"
  assumes lt_asym: "lt x y \<Longrightarrow> \<not> lt y x"
    and lt_negtrans: "lt x z \<Longrightarrow> lt x y \<or> lt y z"
begin

lemma lt_irrefl: "\<not> lt x x"
  using lt_asym by blast

lemma lt_trans: "lt x y \<Longrightarrow> lt y z \<Longrightarrow> lt x z"
  using lt_asym lt_negtrans by blast

lemma not_lt_trans: "\<not> lt y x \<Longrightarrow> \<not> lt z y \<Longrightarrow> \<not> lt z x"
  using lt_negtrans by blast

text \<open>The scan ends at an element no other is better than.\<close>

lemma best_scan_best:
  "y \<in> insert b (set xs) \<Longrightarrow> \<not> lt y (best_scan lt b xs)"
proof (induction xs arbitrary: b y)
  case Nil
  then show ?case using lt_irrefl by simp
next
  case (Cons x xs)
  let ?b = "if lt x b then x else b"
  have b: "\<not> lt ?b (best_scan lt ?b xs)" by (rule Cons.IH) simp
  show ?case
  proof (cases "y \<in> insert ?b (set xs)")
    case True
    then show ?thesis using Cons.IH by (metis best_scan.simps(2))
  next
    case False
    with Cons.prems have y: "y = x \<or> y = b" by auto
    have "\<not> lt y ?b" using y lt_asym lt_irrefl by auto
    then show ?thesis using b not_lt_trans by (metis best_scan.simps(2))
  qed
qed

lemma insert_by_sorted:
  "sorted_wrt (\<lambda>a b. \<not> lt b a) ys \<Longrightarrow> sorted_wrt (\<lambda>a b. \<not> lt b a) (insert_by lt x ys)"
proof (induction ys)
  case Nil
  then show ?case by simp
next
  case (Cons y ys)
  show ?case
  proof (cases "lt y x")
    case True
    then have "\<not> lt x y" by (rule lt_asym)
    with True Cons show ?thesis by simp
  next
    case False
    with Cons.prems have "\<forall>z\<in>set ys. \<not> lt z x" by (auto dest: not_lt_trans)
    with False Cons.prems show ?thesis by simp
  qed
qed

lemma sort_slice_sorted: "sorted_wrt (\<lambda>a b. \<not> lt b a) (sort_slice lt xs)"
  by (induction xs) (auto intro: insert_by_sorted)

lemma sort_slice_hd_best: "sort_slice lt xs = y # ys \<Longrightarrow> x \<in> set xs \<Longrightarrow> \<not> lt x y"
  by (metis lt_irrefl set_ConsD set_sort_slice sort_slice_sorted sorted_wrt.simps(2))

text \<open>
  Where no two different elements of the slice tie, the order fixes the result: whatever \<open>sort.Slice\<close>
  does, it returns the list the model returns.
\<close>

lemma sort_slice_unique:
  assumes total: "\<And>a b. a \<in> set xs \<Longrightarrow> b \<in> set xs \<Longrightarrow> a \<noteq> b \<Longrightarrow> lt a b \<or> lt b a"
    and perm: "mset ys = mset xs"
    and sorted: "sorted_wrt (\<lambda>a b. \<not> lt b a) ys"
  shows "ys = sort_slice lt xs"
proof -
  have "zs = ws" if "mset zs = mset ws" "set ws \<subseteq> set xs"
      "sorted_wrt (\<lambda>a b. \<not> lt b a) zs" "sorted_wrt (\<lambda>a b. \<not> lt b a) ws" for zs ws
    using that
  proof (induction zs arbitrary: ws)
    case Nil
    then show ?case by simp
  next
    case (Cons z zs)
    from Cons.prems(1) obtain w ws' where ws: "ws = w # ws'"
      by (cases ws) auto
    have sets: "set (z # zs) = set ws" using Cons.prems(1) by (metis set_mset_mset)
    have "w \<in> set (z # zs)" "z \<in> set ws" using sets ws by auto
    then have "\<not> lt w z" "\<not> lt z w"
      using Cons.prems(3,4) ws lt_irrefl by auto
    moreover have "z \<in> set xs" "w \<in> set xs"
      using Cons.prems(2) \<open>z \<in> set ws\<close> ws by auto
    ultimately have "z = w" using total by blast
    then show ?case using Cons ws by auto
  qed
  from this [of ys "sort_slice lt xs"] show ?thesis
    using perm sorted sort_slice_sorted by simp
qed

end

text \<open>Two ways to build comparisons: by a key, and by a key with a second comparison on ties.\<close>

definition by_key :: "('a \<Rightarrow> 'k::linorder) \<Rightarrow> 'a \<Rightarrow> 'a \<Rightarrow> bool" where
  "by_key f x y \<longleftrightarrow> f x < f y"

definition then_by :: "('a \<Rightarrow> 'k::linorder) \<Rightarrow> ('a \<Rightarrow> 'a \<Rightarrow> bool) \<Rightarrow> 'a \<Rightarrow> 'a \<Rightarrow> bool" where
  "then_by f lt x y \<longleftrightarrow> f x < f y \<or> (f x = f y \<and> lt x y)"

interpretation key_order: weak_order "by_key f" for f :: "'a \<Rightarrow> 'k::linorder"
  by unfold_locales (auto simp: by_key_def)

lemma weak_order_then_by:
  assumes "weak_order lt"
  shows "weak_order (then_by f lt)"
proof (rule weak_order.intro)
  fix x y z
  show "then_by f lt x y \<Longrightarrow> \<not> then_by f lt y x"
    using weak_order.lt_asym [OF assms, of x y] by (auto simp: then_by_def)
  show "then_by f lt x z \<Longrightarrow> then_by f lt x y \<or> then_by f lt y z"
    using weak_order.lt_negtrans [OF assms, of x z y] by (auto simp: then_by_def)
qed

end
