(* ===== verification/Types.thy ===== *)
theory Types
  imports Prelude
begin

text \<open>
  The domain types of \<open>internal/types/types.go\<close>: the sandbox (one agent session), the worker that
  hosts at most one running sandbox, and the scheduling decision written to the log.

  \<open>SandboxState\<close> and \<open>SnapshotSource\<close> are Go string types with named constants. They are datatypes
  here, with one more constructor for any other string, which a value read back from storage can
  hold; the empty string of a zero \<open>Sandbox{}\<close> is \<open>OtherState ''\<close>.
\<close>

datatype sandbox_state =
    SandboxSuspended
  | SandboxRunning
  | SandboxPaused
  | SandboxDeleting
  | OtherState string

fun state_string :: "sandbox_state \<Rightarrow> string" where
  "state_string SandboxSuspended = ''suspended''"
| "state_string SandboxRunning = ''running''"
| "state_string SandboxPaused = ''paused''"
| "state_string SandboxDeleting = ''deleting''"
| "state_string (OtherState s) = s"

datatype snapshot_source =
    SnapshotNone
  | SnapshotLocal
  | SnapshotExternal
  | OtherSource string

fun source_string :: "snapshot_source \<Rightarrow> string" where
  "source_string SnapshotNone = ''''"
| "source_string SnapshotLocal = ''local''"
| "source_string SnapshotExternal = ''external''"
| "source_string (OtherSource s) = s"

record sandbox =
  sbID :: string
  sbState :: sandbox_state
  sbWorkerID :: string
  sbLocalSnapshotPath :: string
  sbObjectKey :: string
  sbSnapshotSource :: snapshot_source
  sbCreatedAt :: gotime
  sbUpdatedAt :: gotime

definition zero_sandbox :: sandbox where
  "zero_sandbox = \<lparr>sbID = '''', sbState = OtherState '''', sbWorkerID = '''',
     sbLocalSnapshotPath = '''', sbObjectKey = '''', sbSnapshotSource = SnapshotNone,
     sbCreatedAt = 0, sbUpdatedAt = 0\<rparr>"

record worker =
  wkID :: string
  wkAddress :: string
  wkMaxSlots :: int
  wkUsedSlots :: int
  wkHealthy :: bool
  wkRegisteredAt :: gotime

text \<open>\<open>FreeSlots\<close> reads a non-positive \<open>MaxSlots\<close> as 1 and never reports a negative count.\<close>

definition FreeSlots :: "worker \<Rightarrow> int" where
  "FreeSlots w =
     (let maxs = (if wkMaxSlots w \<le> 0 then 1 else wkMaxSlots w);
          free = wrap64 (maxs - wkUsedSlots w)
      in if free < 0 then 0 else free)"

record decision =
  dcPolicy :: string
  dcAction :: string
  dcSandboxID :: string
  dcWorkerID :: string
  dcVictimID :: string
  dcReason :: string

section \<open>Slots\<close>

lemma FreeSlots_nonneg: "0 \<le> FreeSlots w"
  by (simp add: FreeSlots_def Let_def)

text \<open>
  The values the code stores: one slot, and a count of used slots that fits. Then a worker is free
  exactly when no slot is used.
\<close>

definition worker_wf :: "worker \<Rightarrow> bool" where
  "worker_wf w \<longleftrightarrow> wkMaxSlots w = 1 \<and> 0 \<le> wkUsedSlots w \<and> in_int64 (wkUsedSlots w)"

lemma FreeSlots_wf:
  assumes "worker_wf w"
  shows "FreeSlots w = (if wkUsedSlots w = 0 then 1 else 0)"
proof -
  have "in_int64 (1 - wkUsedSlots w)"
    using assms by (simp add: worker_wf_def in_int64_def min_int64_def max_int64_def)
  then show ?thesis using assms by (auto simp: FreeSlots_def worker_wf_def)
qed

lemma FreeSlots_full: "wkMaxSlots w = 1 \<Longrightarrow> wkUsedSlots w = 1 \<Longrightarrow> FreeSlots w = 0"
  by (simp add: FreeSlots_def in_int64_def min_int64_def max_int64_def)

end
