(* ===== verification/Signals.thy ===== *)
theory Signals
  imports Prelude
begin

text \<open>
  The signal types of \<open>internal/signals/types.go\<close> and the GreedyDual-Size priority of
  \<open>internal/signals/gds.go\<close>. A pointer field of the Go structs that may be nil is an option.
\<close>

section \<open>Signal types\<close>

record runtime_resource =
  rtCPUUtil :: real
  rtMemRSSBytes :: "64 word"
  rtLastActiveAt :: gotime

record snapshot_resource =
  snCheckpointInProgress :: bool
  snLastCheckpointBytes :: "64 word"
  snLastPreemptCostSec :: real
  snLastCheckpointAt :: gotime
  snLastCheckpointDur :: duration
  snLastRestoreAt :: gotime
  snLastRestoreDur :: duration

record worker_resource =
  wrWorkerID :: string
  wrMaxSlots :: int
  wrUsedSlots :: int
  wrHealthy :: bool
  wrCPUUtil :: real
  wrMemUtil :: real
  wrMemBytes :: "64 word"
  wrReportedAt :: gotime

definition PhaseLLMWait :: string where "PhaseLLMWait = ''llm_wait''"
definition PhaseToolLoop :: string where "PhaseToolLoop = ''tool_loop''"
definition PhaseIdle :: string where "PhaseIdle = ''idle''"

record task_profile =
  tpVersion :: string
  tpComplexitySignal :: "real option"
  tpDifficultyTier :: string
  tpDomain :: string
  tpEmbeddingSim :: real
  tpConfidence :: real
  tpModelID :: string
  tpScoredAt :: gotime
  tpExpectedSteps :: real
  tpExpectedToolSec :: real
  tpExpectedLLMWaitSec :: real

record semantic_resource =
  smVersion :: string
  smPhase :: string
  smLock :: bool
  smRemainingSteps :: "int option"
  smDeadline :: "gotime option"
  smWorkflowID :: string
  smTaskProfile :: "task_profile option"
  smAttainedServiceSec :: real
  smWaitSec :: real
  smReportedAt :: gotime

record sandbox_signals =
  sgSandboxID :: string
  sgWorkerID :: string
  sgReportedAt :: gotime
  sgRuntime :: runtime_resource
  sgSnapshot :: snapshot_resource
  sgSemantic :: semantic_resource
  sgKeepAliveH :: real
  sgCPUUtil :: real
  sgMemRSSBytes :: "64 word"
  sgLastActiveAt :: gotime

record push =
  puWorkerID :: string
  puWorker :: worker_resource
  puSamples :: "sandbox_signals list"

record semantic_push =
  spSandboxID :: string
  spSemantic :: semantic_resource

text \<open>The zero values of the structs.\<close>

definition zero_runtime :: runtime_resource where
  "zero_runtime = \<lparr>rtCPUUtil = 0, rtMemRSSBytes = 0, rtLastActiveAt = 0\<rparr>"

definition zero_snapshot :: snapshot_resource where
  "zero_snapshot = \<lparr>snCheckpointInProgress = False, snLastCheckpointBytes = 0,
     snLastPreemptCostSec = 0, snLastCheckpointAt = 0, snLastCheckpointDur = 0,
     snLastRestoreAt = 0, snLastRestoreDur = 0\<rparr>"

definition zero_semantic :: semantic_resource where
  "zero_semantic = \<lparr>smVersion = '''', smPhase = '''', smLock = False, smRemainingSteps = None,
     smDeadline = None, smWorkflowID = '''', smTaskProfile = None, smAttainedServiceSec = 0,
     smWaitSec = 0, smReportedAt = 0\<rparr>"

text \<open>\<open>NormalizeLegacy\<close> copies the flat JSON fields into \<open>Runtime\<close> where that holds zero values.\<close>

definition NormalizeLegacy :: "sandbox_signals \<Rightarrow> sandbox_signals" where
  "NormalizeLegacy s =
     (let r = sgRuntime s;
          r = (if rtCPUUtil r = 0 then r\<lparr>rtCPUUtil := sgCPUUtil s\<rparr> else r);
          r = (if rtMemRSSBytes r = 0 then r\<lparr>rtMemRSSBytes := sgMemRSSBytes s\<rparr> else r);
          r = (if IsZero (rtLastActiveAt r) then r\<lparr>rtLastActiveAt := sgLastActiveAt s\<rparr> else r)
      in s\<lparr>sgRuntime := r\<rparr>)"

lemma NormalizeLegacy_idem: "NormalizeLegacy (NormalizeLegacy s) = NormalizeLegacy s"
  by (simp add: NormalizeLegacy_def Let_def)

lemma NormalizeLegacy_frame [simp]:
  "sgSandboxID (NormalizeLegacy s) = sgSandboxID s"
  "sgWorkerID (NormalizeLegacy s) = sgWorkerID s"
  "sgSnapshot (NormalizeLegacy s) = sgSnapshot s"
  "sgSemantic (NormalizeLegacy s) = sgSemantic s"
  by (simp_all add: NormalizeLegacy_def Let_def)

section \<open>GreedyDual-Size\<close>

definition gdsDefaultCost :: real where "gdsDefaultCost = 1"
definition gdsDefaultSize :: real where "gdsDefaultSize = 1"
definition bytesPerMiB :: real where "bytesPerMiB = 1024 * 1024"

definition GDSCost :: "snapshot_resource \<Rightarrow> real" where
  "GDSCost snap =
     (let c = snLastPreemptCostSec snap + dur_Seconds (snLastRestoreDur snap)
      in if c > 0 then c
         else if snLastCheckpointDur snap > 0 then dur_Seconds (snLastCheckpointDur snap)
         else gdsDefaultCost)"

text \<open>\<open>float64(b) / bytesPerMiB\<close>, at least the default size.\<close>

definition mib_of :: "64 word \<Rightarrow> real" where
  "mib_of b =
     (let s = real (unat b) / bytesPerMiB in if s < gdsDefaultSize then gdsDefaultSize else s)"

definition GDSSize :: "runtime_resource \<Rightarrow> snapshot_resource \<Rightarrow> real" where
  "GDSSize runtime snap =
     (if rtMemRSSBytes runtime > 0 then mib_of (rtMemRSSBytes runtime)
      else if snLastCheckpointBytes snap > 0 then mib_of (snLastCheckpointBytes snap)
      else gdsDefaultSize)"

definition GDSPriority :: "real \<Rightarrow> runtime_resource \<Rightarrow> snapshot_resource \<Rightarrow> real" where
  "GDSPriority L runtime snap = L + GDSCost snap / GDSSize runtime snap"

lemmas gds_defs = GDSCost_def GDSSize_def GDSPriority_def mib_of_def
  gdsDefaultCost_def gdsDefaultSize_def bytesPerMiB_def Let_def

lemma GDSCost_pos: "0 < GDSCost snap"
  by (simp add: gds_defs)

lemma mib_of_ge_1: "1 \<le> mib_of b"
  by (simp add: gds_defs)

lemma GDSSize_ge_1: "1 \<le> GDSSize runtime snap"
  using mib_of_ge_1 by (simp add: GDSSize_def gdsDefaultSize_def)

lemma GDSPriority_gt: "L < GDSPriority L runtime snap"
  using GDSCost_pos [of snap] GDSSize_ge_1 [of runtime snap] by (simp add: GDSPriority_def)

lemma GDSPriority_le: "GDSPriority L runtime snap \<le> L + GDSCost snap"
proof -
  have "GDSCost snap / GDSSize runtime snap \<le> GDSCost snap / 1"
    using GDSCost_pos [of snap] GDSSize_ge_1 [of runtime snap]
    by (intro divide_left_mono) simp_all
  then show ?thesis by (simp add: GDSPriority_def)
qed

lemma GDSPriority_mono_clock: "GDSPriority (L + d) r s = GDSPriority L r s + d"
  by (simp add: GDSPriority_def)

lemma GDSPriority_size_antimono:
  assumes "GDSSize r s \<le> GDSSize r' s"
  shows "GDSPriority L r' s \<le> GDSPriority L r s"
  using assms GDSCost_pos [of s] GDSSize_ge_1 [of r s] GDSSize_ge_1 [of r' s]
  by (simp add: GDSPriority_def divide_left_mono)

lemma GDSPriority_cost_mono:
  assumes "GDSCost s \<le> GDSCost s'" and "GDSSize r s = GDSSize r s'"
  shows "GDSPriority L r s \<le> GDSPriority L r s'"
  using assms GDSSize_ge_1 [of r s] by (simp add: GDSPriority_def divide_right_mono)

lemma mib_of_mono: "a \<le> b \<Longrightarrow> mib_of a \<le> mib_of b"
proof -
  assume "a \<le> b"
  then have "real (unat a) / bytesPerMiB \<le> real (unat b) / bytesPerMiB"
    by (simp add: word_le_nat_alt bytesPerMiB_def divide_right_mono del: of_nat_unat)
  then show ?thesis by (simp add: mib_of_def Let_def del: of_nat_unat)
qed

lemma GDSSize_mono_rss:
  "rtMemRSSBytes r > 0 \<Longrightarrow> rtMemRSSBytes r \<le> rtMemRSSBytes r' \<Longrightarrow> GDSSize r s \<le> GDSSize r' s"
  using mib_of_mono by (auto simp: GDSSize_def)

lemma GDSPriority_zero: "GDSPriority 0 zero_runtime zero_snapshot = 1"
  by (simp add: gds_defs zero_runtime_def zero_snapshot_def)

end
