(* ===== verification/SignalStore.thy ===== *)
theory SignalStore
  imports Signals
begin

text \<open>
  The signal cache of \<open>internal/signals/store.go\<close>: per-sandbox records (runtime, snapshot, semantic,
  GreedyDual-Size priority, platform clocks) and per-worker rows, both with a time to live, and the
  GreedyDual clock \<open>L\<close>. Every method is a function on the state; the mutex makes each of them one
  atomic step, so it leaves no trace here.
\<close>

section \<open>State\<close>

record sandbox_record =
  rcWorkerID :: string
  rcRuntime :: runtime_resource
  rcSnapshot :: snapshot_resource
  rcH :: real
  rcUpdatedAt :: gotime
  rcSemantic :: semantic_resource
  rcSemanticAt :: gotime
  rcAttainedServiceSec :: real
  rcWaitSec :: real
  rcRunningSince :: gotime
  rcSuspendedSince :: gotime

definition zero_record :: sandbox_record where
  "zero_record = \<lparr>rcWorkerID = '''', rcRuntime = zero_runtime, rcSnapshot = zero_snapshot,
     rcH = 0, rcUpdatedAt = 0, rcSemantic = zero_semantic, rcSemanticAt = 0,
     rcAttainedServiceSec = 0, rcWaitSec = 0, rcRunningSince = 0, rcSuspendedSince = 0\<rparr>"

record signal_store =
  ssTTL :: duration
  ssL :: real
  ssBySandbox :: "(string, sandbox_record) gomap"
  ssByWorker :: "(string, worker_resource) gomap"

definition NewStore :: "duration \<Rightarrow> signal_store" where
  "NewStore ttl =
     \<lparr>ssTTL = (if ttl \<le> 0 then 30 * second else ttl), ssL = 0, ssBySandbox = [], ssByWorker = []\<rparr>"

definition GDClock :: "signal_store \<Rightarrow> real" where
  "GDClock s = ssL s"

text \<open>\<open>s.bySandbox[id]\<close>, the zero record for an unknown sandbox.\<close>

definition rec_of :: "signal_store \<Rightarrow> string \<Rightarrow> sandbox_record" where
  "rec_of s sid = mget_or zero_record (ssBySandbox s) sid"

definition put_rec :: "string \<Rightarrow> sandbox_record \<Rightarrow> signal_store \<Rightarrow> signal_store" where
  "put_rec sid r s = s\<lparr>ssBySandbox := mput sid r (ssBySandbox s)\<rparr>"

section \<open>Operations\<close>

definition purgeLocked :: "gotime \<Rightarrow> signal_store \<Rightarrow> signal_store" where
  "purgeLocked now s =
     s\<lparr>ssBySandbox := filter (\<lambda>(_, r). \<not> time_Sub now (rcUpdatedAt r) > ssTTL s) (ssBySandbox s),
       ssByWorker := filter (\<lambda>(_, w). \<not> time_Sub now (wrReportedAt w) > ssTTL s) (ssByWorker s)\<rparr>"

text \<open>The body of \<open>ApplyPush\<close>'s loop for one sample.\<close>

definition apply_sample :: "gotime \<Rightarrow> sandbox_signals \<Rightarrow> signal_store \<Rightarrow> signal_store" where
  "apply_sample now sample s =
     (if sgSandboxID sample = '''' then s
      else
        let sample = NormalizeLegacy sample;
            sid = sgSandboxID sample;
            existed = (mget (ssBySandbox s) sid \<noteq> None);
            r = rec_of s sid;
            prevActive = rtLastActiveAt (rcRuntime r);
            r = r\<lparr>rcWorkerID := sgWorkerID sample,
                  rcRuntime := sgRuntime sample,
                  rcSnapshot := (rcSnapshot r)
                    \<lparr>snCheckpointInProgress := snCheckpointInProgress (sgSnapshot sample)\<rparr>,
                  rcUpdatedAt := now\<rparr>;
            r = (if \<not> existed \<or> rtLastActiveAt (sgRuntime sample) > prevActive
                 then r\<lparr>rcH := GDSPriority (ssL s) (rcRuntime r) (rcSnapshot r)\<rparr> else r)
        in put_rec sid r s)"

definition apply_worker_row :: "gotime \<Rightarrow> push \<Rightarrow> signal_store \<Rightarrow> signal_store" where
  "apply_worker_row now p s =
     (if puWorkerID p \<noteq> '''' then
        let w = puWorker p;
            w = (if wrWorkerID w = '''' then w\<lparr>wrWorkerID := puWorkerID p\<rparr> else w);
            w = (if IsZero (wrReportedAt w) then w\<lparr>wrReportedAt := now\<rparr> else w)
        in s\<lparr>ssByWorker := mput (wrWorkerID w) w (ssByWorker s)\<rparr>
      else s)"

definition ApplyPush :: "push \<Rightarrow> gotime \<Rightarrow> signal_store \<Rightarrow> signal_store" where
  "ApplyPush p now s =
     purgeLocked now (fold (apply_sample now) (puSamples p) (apply_worker_row now p s))"

definition merge_semantic :: "semantic_resource \<Rightarrow> semantic_resource \<Rightarrow> semantic_resource" where
  "merge_semantic sem old =
     (let m = (if smVersion sem \<noteq> '''' then old\<lparr>smVersion := smVersion sem\<rparr> else old);
          m = (if smPhase sem \<noteq> '''' then m\<lparr>smPhase := smPhase sem\<rparr> else m);
          m = m\<lparr>smLock := smLock sem\<rparr>;
          m = (if smRemainingSteps sem \<noteq> None
               then m\<lparr>smRemainingSteps := smRemainingSteps sem\<rparr> else m);
          m = (if smDeadline sem \<noteq> None then m\<lparr>smDeadline := smDeadline sem\<rparr> else m);
          m = (if smWorkflowID sem \<noteq> '''' then m\<lparr>smWorkflowID := smWorkflowID sem\<rparr> else m);
          m = (if smTaskProfile sem \<noteq> None then m\<lparr>smTaskProfile := smTaskProfile sem\<rparr> else m)
      in m)"

definition ApplySemantic :: "semantic_push \<Rightarrow> gotime \<Rightarrow> signal_store \<Rightarrow> signal_store" where
  "ApplySemantic p now s =
     (if spSandboxID p = '''' then s
      else
        let r = rec_of s (spSandboxID p);
            r = r\<lparr>rcSemantic := merge_semantic (spSemantic p) (rcSemantic r),
                  rcSemanticAt := now, rcUpdatedAt := now\<rparr>
        in purgeLocked now (put_rec (spSandboxID p) r s))"

definition MarkRunning :: "string \<Rightarrow> gotime \<Rightarrow> signal_store \<Rightarrow> signal_store" where
  "MarkRunning sid now s =
     (if sid = '''' then s
      else
        let r = rec_of s sid;
            r = (if \<not> IsZero (rcSuspendedSince r)
                 then r\<lparr>rcWaitSec := rcWaitSec r + dur_Seconds (time_Sub now (rcSuspendedSince r)),
                        rcSuspendedSince := 0\<rparr>
                 else r);
            r = (if IsZero (rcRunningSince r) then r\<lparr>rcRunningSince := now\<rparr> else r);
            r = r\<lparr>rcUpdatedAt := now\<rparr>
        in put_rec sid r s)"

definition MarkSuspended :: "string \<Rightarrow> gotime \<Rightarrow> signal_store \<Rightarrow> signal_store" where
  "MarkSuspended sid now s =
     (if sid = '''' then s
      else
        let r = rec_of s sid;
            r = (if \<not> IsZero (rcRunningSince r)
                 then r\<lparr>rcAttainedServiceSec := rcAttainedServiceSec r
                          + dur_Seconds (time_Sub now (rcRunningSince r)),
                        rcRunningSince := 0\<rparr>
                 else r);
            r = (if IsZero (rcSuspendedSince r) then r\<lparr>rcSuspendedSince := now\<rparr> else r);
            r = r\<lparr>rcUpdatedAt := now\<rparr>
        in put_rec sid r s)"

definition RecordCheckpoint ::
    "string \<Rightarrow> snapshot_resource \<Rightarrow> gotime \<Rightarrow> signal_store \<Rightarrow> signal_store" where
  "RecordCheckpoint sid snap now s =
     (if sid = '''' then s
      else
        let r = rec_of s sid;
            sn = (rcSnapshot r)\<lparr>snCheckpointInProgress := False\<rparr>;
            sn = (if snLastCheckpointBytes snap \<noteq> 0
                  then sn\<lparr>snLastCheckpointBytes := snLastCheckpointBytes snap\<rparr> else sn);
            sn = (if snLastPreemptCostSec snap \<noteq> 0
                  then sn\<lparr>snLastPreemptCostSec := snLastPreemptCostSec snap\<rparr> else sn);
            sn = (if \<not> IsZero (snLastCheckpointAt snap)
                  then sn\<lparr>snLastCheckpointAt := snLastCheckpointAt snap,
                          snLastCheckpointDur := snLastCheckpointDur snap\<rparr> else sn);
            r = r\<lparr>rcSnapshot := sn, rcUpdatedAt := now,
                  rcH := GDSPriority (ssL s) (rcRuntime r) sn\<rparr>
        in purgeLocked now (put_rec sid r s))"

definition RecordRestore ::
    "string \<Rightarrow> gotime \<Rightarrow> duration \<Rightarrow> gotime \<Rightarrow> signal_store \<Rightarrow> signal_store" where
  "RecordRestore sid tat dur now s =
     (if sid = '''' then s
      else
        let r = rec_of s sid;
            sn = (rcSnapshot r)\<lparr>snLastRestoreAt := tat, snLastRestoreDur := dur\<rparr>;
            r = r\<lparr>rcSnapshot := sn, rcUpdatedAt := now,
                  rcH := GDSPriority (ssL s) (rcRuntime r) sn\<rparr>
        in purgeLocked now (put_rec sid r s))"

definition OnEvict :: "string \<Rightarrow> signal_store \<Rightarrow> signal_store" where
  "OnEvict sid s =
     (if sid = '''' then s
      else case mget (ssBySandbox s) sid of
        None \<Rightarrow> s
      | Some r \<Rightarrow> s\<lparr>ssL := rcH r\<rparr>)"

definition toSandboxSignals ::
    "signal_store \<Rightarrow> string \<Rightarrow> sandbox_record \<Rightarrow> gotime \<Rightarrow> sandbox_signals" where
  "toSandboxSignals s sid r now =
     (let sem = (rcSemantic r)\<lparr>smAttainedServiceSec := rcAttainedServiceSec r,
                               smWaitSec := rcWaitSec r\<rparr>;
          sem = (if \<not> IsZero (rcRunningSince r)
                 then sem\<lparr>smAttainedServiceSec := smAttainedServiceSec sem
                            + dur_Seconds (time_Sub now (rcRunningSince r))\<rparr> else sem);
          sem = (if \<not> IsZero (rcSuspendedSince r)
                 then sem\<lparr>smWaitSec := smWaitSec sem
                            + dur_Seconds (time_Sub now (rcSuspendedSince r))\<rparr> else sem);
          sem = (if \<not> IsZero (rcSemanticAt r) then sem\<lparr>smReportedAt := rcSemanticAt r\<rparr> else sem);
          sem = (if \<not> IsZero (rcSemanticAt r) \<and> time_Sub now (rcSemanticAt r) > ssTTL s
                 then zero_semantic\<lparr>smAttainedServiceSec := smAttainedServiceSec sem,
                                    smWaitSec := smWaitSec sem\<rparr>
                 else sem)
      in \<lparr>sgSandboxID = sid, sgWorkerID = rcWorkerID r, sgReportedAt = rcUpdatedAt r,
          sgRuntime = rcRuntime r, sgSnapshot = rcSnapshot r, sgSemantic = sem,
          sgKeepAliveH = rcH r, sgCPUUtil = 0, sgMemRSSBytes = 0, sgLastActiveAt = 0\<rparr>)"

definition GetSandbox :: "signal_store \<Rightarrow> string \<Rightarrow> gotime \<Rightarrow> sandbox_signals option" where
  "GetSandbox s sid now =
     (case mget (ssBySandbox s) sid of
        None \<Rightarrow> None
      | Some r \<Rightarrow> if time_Sub now (rcUpdatedAt r) > ssTTL s then None
                  else Some (toSandboxSignals s sid r now))"

definition GetWorker :: "signal_store \<Rightarrow> string \<Rightarrow> gotime \<Rightarrow> worker_resource option" where
  "GetWorker s sid now =
     (case mget (ssByWorker s) sid of
        None \<Rightarrow> None
      | Some w \<Rightarrow> if time_Sub now (wrReportedAt w) > ssTTL s then None else Some w)"

definition ListSandboxes :: "signal_store \<Rightarrow> gotime \<Rightarrow> (string, sandbox_signals) gomap" where
  "ListSandboxes s now =
     map (\<lambda>(sid, r). (sid, toSandboxSignals s sid r now))
       (filter (\<lambda>(_, r). time_Sub now (rcUpdatedAt r) \<le> ssTTL s) (ssBySandbox s))"

definition ListWorkers :: "signal_store \<Rightarrow> gotime \<Rightarrow> (string, worker_resource) gomap" where
  "ListWorkers s now = filter (\<lambda>(_, w). time_Sub now (wrReportedAt w) \<le> ssTTL s) (ssByWorker s)"

section \<open>Well-formedness\<close>

definition store_ok :: "signal_store \<Rightarrow> bool" where
  "store_ok s \<longleftrightarrow> 0 < ssTTL s \<and> gomap_ok (ssBySandbox s) \<and> gomap_ok (ssByWorker s)"

lemma store_ok_NewStore: "store_ok (NewStore ttl)"
  by (simp add: store_ok_def NewStore_def second_def)

lemma NewStore_simps [simp]:
  "ssTTL (NewStore ttl) = (if ttl \<le> 0 then 30 * second else ttl)"
  "ssL (NewStore ttl) = 0"
  "ssBySandbox (NewStore ttl) = []"
  "ssByWorker (NewStore ttl) = []"
  by (simp_all add: NewStore_def)

lemma put_rec_simps [simp]:
  "ssTTL (put_rec sid r s) = ssTTL s"
  "ssL (put_rec sid r s) = ssL s"
  "ssByWorker (put_rec sid r s) = ssByWorker s"
  "mget (ssBySandbox (put_rec sid r s)) = (mget (ssBySandbox s))(sid \<mapsto> r)"
  "rec_of (put_rec sid r s) sid' = (if sid' = sid then r else rec_of s sid')"
  by (simp_all add: put_rec_def rec_of_def)

lemma purgeLocked_simps [simp]:
  "ssTTL (purgeLocked now s) = ssTTL s"
  "ssL (purgeLocked now s) = ssL s"
  by (simp_all add: purgeLocked_def)

lemma store_ok_put_rec [simp]: "store_ok s \<Longrightarrow> store_ok (put_rec sid r s)"
  by (simp add: store_ok_def put_rec_def)

lemma store_ok_purgeLocked [simp]: "store_ok s \<Longrightarrow> store_ok (purgeLocked now s)"
  by (simp add: store_ok_def purgeLocked_def)

lemma apply_sample_simps [simp]:
  "ssTTL (apply_sample now x s) = ssTTL s"
  "ssL (apply_sample now x s) = ssL s"
  "store_ok s \<Longrightarrow> store_ok (apply_sample now x s)"
  by (simp_all add: apply_sample_def Let_def)

lemma fold_apply_sample_simps [simp]:
  "ssTTL (fold (apply_sample now) xs s) = ssTTL s"
  "ssL (fold (apply_sample now) xs s) = ssL s"
  by (induction xs arbitrary: s) simp_all

lemma fold_apply_sample_ok [simp]: "store_ok s \<Longrightarrow> store_ok (fold (apply_sample now) xs s)"
  by (induction xs arbitrary: s) simp_all

lemma apply_worker_row_simps [simp]:
  "ssTTL (apply_worker_row now p s) = ssTTL s"
  "ssL (apply_worker_row now p s) = ssL s"
  "ssBySandbox (apply_worker_row now p s) = ssBySandbox s"
  "rec_of (apply_worker_row now p s) sid = rec_of s sid"
  "store_ok s \<Longrightarrow> store_ok (apply_worker_row now p s)"
  by (auto simp: apply_worker_row_def Let_def store_ok_def rec_of_def)

text \<open>One call on the store, and a run of calls.\<close>

datatype sig_op =
    OpPush push gotime
  | OpSemantic semantic_push gotime
  | OpRunning string gotime
  | OpSuspended string gotime
  | OpCheckpoint string snapshot_resource gotime
  | OpRestore string gotime duration gotime
  | OpEvict string

fun sig_step :: "sig_op \<Rightarrow> signal_store \<Rightarrow> signal_store" where
  "sig_step (OpPush p now) = ApplyPush p now"
| "sig_step (OpSemantic p now) = ApplySemantic p now"
| "sig_step (OpRunning sid now) = MarkRunning sid now"
| "sig_step (OpSuspended sid now) = MarkSuspended sid now"
| "sig_step (OpCheckpoint sid snap now) = RecordCheckpoint sid snap now"
| "sig_step (OpRestore sid tat dur now) = RecordRestore sid tat dur now"
| "sig_step (OpEvict sid) = OnEvict sid"

lemmas sig_op_defs = ApplyPush_def ApplySemantic_def MarkRunning_def MarkSuspended_def
  RecordCheckpoint_def RecordRestore_def OnEvict_def

lemma sig_step_ok: "store_ok s \<Longrightarrow> store_ok (sig_step op s)"
  by (cases op) (auto simp: sig_op_defs Let_def store_ok_def [of "ssL_update _ _"]
      split: option.splits dest: store_ok_def [THEN iffD1])

lemma sig_step_ttl [simp]: "ssTTL (sig_step op s) = ssTTL s"
  by (cases op) (auto simp: sig_op_defs Let_def split: option.splits)

lemma sig_run_ok: "store_ok s \<Longrightarrow> store_ok (fold sig_step ops s)"
  by (induction ops arbitrary: s) (simp_all add: sig_step_ok)

section \<open>Freshness\<close>

lemma purge_sandbox:
  "store_ok s \<Longrightarrow>
   mget (ssBySandbox (purgeLocked now s)) sid =
     (case mget (ssBySandbox s) sid of
        None \<Rightarrow> None
      | Some r \<Rightarrow> if time_Sub now (rcUpdatedAt r) > ssTTL s then None else Some r)"
  by (auto simp: purgeLocked_def store_ok_def mget_filter split: option.splits)

lemma purge_worker:
  "store_ok s \<Longrightarrow>
   mget (ssByWorker (purgeLocked now s)) wid =
     (case mget (ssByWorker s) wid of
        None \<Rightarrow> None
      | Some w \<Rightarrow> if time_Sub now (wrReportedAt w) > ssTTL s then None else Some w)"
  by (auto simp: purgeLocked_def store_ok_def mget_filter split: option.splits)

lemma age_mono: "now \<le> now' \<Longrightarrow> time_Sub now u > ttl \<Longrightarrow> time_Sub now' u > ttl"
  by (meson order.strict_trans2 time_Sub_mono_left)

lemma toSandboxSignals_purge [simp]:
  "toSandboxSignals (purgeLocked t s) sid r now = toSandboxSignals s sid r now"
  by (simp add: toSandboxSignals_def)

text \<open>
  What both halves of the cache promise their readers: the listing and the single lookup agree, a
  purge is invisible to every later reader, an entry that has expired stays expired.
\<close>

locale ttl_cache =
  fixes get :: "'s \<Rightarrow> 'k \<Rightarrow> gotime \<Rightarrow> 'o option"
    and listing :: "'s \<Rightarrow> gotime \<Rightarrow> ('k, 'o) gomap"
    and purge :: "gotime \<Rightarrow> 's \<Rightarrow> 's"
    and ok :: "'s \<Rightarrow> bool"
  assumes listing_get: "ok s \<Longrightarrow> mget (listing s now) k = get s k now"
    and listing_ok: "ok s \<Longrightarrow> gomap_ok (listing s now)"
    and purge_get: "ok s \<Longrightarrow> t \<le> now \<Longrightarrow> get (purge t s) k now = get s k now"
    and purge_ok: "ok s \<Longrightarrow> ok (purge t s)"
    and get_expired: "ok s \<Longrightarrow> get s k t = None \<Longrightarrow> t \<le> now \<Longrightarrow> get s k now = None"
begin

lemma listing_purge:
  "ok s \<Longrightarrow> t \<le> now \<Longrightarrow> mget (listing (purge t s) now) k = mget (listing s now) k"
  by (simp add: listing_get purge_get purge_ok)

lemma listing_shrinks:
  "ok s \<Longrightarrow> t \<le> now \<Longrightarrow> dom (mget (listing s now)) \<subseteq> dom (mget (listing s t))"
  using get_expired by (fastforce simp: listing_get)

lemma listing_mem: "ok s \<Longrightarrow> (k, v) \<in> set (listing s now) \<longleftrightarrow> get s k now = Some v"
  using listing_get listing_ok mget_mem by metis

end

interpretation sandbox_cache: ttl_cache GetSandbox ListSandboxes purgeLocked store_ok
proof
  fix s :: signal_store and sid now t
  assume ok: "store_ok s"
  show "mget (ListSandboxes s now) sid = GetSandbox s sid now"
    using ok by (auto simp: ListSandboxes_def GetSandbox_def mget_map_values mget_filter
        store_ok_def split: option.splits)
  show "gomap_ok (ListSandboxes s now)"
    using ok by (simp add: ListSandboxes_def store_ok_def)
  show "GetSandbox (purgeLocked t s) sid now = GetSandbox s sid now" if "t \<le> now"
    using ok age_mono [OF that] by (auto simp: GetSandbox_def purge_sandbox split: option.splits)
  show "store_ok (purgeLocked t s)"
    using ok by simp
  show "GetSandbox s sid now = None" if "GetSandbox s sid t = None" "t \<le> now"
    using that age_mono [OF that(2)] by (auto simp: GetSandbox_def split: option.splits if_splits)
qed

interpretation worker_cache: ttl_cache GetWorker ListWorkers purgeLocked store_ok
proof
  fix s :: signal_store and wid now t
  assume ok: "store_ok s"
  show "mget (ListWorkers s now) wid = GetWorker s wid now"
    using ok by (auto simp: ListWorkers_def GetWorker_def mget_filter store_ok_def
        split: option.splits)
  show "gomap_ok (ListWorkers s now)"
    using ok by (simp add: ListWorkers_def store_ok_def)
  show "GetWorker (purgeLocked t s) wid now = GetWorker s wid now" if "t \<le> now"
    using ok age_mono [OF that] by (auto simp: GetWorker_def purge_worker split: option.splits)
  show "store_ok (purgeLocked t s)"
    using ok by simp
  show "GetWorker s wid now = None" if "GetWorker s wid t = None" "t \<le> now"
    using that age_mono [OF that(2)] by (auto simp: GetWorker_def split: option.splits if_splits)
qed

section \<open>Platform clocks\<close>

definition clocks :: "sandbox_record \<Rightarrow> real \<times> real \<times> gotime \<times> gotime" where
  "clocks r = (rcAttainedServiceSec r, rcWaitSec r, rcRunningSince r, rcSuspendedSince r)"

lemma rec_of_Some: "mget (ssBySandbox s) sid = Some r \<Longrightarrow> rec_of s sid = r"
  by (simp add: rec_of_def mget_or_def)

lemma clocks_apply_sample: "clocks (rec_of (apply_sample now x s) sid) = clocks (rec_of s sid)"
  by (simp add: apply_sample_def Let_def clocks_def)

lemma clocks_fold_samples:
  "clocks (rec_of (fold (apply_sample now) xs s) sid) = clocks (rec_of s sid)"
  by (induction xs arbitrary: s) (simp_all add: clocks_apply_sample)

lemma purge_survivor:
  "mget (ssBySandbox (purgeLocked now s)) sid = Some r \<Longrightarrow> store_ok s \<Longrightarrow> rec_of s sid = r"
  by (auto simp: purge_sandbox intro: rec_of_Some split: option.splits if_splits)

text \<open>
  Only \<open>MarkRunning\<close> and \<open>MarkSuspended\<close> write the platform clocks: a record that survives any other
  call has the clocks it had (those of the zero record when it is new).
\<close>

fun is_mark :: "sig_op \<Rightarrow> bool" where
  "is_mark (OpRunning _ _) = True"
| "is_mark (OpSuspended _ _) = True"
| "is_mark _ = False"

lemma clocks_unmarked:
  assumes ok: "store_ok s" and op: "\<not> is_mark op"
    and r: "mget (ssBySandbox (sig_step op s)) sid = Some r"
  shows "clocks r = clocks (rec_of s sid)"
proof (cases op)
  case (OpPush p now)
  let ?s = "fold (apply_sample now) (puSamples p) (apply_worker_row now p s)"
  have "rec_of ?s sid = r"
    using r ok by (intro purge_survivor) (auto simp: OpPush ApplyPush_def)
  then show ?thesis by (metis clocks_fold_samples apply_worker_row_simps(4))
next
  case (OpSemantic p now)
  then show ?thesis using r ok rec_of_Some
    by (auto simp: ApplySemantic_def Let_def clocks_def dest!: purge_survivor split: if_splits)
next
  case (OpCheckpoint cid snap now)
  then show ?thesis using r ok rec_of_Some
    by (auto simp: RecordCheckpoint_def Let_def clocks_def dest!: purge_survivor split: if_splits)
next
  case (OpRestore rid tat dur now)
  then show ?thesis using r ok rec_of_Some
    by (auto simp: RecordRestore_def Let_def clocks_def dest!: purge_survivor split: if_splits)
next
  case (OpEvict eid)
  then show ?thesis using r rec_of_Some
    by (auto simp: OnEvict_def split: option.splits if_splits)
qed (use op in auto)

text \<open>
  What the clocks measure. A history of marks is a list of \<open>(running, instant)\<close> pairs; between a
  mark and the next one the sandbox is in the state the mark says.
\<close>

fun time_in :: "bool \<Rightarrow> (bool \<times> gotime) list \<Rightarrow> gotime \<Rightarrow> duration" where
  "time_in b [] now = 0"
| "time_in b [(c, t)] now = (if c = b then now - t else 0)"
| "time_in b ((c, t) # (d, u) # ms) now = (if c = b then u - t else 0) + time_in b ((d, u) # ms) now"

lemma time_in_same: "time_in b ((c, t) # (c, u) # ms) now = time_in b ((c, t) # ms) now"
  by (cases ms) auto

fun mark_op :: "string \<Rightarrow> bool \<times> gotime \<Rightarrow> sig_op" where
  "mark_op sid (running, t) = (if running then OpRunning sid t else OpSuspended sid t)"

definition attained_at :: "sandbox_record \<Rightarrow> gotime \<Rightarrow> real" where
  "attained_at r now = rcAttainedServiceSec r +
     (if IsZero (rcRunningSince r) then 0 else dur_Seconds (time_Sub now (rcRunningSince r)))"

definition wait_at :: "sandbox_record \<Rightarrow> gotime \<Rightarrow> real" where
  "wait_at r now = rcWaitSec r +
     (if IsZero (rcSuspendedSince r) then 0 else dur_Seconds (time_Sub now (rcSuspendedSince r)))"

lemma view_clocks:
  "smAttainedServiceSec (sgSemantic (toSandboxSignals s sid r now)) = attained_at r now"
  "smWaitSec (sgSemantic (toSandboxSignals s sid r now)) = wait_at r now"
  by (simp_all add: toSandboxSignals_def Let_def attained_at_def wait_at_def)

text \<open>The record of a sandbox whose open interval started at \<open>u\<close>, running or waiting.\<close>

definition open_interval :: "sandbox_record \<Rightarrow> bool \<Rightarrow> gotime \<Rightarrow> bool" where
  "open_interval r b u \<longleftrightarrow>
     0 < u \<and> rcRunningSince r = (if b then u else 0) \<and> rcSuspendedSince r = (if b then 0 else u)"

lemma mark_step_same:
  assumes "sid \<noteq> ''''" "open_interval (rec_of s sid) b u"
  shows "clocks (rec_of (sig_step (mark_op sid (b, t)) s) sid) = clocks (rec_of s sid)"
  using assms by (auto simp: open_interval_def MarkRunning_def MarkSuspended_def Let_def
      clocks_def IsZero_def)

lemma mark_step_switch:
  assumes "sid \<noteq> ''''" "open_interval (rec_of s sid) b u" "0 < t"
  shows "clocks (rec_of (sig_step (mark_op sid (\<not> b, t)) s) sid) =
    (rcAttainedServiceSec (rec_of s sid) + (if b then dur_Seconds (time_Sub t u) else 0),
     rcWaitSec (rec_of s sid) + (if b then 0 else dur_Seconds (time_Sub t u)),
     (if b then 0 else t), (if b then t else 0))"
  using assms by (auto simp: open_interval_def MarkRunning_def MarkSuspended_def Let_def
      clocks_def IsZero_def)

lemma marks_accrue:
  assumes "sid \<noteq> ''''" "open_interval (rec_of s sid) b u"
    "sorted (u # map snd ms @ [now])" "now - u \<le> max_int64"
  shows "attained_at (rec_of (fold sig_step (map (mark_op sid) ms) s) sid) now =
           rcAttainedServiceSec (rec_of s sid) + dur_Seconds (time_in True ((b, u) # ms) now)
       \<and> wait_at (rec_of (fold sig_step (map (mark_op sid) ms) s) sid) now =
           rcWaitSec (rec_of s sid) + dur_Seconds (time_in False ((b, u) # ms) now)"
  using assms
proof (induction ms arbitrary: s b u)
  case Nil
  then have "time_Sub now u = now - u"
    by (intro time_Sub_exact) (auto simp: in_int64_def min_int64_def)
  with Nil show ?case
    by (auto simp: open_interval_def attained_at_def wait_at_def IsZero_def)
next
  case (Cons m ms)
  obtain c t where m: "m = (c, t)" by (cases m)
  let ?s = "sig_step (mark_op sid m) s"
  from Cons.prems have bounds: "u \<le> t" "t \<le> now" "0 < u" "sorted (t # map snd ms @ [now])"
    "sorted (u # map snd ms @ [now])"
    by (auto simp: m open_interval_def)
  have sub: "time_Sub t u = t - u"
    using bounds Cons.prems(4) by (intro time_Sub_exact) (auto simp: in_int64_def min_int64_def)
  show ?case
  proof (cases "c = b")
    case True
    from mark_step_same [OF Cons.prems(1,2)]
    have same: "clocks (rec_of ?s sid) = clocks (rec_of s sid)" by (simp add: m True)
    then have "open_interval (rec_of ?s sid) b u"
      using Cons.prems(2) by (simp add: open_interval_def clocks_def)
    from Cons.IH [OF Cons.prems(1) this bounds(5) Cons.prems(4)] same
    show ?thesis by (simp add: m True time_in_same clocks_def del: time_in.simps)
  next
    case False
    then have c: "c = (\<not> b)" by auto
    from mark_step_switch [OF Cons.prems(1,2), of t] bounds
    have sw: "clocks (rec_of ?s sid) =
      (rcAttainedServiceSec (rec_of s sid) + (if b then dur_Seconds (t - u) else 0),
       rcWaitSec (rec_of s sid) + (if b then 0 else dur_Seconds (t - u)),
       (if b then 0 else t), (if b then t else 0))"
      by (simp add: m c sub)
    then have "open_interval (rec_of ?s sid) c t"
      using bounds by (simp add: open_interval_def clocks_def c)
    from Cons.IH [OF Cons.prems(1) this bounds(4)] sw bounds Cons.prems(4)
    show ?thesis by (simp add: m c clocks_def dur_Seconds_add)
  qed
qed

section \<open>The GreedyDual clock\<close>

text \<open>
  The invariant behind GreedyDual-Size aging: no cached priority is below the clock. It needs what
  the algorithm assumes: every record got its priority from a refresh (so a semantic heartbeat or a
  mark comes for a known sandbox only), and the victim has the least priority.
\<close>

definition aged :: "signal_store \<Rightarrow> bool" where
  "aged s \<longleftrightarrow> list_all (\<lambda>(_, r). ssL s \<le> rcH r) (ssBySandbox s)"

definition known :: "signal_store \<Rightarrow> string \<Rightarrow> bool" where
  "known s sid \<longleftrightarrow> mget (ssBySandbox s) sid \<noteq> None"

fun disciplined :: "sig_op \<Rightarrow> signal_store \<Rightarrow> bool" where
  "disciplined (OpSemantic p now) s = known s (spSandboxID p)"
| "disciplined (OpRunning sid now) s = known s sid"
| "disciplined (OpSuspended sid now) s = known s sid"
| "disciplined (OpEvict sid) s =
     (case mget (ssBySandbox s) sid of
        None \<Rightarrow> True
      | Some r \<Rightarrow> list_all (\<lambda>(_, r'). rcH r \<le> rcH r') (ssBySandbox s))"
| "disciplined _ s = True"

fun disciplined_run :: "sig_op list \<Rightarrow> signal_store \<Rightarrow> bool" where
  "disciplined_run [] s = True"
| "disciplined_run (op # ops) s = (disciplined op s \<and> disciplined_run ops (sig_step op s))"



lemma aged_put_rec: "aged s \<Longrightarrow> ssL s \<le> rcH r \<Longrightarrow> aged (put_rec sid r s)"
  by (simp add: aged_def put_rec_def list_all_mput)

lemma aged_purge: "aged s \<Longrightarrow> aged (purgeLocked now s)"
  by (auto simp: aged_def purgeLocked_def list_all_iff)

lemma aged_rec: "aged s \<Longrightarrow> known s sid \<Longrightarrow> ssL s \<le> rcH (rec_of s sid)"
  by (fastforce simp: aged_def known_def list_all_iff rec_of_Some dest: map_of_SomeD)

lemma GDSPriority_ge: "L \<le> GDSPriority L r s"
  using GDSPriority_gt less_imp_le by blast

lemma aged_apply_sample: "aged s \<Longrightarrow> aged (apply_sample now x s)"
  using aged_rec [of s "sgSandboxID x"]
  by (auto simp: apply_sample_def Let_def known_def intro!: aged_put_rec GDSPriority_ge)

lemma aged_fold_samples: "aged s \<Longrightarrow> aged (fold (apply_sample now) xs s)"
  by (induction xs arbitrary: s) (simp_all add: aged_apply_sample)

lemma aged_worker_row: "aged s \<Longrightarrow> aged (apply_worker_row now p s)"
  by (simp add: aged_def)

lemma aged_step:
  assumes "aged s" "disciplined op s"
  shows "aged (sig_step op s) \<and> ssL s \<le> ssL (sig_step op s)"
proof (cases op)
  case (OpPush p now)
  then show ?thesis using assms
    by (simp add: ApplyPush_def aged_purge aged_fold_samples aged_worker_row)
next
  case (OpEvict sid)
  then show ?thesis using assms
    by (auto simp: OnEvict_def aged_def list_all_iff dest!: map_of_SomeD split: option.splits)
qed (use assms aged_rec in \<open>auto simp: sig_op_defs Let_def
      intro!: aged_purge aged_put_rec GDSPriority_ge\<close>)

lemma aged_run:
  "aged s \<Longrightarrow> disciplined_run ops s \<Longrightarrow>
   aged (fold sig_step ops s) \<and> ssL s \<le> ssL (fold sig_step ops s)"
proof (induction ops arbitrary: s)
  case Nil
  then show ?case by simp
next
  case (Cons op ops)
  then show ?case using aged_step [of s op] by fastforce
qed

section \<open>Properties\<close>


definition sample0 :: sandbox_signals where
  "sample0 = \<lparr>sgSandboxID = ''s1'', sgWorkerID = ''w1'', sgReportedAt = 5,
     sgRuntime = zero_runtime\<lparr>rtLastActiveAt := 5\<rparr>, sgSnapshot = zero_snapshot,
     sgSemantic = zero_semantic, sgKeepAliveH = 0, sgCPUUtil = 0, sgMemRSSBytes = 0,
     sgLastActiveAt = 0\<rparr>"

definition worker_row0 :: worker_resource where
  "worker_row0 = \<lparr>wrWorkerID = ''w1'', wrMaxSlots = 1, wrUsedSlots = 1, wrHealthy = True,
     wrCPUUtil = 0, wrMemUtil = 0, wrMemBytes = 0, wrReportedAt = 5\<rparr>"

definition push0 :: push where
  "push0 = \<lparr>puWorkerID = ''w1'', puWorker = worker_row0, puSamples = [sample0]\<rparr>"

lemma witness_push: "puSamples push0 = [sample0]" "sgSandboxID sample0 = ''s1''"
  by (simp_all add: push0_def sample0_def)

lemmas witness_data = sample0_def worker_row0_def push0_def zero_runtime_def zero_snapshot_def
  zero_semantic_def zero_record_def




text \<open>
  Only the scheduler's own marks write the platform clocks. A record that survives a worker push,
  a semantic heartbeat, a checkpoint or restore recording, or an eviction has the attained service,
  the wait and the two interval starts it had before (those of a new record if it is new).
\<close>

theorem unmarked_calls_keep_clocks:
  assumes "s = fold sig_step ops (NewStore ttl)" and "\<not> is_mark op"
    and "mget (ssBySandbox (sig_step op s)) sid = Some r"
  shows "rcAttainedServiceSec r = rcAttainedServiceSec (rec_of s sid)
       \<and> rcWaitSec r = rcWaitSec (rec_of s sid)
       \<and> rcRunningSince r = rcRunningSince (rec_of s sid)
       \<and> rcSuspendedSince r = rcSuspendedSince (rec_of s sid)"
proof -
  have "store_ok s" using assms(1) sig_run_ok store_ok_NewStore by simp
  from clocks_unmarked [OF this assms(2,3)] show ?thesis by (simp add: clocks_def)
qed

theorem unmarked_calls_keep_clocks_witness:
  "rcRunningSince (rec_of (sig_step (OpPush push0 5)
      (fold sig_step [OpRunning ''s1'' 4] (NewStore 10))) ''s1'') = 4"
proof -
  let ?s = "fold sig_step [OpRunning ''s1'' 4] (NewStore 10)"
  have "\<exists>r. mget (ssBySandbox (sig_step (OpPush push0 5) ?s)) ''s1'' = Some r"
    by (simp add: ApplyPush_def MarkRunning_def apply_sample_def apply_worker_row_def purgeLocked_def
        put_rec_def rec_of_def mget_or_def NewStore_def Let_def witness_data NormalizeLegacy_def
        go_time max_int64_def min_int64_def)
  then obtain r where r: "mget (ssBySandbox (sig_step (OpPush push0 5) ?s)) ''s1'' = Some r" ..
  from unmarked_calls_keep_clocks [OF refl _ r] have "rcRunningSince r = rcRunningSince (rec_of ?s ''s1'')"
    by simp
  also have "\<dots> = 4"
    by (simp add: MarkRunning_def rec_of_def mget_or_def NewStore_def Let_def put_rec_def
        zero_record_def IsZero_def)
  finally show ?thesis using rec_of_Some [OF r] by simp
qed

text \<open>
  C19: GreedyDual-Size aging. As long as heartbeats and marks come for sandboxes the store knows and
  every eviction takes a record of least priority, the clock \<open>L\<close> never goes back and no cached
  priority is below it, whatever pushes, checkpoints, restores and purges happen in between.
\<close>

theorem gds_clock_monotone:
  assumes "aged s" and "disciplined_run ops s"
  shows "GDClock s \<le> GDClock (fold sig_step ops s) \<and> aged (fold sig_step ops s)"
  using aged_run [OF assms] by (simp add: GDClock_def)

theorem gds_clock_monotone_witness:
  "GDClock (NewStore 10) \<le> GDClock (fold sig_step [OpPush push0 5, OpEvict ''s1''] (NewStore 10))"
  using gds_clock_monotone [of "NewStore 10" "[OpPush push0 5, OpEvict ''s1'']"]
  by (simp add: aged_def NewStore_def ApplyPush_def apply_sample_def apply_worker_row_def
      purgeLocked_def put_rec_def rec_of_def mget_or_def Let_def witness_data NormalizeLegacy_def
      go_time max_int64_def min_int64_def)

text \<open>
  C20: every refresh ranks a sandbox strictly above the clock: after a completed checkpoint is recorded,
  the sandbox is readable and its keep-alive priority exceeds \<open>L\<close>, by at most its
  re-materialisation cost, and the checkpoint is no longer in flight.
\<close>

theorem checkpoint_refreshes_priority:
  assumes "sid \<noteq> ''''" and "store_ok s"
  shows "\<exists>v. GetSandbox (RecordCheckpoint sid snap now s) sid now = Some v
       \<and> GDClock s < sgKeepAliveH v
       \<and> sgKeepAliveH v \<le> GDClock s + GDSCost (sgSnapshot v)
       \<and> \<not> snCheckpointInProgress (sgSnapshot v)"
proof -
  have "time_Sub now now \<le> ssTTL s"
    using assms(2) by (simp add: store_ok_def go_time min_int64_def max_int64_def)
  then show ?thesis using assms
    by (auto simp: RecordCheckpoint_def Let_def GetSandbox_def purge_sandbox toSandboxSignals_def
        GDClock_def GDSPriority_gt GDSPriority_le)
qed

theorem checkpoint_refreshes_priority_witness:
  "\<exists>v. GetSandbox (RecordCheckpoint ''s1'' zero_snapshot 5 (NewStore 10)) ''s1'' 5 = Some v
     \<and> 0 < sgKeepAliveH v"
  using checkpoint_refreshes_priority [of "''s1''" "NewStore 10" zero_snapshot 5]
  by (auto simp: store_ok_NewStore GDClock_def)

text \<open>
  The clock can go back. Evicting a sandbox whose record came from a semantic heartbeat alone (its
  resource record expired, or its worker has not pushed yet) sets \<open>L\<close> to 0, however far the clock
  had advanced: the record's priority was never refreshed.
\<close>

theorem semantic_only_victim_resets_clock:
  assumes "sid \<noteq> ''''" and "store_ok s" and "\<not> known s sid"
  shows "GDClock (OnEvict sid (ApplySemantic \<lparr>spSandboxID = sid, spSemantic = sem\<rparr> now s)) = 0"
proof -
  have "time_Sub now now \<le> ssTTL s"
    using assms(2) by (simp add: store_ok_def go_time min_int64_def max_int64_def)
  then show ?thesis using assms
    by (simp add: ApplySemantic_def OnEvict_def Let_def purge_sandbox GDClock_def known_def
        rec_of_def mget_or_def zero_record_def)
qed

theorem semantic_only_victim_resets_clock_witness:
  "GDClock ((NewStore 10)\<lparr>ssL := 7\<rparr>) = 7 \<and>
   GDClock (OnEvict ''s1'' (ApplySemantic \<lparr>spSandboxID = ''s1'', spSemantic = zero_semantic\<rparr> 5
     ((NewStore 10)\<lparr>ssL := 7\<rparr>))) = 0"
proof
  show "GDClock ((NewStore 10)\<lparr>ssL := 7\<rparr>) = 7" by (simp add: GDClock_def)
  have "store_ok ((NewStore 10)\<lparr>ssL := 7\<rparr>)" "\<not> known ((NewStore 10)\<lparr>ssL := 7\<rparr>) ''s1''"
    using store_ok_NewStore [of 10] by (simp_all add: store_ok_def known_def)
  from semantic_only_victim_resets_clock [OF _ this]
  show "GDClock (OnEvict ''s1'' (ApplySemantic \<lparr>spSandboxID = ''s1'', spSemantic = zero_semantic\<rparr> 5
     ((NewStore 10)\<lparr>ssL := 7\<rparr>))) = 0" by simp
qed

text \<open>
  A wait longer than the time to live is lost. A sandbox marked suspended gets no further touches;
  once its age exceeds the time to live, the next worker push that does not mention it deletes the
  record with the clocks in it, and the resume that ends the wait reports no wait and no service.
\<close>

theorem long_wait_is_forgotten:
  assumes "sid \<noteq> ''''" and "store_ok s" and "time_Sub now t > ssTTL s"
    and "sid \<notin> sgSandboxID ` set (puSamples p)"
    and "s' = MarkRunning sid now' (ApplyPush p now (MarkSuspended sid t s))"
  shows "wait_at (rec_of s' sid) now' = 0
       \<and> attained_at (rec_of s' sid) now' = dur_Seconds (time_Sub now' now')"
proof -
  let ?s1 = "MarkSuspended sid t s"
  let ?s2 = "fold (apply_sample now) (puSamples p) (apply_worker_row now p ?s1)"
  have other: "mget (ssBySandbox (fold (apply_sample now) xs u)) sid = mget (ssBySandbox u) sid"
    if "sid \<notin> sgSandboxID ` set xs" for xs u
    using that by (induction xs arbitrary: u) (auto simp: apply_sample_def Let_def)
  have upd: "\<exists>r. mget (ssBySandbox ?s1) sid = Some r \<and> rcUpdatedAt r = t"
    using assms(1) by (simp add: MarkSuspended_def Let_def)
  have "store_ok ?s1" using sig_step_ok [OF assms(2), of "OpSuspended sid t"] by simp
  then have ok: "store_ok ?s2" by simp
  have "ssTTL ?s2 = ssTTL s" using sig_step_ttl [of "OpSuspended sid t" s] by simp
  then have "mget (ssBySandbox (ApplyPush p now ?s1)) sid = None"
    using upd ok other [OF assms(4)] assms(3) by (auto simp: ApplyPush_def purge_sandbox)
  then have "rec_of (ApplyPush p now ?s1) sid = zero_record"
    by (simp add: rec_of_def mget_or_def)
  then show ?thesis using assms(1,5)
    by (auto simp: MarkRunning_def Let_def zero_record_def wait_at_def attained_at_def go_time
        min_int64_def max_int64_def)
qed

theorem long_wait_is_forgotten_witness:
  "wait_at (rec_of (MarkRunning ''s2'' 60 (ApplyPush push0 50 (MarkSuspended ''s2'' 1 (NewStore 10))))
     ''s2'') 60 = 0"
  using long_wait_is_forgotten [of "''s2''" "NewStore 10" 50 1 push0 _ 60, OF _ _ _ _ refl]
  by (simp add: store_ok_NewStore witness_push go_time max_int64_def min_int64_def)

end
