(* ===== verification/Policy.thy ===== *)
theory Policy
  imports Types Signals
begin

text \<open>
  The parts that every scheduling policy of \<open>internal/policy\<close> shares: the requests and results of
  \<open>policy.go\<close>, the choice of an idle worker (\<open>place.go\<close>), the sticky resume (\<open>resume.go\<close>) and the
  two resource-based victim pickers (\<open>evict.go\<close>).

  The signal maps of a request can be nil in Go, so they are optional maps here.
\<close>

type_synonym sandbox_sigs = "(string, sandbox_signals) gomap option"
type_synonym worker_sigs = "(string, worker_resource) gomap option"

text \<open>A lookup that a nil map answers like an empty one.\<close>

definition sig_get :: "(string, 'v) gomap option \<Rightarrow> string \<Rightarrow> 'v option" where
  "sig_get m k = (case m of None \<Rightarrow> None | Some m \<Rightarrow> mget m k)"

section \<open>Requests and results\<close>

record place_request =
  prSandboxID :: string
  prWorkers :: "worker list"
  prRunning :: "sandbox list"
  prSandboxSignals :: sandbox_sigs
  prWorkerSignals :: worker_sigs

record place_result =
  plWorkerID :: string
  plVictimID :: string
  plReason :: string

record resume_request =
  rrSandbox :: sandbox
  rrWorkers :: "worker list"
  rrRunning :: "sandbox list"
  rrSandboxSignals :: sandbox_sigs
  rrWorkerSignals :: worker_sigs
  rrWaiting :: "sandbox list"
  rrWaitingSince :: "(string, gotime) gomap option"

section \<open>Idle workers\<close>

definition workerEligibleForPlace :: "worker \<Rightarrow> worker_sigs \<Rightarrow> bool" where
  "workerEligibleForPlace w workerSig =
     (if \<not> wkHealthy w \<or> FreeSlots w \<le> 0 then False
      else case workerSig of
        None \<Rightarrow> True
      | Some m \<Rightarrow> (case mget m (wkID w) of None \<Rightarrow> True | Some sig \<Rightarrow> wrHealthy sig))"

text \<open>The first running sandbox on the worker decides; the others are not looked at.\<close>

fun workerHostingCheckpoint :: "string \<Rightarrow> sandbox list \<Rightarrow> sandbox_sigs \<Rightarrow> bool" where
  "workerHostingCheckpoint workerID [] sandboxSig = False"
| "workerHostingCheckpoint workerID (sb # running) sandboxSig =
     (if sbWorkerID sb \<noteq> workerID then workerHostingCheckpoint workerID running sandboxSig
      else case sandboxSig of
        None \<Rightarrow> False
      | Some m \<Rightarrow>
          (case mget m (sbID sb) of
             None \<Rightarrow> False
           | Some sig \<Rightarrow> snCheckpointInProgress (sgSnapshot sig)))"

definition workerLoadScore :: "worker \<Rightarrow> worker_sigs \<Rightarrow> real" where
  "workerLoadScore w workerSig =
     (case workerSig of
        None \<Rightarrow> 0
      | Some m \<Rightarrow> (case mget m (wkID w) of
          None \<Rightarrow> 0
        | Some sig \<Rightarrow> wrCPUUtil sig + wrMemUtil sig))"

text \<open>The comparison \<open>sortWorkersByLoad\<close> hands to \<open>sort.Slice\<close>.\<close>

definition worker_less ::
    "worker_sigs \<Rightarrow> sandbox list \<Rightarrow> sandbox_sigs \<Rightarrow> worker \<Rightarrow> worker \<Rightarrow> bool" where
  "worker_less workerSig running sandboxSig wi wj =
     (let busyI = workerHostingCheckpoint (wkID wi) running sandboxSig;
          busyJ = workerHostingCheckpoint (wkID wj) running sandboxSig
      in if busyI \<noteq> busyJ then \<not> busyI
         else
           let li = workerLoadScore wi workerSig; lj = workerLoadScore wj workerSig
           in if li \<noteq> lj then li < lj
              else if wkRegisteredAt wi = wkRegisteredAt wj then wkID wi < wkID wj
              else wkRegisteredAt wi < wkRegisteredAt wj)"

definition sortWorkersByLoad ::
    "worker list \<Rightarrow> worker_sigs \<Rightarrow> sandbox list \<Rightarrow> sandbox_sigs \<Rightarrow> worker list" where
  "sortWorkersByLoad workers workerSig running sandboxSig =
     sort_slice (worker_less workerSig running sandboxSig) workers"

definition pickIdleWorker ::
    "worker list \<Rightarrow> worker_sigs \<Rightarrow> sandbox list \<Rightarrow> sandbox_sigs \<Rightarrow> worker option" where
  "pickIdleWorker workers workerSig running sandboxSig =
     find (\<lambda>w. workerEligibleForPlace w workerSig
             \<and> \<not> workerHostingCheckpoint (wkID w) running sandboxSig)
       (sortWorkersByLoad workers workerSig running sandboxSig)"

definition idleWorkerCandidates ::
    "worker list \<Rightarrow> worker_sigs \<Rightarrow> sandbox list \<Rightarrow> sandbox_sigs \<Rightarrow> worker list" where
  "idleWorkerCandidates workers workerSig running sandboxSig =
     filter (\<lambda>w. workerEligibleForPlace w workerSig
               \<and> \<not> workerHostingCheckpoint (wkID w) running sandboxSig) workers"

section \<open>Sticky resume\<close>

definition tryStickyResume :: "resume_request \<Rightarrow> string \<Rightarrow> place_result option" where
  "tryStickyResume req reason =
     (if sbWorkerID (rrSandbox req) = '''' then None
      else case find (\<lambda>w. wkID w = sbWorkerID (rrSandbox req)) (rrWorkers req) of
        None \<Rightarrow> None
      | Some w \<Rightarrow>
          if \<not> workerEligibleForPlace w (rrWorkerSignals req) then None
          else if workerHostingCheckpoint (wkID w) (rrRunning req) (rrSandboxSignals req) then None
          else Some \<lparr>plWorkerID = wkID w, plVictimID = '''', plReason = reason\<rparr>)"

definition placeFromResume :: "resume_request \<Rightarrow> place_request" where
  "placeFromResume req =
     \<lparr>prSandboxID = sbID (rrSandbox req), prWorkers = rrWorkers req, prRunning = rrRunning req,
      prSandboxSignals = rrSandboxSignals req, prWorkerSignals = rrWorkerSignals req\<rparr>"

section \<open>Victims by idleness and by keep-alive priority\<close>

definition runtimeIdle :: "sandbox \<Rightarrow> sandbox_sigs \<Rightarrow> gotime \<Rightarrow> duration" where
  "runtimeIdle sb sandboxSig now =
     (let fallback = (if \<not> IsZero (sbUpdatedAt sb) then time_Sub now (sbUpdatedAt sb)
                      else time_Sub now (sbCreatedAt sb))
      in case sig_get sandboxSig (sbID sb) of
           None \<Rightarrow> fallback
         | Some sig \<Rightarrow>
             if \<not> IsZero (rtLastActiveAt (sgRuntime sig))
             then time_Sub now (rtLastActiveAt (sgRuntime sig))
             else if \<not> IsZero (sgLastActiveAt sig) then time_Sub now (sgLastActiveAt sig)
             else fallback)"

text \<open>
  \<open>pickLRUVictim\<close> and \<open>pickGDSVictim\<close> index \<open>running[0]\<close>, which panics on an empty slice: \<open>None\<close>.
  Their callers check for that first.
\<close>

definition lru_better :: "sandbox_sigs \<Rightarrow> gotime \<Rightarrow> sandbox \<Rightarrow> sandbox \<Rightarrow> bool" where
  "lru_better sandboxSig now sb best =
     (runtimeIdle sb sandboxSig now > runtimeIdle best sandboxSig now
      \<or> runtimeIdle sb sandboxSig now = runtimeIdle best sandboxSig now
        \<and> sbCreatedAt sb < sbCreatedAt best)"

definition pickLRUVictim :: "sandbox list \<Rightarrow> sandbox_sigs \<Rightarrow> gotime \<Rightarrow> sandbox option" where
  "pickLRUVictim running sandboxSig now =
     (case running of [] \<Rightarrow> None | sb # sbs \<Rightarrow> Some (best_scan (lru_better sandboxSig now) sb sbs))"

text \<open>A keep-alive priority: a float, or the \<open>math.Inf(1)\<close> of a sandbox in mid-checkpoint.\<close>

datatype keep_alive = Fin real | PosInf

instantiation keep_alive :: linorder
begin

fun less_keep_alive :: "keep_alive \<Rightarrow> keep_alive \<Rightarrow> bool" where
  "less_keep_alive (Fin x) (Fin y) \<longleftrightarrow> x < y"
| "less_keep_alive (Fin x) PosInf \<longleftrightarrow> True"
| "less_keep_alive PosInf k \<longleftrightarrow> False"

definition less_eq_keep_alive :: "keep_alive \<Rightarrow> keep_alive \<Rightarrow> bool" where
  "less_eq_keep_alive k l \<longleftrightarrow> k = l \<or> k < l"

instance
proof
  fix x y z :: keep_alive
  show "x < y \<longleftrightarrow> x \<le> y \<and> \<not> y \<le> x"
    by (cases x; cases y) (auto simp: less_eq_keep_alive_def)
  show "x \<le> x" by (simp add: less_eq_keep_alive_def)
  show "x \<le> z" if "x \<le> y" "y \<le> z"
    using that by (cases x; cases y; cases z) (auto simp: less_eq_keep_alive_def)
  show "x = y" if "x \<le> y" "y \<le> x"
    using that by (cases x; cases y) (auto simp: less_eq_keep_alive_def)
  show "x \<le> y \<or> y \<le> x"
    by (cases x; cases y) (auto simp: less_eq_keep_alive_def)
qed

end

definition keepAliveH :: "sandbox \<Rightarrow> sandbox_sigs \<Rightarrow> keep_alive" where
  "keepAliveH sb sandboxSig =
     (case sig_get sandboxSig (sbID sb) of
        None \<Rightarrow> Fin (GDSPriority 0 zero_runtime zero_snapshot)
      | Some sig \<Rightarrow>
          if snCheckpointInProgress (sgSnapshot sig) then PosInf
          else if sgKeepAliveH sig \<noteq> 0 then Fin (sgKeepAliveH sig)
          else Fin (GDSPriority 0 (sgRuntime sig) (sgSnapshot sig)))"

definition gds_better :: "sandbox_sigs \<Rightarrow> sandbox \<Rightarrow> sandbox \<Rightarrow> bool" where
  "gds_better sandboxSig sb best =
     (keepAliveH sb sandboxSig < keepAliveH best sandboxSig
      \<or> keepAliveH sb sandboxSig = keepAliveH best sandboxSig
        \<and> sbCreatedAt sb < sbCreatedAt best)"

definition pickGDSVictim :: "sandbox list \<Rightarrow> sandbox_sigs \<Rightarrow> sandbox option" where
  "pickGDSVictim running sandboxSig =
     (case running of [] \<Rightarrow> None | sb # sbs \<Rightarrow> Some (best_scan (gds_better sandboxSig) sb sbs))"

section \<open>The orders behind the choices\<close>

lemma worker_less_keys:
  "worker_less ws running ss =
     then_by (\<lambda>w. workerHostingCheckpoint (wkID w) running ss)
       (then_by (\<lambda>w. workerLoadScore w ws) (then_by wkRegisteredAt (by_key wkID)))"
  by (intro ext) (auto simp: worker_less_def then_by_def by_key_def Let_def)

lemma lru_better_keys:
  "lru_better ss now = then_by (\<lambda>sb. - runtimeIdle sb ss now) (by_key sbCreatedAt)"
  by (intro ext) (auto simp: lru_better_def then_by_def by_key_def)

lemma gds_better_keys:
  "gds_better ss = then_by (\<lambda>sb. keepAliveH sb ss) (by_key sbCreatedAt)"
  by (intro ext) (auto simp: gds_better_def then_by_def by_key_def)

interpretation worker_order: weak_order "worker_less ws running ss" for ws running ss
  unfolding worker_less_keys by (intro weak_order_then_by key_order.weak_order_axioms)

interpretation lru_order: weak_order "lru_better ss now" for ss now
  unfolding lru_better_keys by (intro weak_order_then_by key_order.weak_order_axioms)

interpretation gds_order: weak_order "gds_better ss" for ss
  unfolding gds_better_keys by (intro weak_order_then_by key_order.weak_order_axioms)

section \<open>Facts about the choices\<close>

text \<open>The worker is idle and takes part in the placement.\<close>

definition idle_for :: "place_request \<Rightarrow> worker \<Rightarrow> bool" where
  "idle_for req w \<longleftrightarrow> w \<in> set (prWorkers req)
     \<and> workerEligibleForPlace w (prWorkerSignals req)
     \<and> \<not> workerHostingCheckpoint (wkID w) (prRunning req) (prSandboxSignals req)"

lemma idleWorkerCandidates_set:
  "set (idleWorkerCandidates (prWorkers req) (prWorkerSignals req) (prRunning req)
     (prSandboxSignals req)) = {w. idle_for req w}"
  by (auto simp: idleWorkerCandidates_def idle_for_def)

lemma find_first: "find P xs = Some x \<Longrightarrow> x \<in> set xs \<and> P x"
  by (induction xs) (auto split: if_splits)

lemma find_sorted_least:
  "sorted_wrt (\<lambda>a b. \<not> lt b a) xs \<Longrightarrow> find P xs = Some x \<Longrightarrow> y \<in> set xs \<Longrightarrow> P y \<Longrightarrow> y \<noteq> x \<Longrightarrow>
   \<not> lt y x"
  by (induction xs) (auto split: if_splits)

lemma pickIdleWorker_Some:
  assumes "pickIdleWorker (prWorkers req) (prWorkerSignals req) (prRunning req)
    (prSandboxSignals req) = Some w"
  shows "idle_for req w"
    and "idle_for req w' \<Longrightarrow> \<not> worker_less (prWorkerSignals req) (prRunning req) (prSandboxSignals req) w' w"
proof -
  let ?lt = "worker_less (prWorkerSignals req) (prRunning req) (prSandboxSignals req)"
  show "idle_for req w"
    using find_first [OF assms [unfolded pickIdleWorker_def sortWorkersByLoad_def]]
    by (simp add: idle_for_def)
  show "\<not> ?lt w' w" if "idle_for req w'"
  proof (cases "w' = w")
    case True
    then show ?thesis using worker_order.lt_irrefl by simp
  next
    case False
    then show ?thesis using that
      by (intro find_sorted_least
          [OF worker_order.sort_slice_sorted assms [unfolded pickIdleWorker_def sortWorkersByLoad_def]])
        (auto simp: idle_for_def)
  qed
qed

lemma pickIdleWorker_None:
  "pickIdleWorker (prWorkers req) (prWorkerSignals req) (prRunning req) (prSandboxSignals req) = None
   \<longleftrightarrow> (\<nexists>w. idle_for req w)"
  by (auto simp: pickIdleWorker_def sortWorkersByLoad_def find_None_iff idle_for_def)

lemma idle_for_free: "idle_for req w \<Longrightarrow> wkHealthy w \<and> 0 < FreeSlots w"
  by (auto simp: idle_for_def workerEligibleForPlace_def split: if_splits)

lemma tryStickyResume_Some:
  assumes "tryStickyResume req reason = Some res"
  shows "plVictimID res = '''' \<and> plWorkerID res = sbWorkerID (rrSandbox req)
       \<and> (\<exists>w. idle_for (placeFromResume req) w \<and> wkID w = plWorkerID res)"
  using assms
  by (auto simp: tryStickyResume_def idle_for_def placeFromResume_def
      dest!: find_first split: if_splits option.splits)

lemma placeFromResume_sel [simp]:
  "prSandboxID (placeFromResume req) = sbID (rrSandbox req)"
  "prWorkers (placeFromResume req) = rrWorkers req"
  "prRunning (placeFromResume req) = rrRunning req"
  "prSandboxSignals (placeFromResume req) = rrSandboxSignals req"
  "prWorkerSignals (placeFromResume req) = rrWorkerSignals req"
  by (simp_all add: placeFromResume_def)

lemma pickLRUVictim_Some:
  assumes "pickLRUVictim running ss now = Some v"
  shows "v \<in> set running" and "sb \<in> set running \<Longrightarrow> \<not> lru_better ss now sb v"
  using assms best_scan_mem [of "lru_better ss now"] lru_order.best_scan_best
  by (auto simp: pickLRUVictim_def split: list.splits)

lemma pickGDSVictim_Some:
  assumes "pickGDSVictim running ss = Some v"
  shows "v \<in> set running" and "sb \<in> set running \<Longrightarrow> \<not> gds_better ss sb v"
  using assms best_scan_mem [of "gds_better ss"] gds_order.best_scan_best
  by (auto simp: pickGDSVictim_def split: list.splits)

lemma pick_victims_total:
  "running \<noteq> [] \<Longrightarrow> \<exists>v. pickLRUVictim running ss now = Some v"
  "running \<noteq> [] \<Longrightarrow> \<exists>v. pickGDSVictim running ss = Some v"
  by (auto simp: pickLRUVictim_def pickGDSVictim_def split: list.splits)

section \<open>The contract of a policy\<close>

text \<open>
  What the scheduler relies on, whatever policy it was started with. A placement has a random draw
  (used by one policy), the reading of the clock and the request as arguments.

  \<^item> An idle worker is used before anything is evicted, and the worker named is one of them.
  \<^item> An eviction happens only when no worker is idle, the victim is one of the running sandboxes,
    and the worker is the one the victim frees.
  \<^item> There is no error while a worker is idle, and every error is one the scheduler retries.

  \<open>retryable\<close> is the scheduler's test of an error; the running sandboxes have identifiers, as an
  empty victim means "no victim".
\<close>

definition identified :: "sandbox list \<Rightarrow> bool" where
  "identified running \<longleftrightarrow> (\<forall>sb\<in>set running. sbID sb \<noteq> '''')"

locale policy_contract =
  fixes place :: "nat \<Rightarrow> gotime \<Rightarrow> place_request \<Rightarrow> place_result result"
    and retryable :: "go_error \<Rightarrow> bool"
  assumes place_idle:
      "place r now req = Inr res \<Longrightarrow> plVictimID res = '''' \<Longrightarrow> identified (prRunning req) \<Longrightarrow>
       \<exists>w. idle_for req w \<and> wkID w = plWorkerID res"
    and place_evict:
      "place r now req = Inr res \<Longrightarrow> plVictimID res \<noteq> '''' \<Longrightarrow>
       (\<nexists>w. idle_for req w)
       \<and> (\<exists>sb\<in>set (prRunning req). sbID sb = plVictimID res \<and> sbWorkerID sb = plWorkerID res)"
    and place_error: "place r now req = Inl e \<Longrightarrow> (\<nexists>w. idle_for req w) \<and> retryable e"
begin

lemma place_prefers_idle:
  assumes "idle_for req w"
  obtains res where "place r now req = Inr res" "plVictimID res = ''''"
proof (cases "place r now req")
  case (Inl e)
  then show thesis using place_error [OF Inl] assms by blast
next
  case (Inr res)
  then show thesis using place_evict [OF Inr] assms that by blast
qed

lemma place_worker_source:
  assumes "place r now req = Inr res" "identified (prRunning req)"
  shows "(\<exists>w\<in>set (prWorkers req). wkID w = plWorkerID res)
       \<or> (\<exists>sb\<in>set (prRunning req). sbWorkerID sb = plWorkerID res)"
  using place_idle [OF assms(1) _ assms(2)] place_evict [OF assms(1)] by (auto simp: idle_for_def)

lemma place_free_slot:
  assumes "place r now req = Inr res" "plVictimID res = ''''" "identified (prRunning req)"
  obtains w where "w \<in> set (prWorkers req)" "wkID w = plWorkerID res" "wkHealthy w" "0 < FreeSlots w"
  using place_idle [OF assms] idle_for_free by (auto simp: idle_for_def)

end

text \<open>
  A policy with its \<open>Resume\<close>: it succeeds on the sandbox's own idle worker without a victim, or by a
  placement, and its only further error is the one that says the caller is not first in line. The
  two clock readings are those of the ranking and of the placement.
\<close>

locale resume_contract = policy_contract +
  fixes resume :: "nat \<Rightarrow> gotime \<Rightarrow> gotime \<Rightarrow> resume_request \<Rightarrow> place_result result"
  assumes resume_cases:
      "resume r now now' req = Inr res \<Longrightarrow>
         (\<exists>reason. tryStickyResume req reason = Some res)
         \<or> place r now' (placeFromResume req) = Inr res"
    and resume_error:
      "resume r now now' req = Inl e \<Longrightarrow>
         e = ErrNotBestWaiter \<or> place r now' (placeFromResume req) = Inl e"
    and not_best_retryable: "retryable ErrNotBestWaiter"
begin

lemma resume_idle:
  assumes "resume r now now' req = Inr res" "plVictimID res = ''''" "identified (rrRunning req)"
  shows "\<exists>w. idle_for (placeFromResume req) w \<and> wkID w = plWorkerID res"
  using resume_cases [OF assms(1)] place_idle [of r now' "placeFromResume req" res] assms(2,3)
    tryStickyResume_Some [of req _ res] by auto

lemma resume_evict:
  assumes "resume r now now' req = Inr res" "plVictimID res \<noteq> ''''"
  shows "(\<nexists>w. idle_for (placeFromResume req) w)
       \<and> (\<exists>sb\<in>set (rrRunning req). sbID sb = plVictimID res \<and> sbWorkerID sb = plWorkerID res)"
  using resume_cases [OF assms(1)] place_evict [of r now' "placeFromResume req" res] assms(2)
    tryStickyResume_Some [of req _ res] by auto

lemma resume_error_retryable: "resume r now now' req = Inl e \<Longrightarrow> retryable e"
  using resume_error place_error not_best_retryable by blast

end

end
