(* ===== verification/BasicPolicies.thy ===== *)
theory BasicPolicies
  imports Policy
begin

text \<open>
  The four policies that do not look at agent semantics: \<open>fifo\<close>, \<open>random\<close>, \<open>lru-idle\<close> and
  \<open>resource-evict\<close>. Each places on an idle worker when there is one and otherwise names a victim.

  \<open>Random\<close> draws with \<open>rng.Intn(n)\<close>: the draw is the argument \<open>r\<close> reduced modulo \<open>n\<close>, so that the
  statements for every \<open>r\<close> cover every outcome of the generator.
\<close>

section \<open>Retryable errors\<close>

text \<open>\<open>resumeRetryable\<close> of the scheduler, which decides by the sentinels and by two message texts.\<close>

definition resumeRetryable :: "go_error option \<Rightarrow> bool" where
  "resumeRetryable err =
     (case err of
        None \<Rightarrow> False
      | Some e \<Rightarrow>
          if errors_Is e ErrAllSemanticLocked \<or> errors_Is e ErrNotBestWaiter then True
          else strings_Contains (err_Error e) ''nothing to suspend''
               \<or> strings_Contains (err_Error e) ''busy (checkpoint)'')"

definition retryable :: "go_error \<Rightarrow> bool" where
  "retryable e \<longleftrightarrow> resumeRetryable (Some e)"

lemma retryable_nothing: "retryable (Errorf (pre @ ''nothing to suspend'' @ post))"
  using strings_Contains_mid [of pre "''nothing to suspend''" post]
  by (simp add: retryable_def resumeRetryable_def)

lemma retryable_busy: "retryable (Errorf (pre @ ''busy (checkpoint)'' @ post))"
  using strings_Contains_mid [of pre "''busy (checkpoint)''" post]
  by (simp add: retryable_def resumeRetryable_def)

lemma retryable_sentinels: "retryable ErrAllSemanticLocked" "retryable ErrNotBestWaiter"
  by (simp_all add: retryable_def resumeRetryable_def)

lemma retryable_wrap: "retryable e \<Longrightarrow> retryable (Wrap pre e post)"
  by (auto simp: retryable_def resumeRetryable_def intro: strings_Contains_append split: if_splits)

section \<open>FIFO\<close>

definition fifo_less :: "sandbox \<Rightarrow> sandbox \<Rightarrow> bool" where
  "fifo_less a b =
     (if sbCreatedAt a = sbCreatedAt b then sbID a < sbID b else sbCreatedAt a < sbCreatedAt b)"

definition FIFO_Place :: "nat \<Rightarrow> gotime \<Rightarrow> place_request \<Rightarrow> place_result result" where
  "FIFO_Place r now req =
     (case pickIdleWorker (prWorkers req) (prWorkerSignals req) (prRunning req)
             (prSandboxSignals req) of
        Some w \<Rightarrow> Inr \<lparr>plWorkerID = wkID w, plVictimID = '''',
                       plReason = ''fifo: idle worker (load-aware tie-break)''\<rparr>
      | None \<Rightarrow>
          if prRunning req = [] then Inl (Errorf ''fifo: no capacity and nothing to suspend'')
          else
            let victim = hd (sort_slice fifo_less (prRunning req))
            in Inr \<lparr>plWorkerID = sbWorkerID victim, plVictimID = sbID victim,
                    plReason = ''fifo: suspend oldest to free its worker''\<rparr>)"

definition FIFO_Resume ::
    "nat \<Rightarrow> gotime \<Rightarrow> gotime \<Rightarrow> resume_request \<Rightarrow> place_result result" where
  "FIFO_Resume r now now' req =
     (case tryStickyResume req ''fifo: sticky resume to last idle worker'' of
        Some res \<Rightarrow> Inr res
      | None \<Rightarrow> FIFO_Place r now' (placeFromResume req))"

section \<open>Random\<close>

definition Random_Place :: "nat \<Rightarrow> gotime \<Rightarrow> place_request \<Rightarrow> place_result result" where
  "Random_Place r now req =
     (let candidates = idleWorkerCandidates (prWorkers req) (prWorkerSignals req)
                         (prRunning req) (prSandboxSignals req)
      in if length candidates > 0 then
           let w = candidates ! (r mod length candidates)
           in Inr \<lparr>plWorkerID = wkID w, plVictimID = '''', plReason = ''random free worker''\<rparr>
         else if prRunning req = [] \<or> prWorkers req = [] then
           Inl (Errorf ''random: no capacity and nothing to suspend'')
         else
           let victim = prRunning req ! (r mod length (prRunning req))
           in Inr \<lparr>plWorkerID = sbWorkerID victim, plVictimID = sbID victim,
                   plReason = ''random eviction to free its worker''\<rparr>)"

definition Random_Resume ::
    "nat \<Rightarrow> gotime \<Rightarrow> gotime \<Rightarrow> resume_request \<Rightarrow> place_result result" where
  "Random_Resume r now now' req =
     (case tryStickyResume req ''random: sticky resume to last idle worker'' of
        Some res \<Rightarrow> Inr res
      | None \<Rightarrow> Random_Place r now' (placeFromResume req))"

section \<open>LRU by idleness\<close>

definition LRUIdle_Place :: "nat \<Rightarrow> gotime \<Rightarrow> place_request \<Rightarrow> place_result result" where
  "LRUIdle_Place r now req =
     (case pickIdleWorker (prWorkers req) (prWorkerSignals req) (prRunning req)
             (prSandboxSignals req) of
        Some w \<Rightarrow> Inr \<lparr>plWorkerID = wkID w, plVictimID = '''',
                       plReason = ''lru-idle: idle worker (load-aware tie-break)''\<rparr>
      | None \<Rightarrow>
          (case pickLRUVictim (prRunning req) (prSandboxSignals req) now of
             None \<Rightarrow> Inl (Errorf ''lru-idle: no capacity and nothing to suspend'')
           | Some victim \<Rightarrow>
               Inr \<lparr>plWorkerID = sbWorkerID victim, plVictimID = sbID victim,
                    plReason = ''lru-idle: suspend longest runtime-idle sandbox''\<rparr>))"

definition LRUIdle_Resume ::
    "nat \<Rightarrow> gotime \<Rightarrow> gotime \<Rightarrow> resume_request \<Rightarrow> place_result result" where
  "LRUIdle_Resume r now now' req =
     (case tryStickyResume req ''lru-idle: sticky resume to last idle worker'' of
        Some res \<Rightarrow> Inr res
      | None \<Rightarrow> LRUIdle_Place r now' (placeFromResume req))"

section \<open>Resource-based eviction\<close>

definition ResourceEvict_Place :: "nat \<Rightarrow> gotime \<Rightarrow> place_request \<Rightarrow> place_result result" where
  "ResourceEvict_Place r now req =
     (case pickIdleWorker (prWorkers req) (prWorkerSignals req) (prRunning req)
             (prSandboxSignals req) of
        Some w \<Rightarrow> Inr \<lparr>plWorkerID = wkID w, plVictimID = '''',
                       plReason = ''resource-evict: least-loaded idle worker''\<rparr>
      | None \<Rightarrow>
          (case pickGDSVictim (prRunning req) (prSandboxSignals req) of
             None \<Rightarrow> Inl (Errorf ''resource-evict: no capacity and nothing to suspend'')
           | Some victim \<Rightarrow>
               Inr \<lparr>plWorkerID = sbWorkerID victim, plVictimID = sbID victim,
                    plReason = ''resource-evict: suspend lowest GreedyDual-Size keep-alive H''\<rparr>))"

definition ResourceEvict_Resume ::
    "nat \<Rightarrow> gotime \<Rightarrow> gotime \<Rightarrow> resume_request \<Rightarrow> place_result result" where
  "ResourceEvict_Resume r now now' req =
     (case tryStickyResume req ''resource-evict: sticky resume to last idle worker'' of
        Some res \<Rightarrow> Inr res
      | None \<Rightarrow> ResourceEvict_Place r now' (placeFromResume req))"

section \<open>Each of them keeps the contract\<close>

lemma fifo_less_keys: "fifo_less = then_by sbCreatedAt (by_key sbID)"
  by (intro ext) (auto simp: fifo_less_def then_by_def by_key_def)

interpretation fifo_order: weak_order fifo_less
  unfolding fifo_less_keys by (intro weak_order_then_by key_order.weak_order_axioms)

lemma fifo_victim:
  assumes "running \<noteq> []"
  shows "hd (sort_slice fifo_less running) \<in> set running"
    and "sb \<in> set running \<Longrightarrow> \<not> fifo_less sb (hd (sort_slice fifo_less running))"
proof -
  have "sort_slice fifo_less running \<noteq> []" using assms by (metis length_sort_slice length_0_conv)
  then obtain v vs where v: "sort_slice fifo_less running = v # vs" by (cases "sort_slice fifo_less running") auto
  then show "hd (sort_slice fifo_less running) \<in> set running"
    by (metis list.sel(1) list.set_intros(1) set_sort_slice)
  show "\<not> fifo_less sb (hd (sort_slice fifo_less running))" if "sb \<in> set running"
    using fifo_order.sort_slice_hd_best [OF v that] v by simp
qed

lemma no_capacity_retryable:
  "retryable (Errorf ''fifo: no capacity and nothing to suspend'')"
  "retryable (Errorf ''random: no capacity and nothing to suspend'')"
  "retryable (Errorf ''lru-idle: no capacity and nothing to suspend'')"
  "retryable (Errorf ''resource-evict: no capacity and nothing to suspend'')"
  "retryable (Errorf ''semantic-score: no capacity and nothing to suspend'')"
  using retryable_nothing [of "''fifo: no capacity and ''" "''''"]
    retryable_nothing [of "''random: no capacity and ''" "''''"]
    retryable_nothing [of "''lru-idle: no capacity and ''" "''''"]
    retryable_nothing [of "''resource-evict: no capacity and ''" "''''"]
    retryable_nothing [of "''semantic-score: no capacity and ''" "''''"] by simp_all

text \<open>The shape three of them share: an idle worker, or a victim some picker names.\<close>

lemma place_shape_contract:
  fixes place :: "nat \<Rightarrow> gotime \<Rightarrow> place_request \<Rightarrow> place_result result"
  assumes place: "\<And>r now req. place r now req =
      (case pickIdleWorker (prWorkers req) (prWorkerSignals req) (prRunning req)
              (prSandboxSignals req) of
         Some w \<Rightarrow> Inr \<lparr>plWorkerID = wkID w, plVictimID = '''', plReason = why\<rparr>
       | None \<Rightarrow> evict now req)"
    and evict: "\<And>now req res. evict now req = Inr res \<Longrightarrow>
      \<exists>v\<in>set (prRunning req). plWorkerID res = sbWorkerID v \<and> plVictimID res = sbID v"
    and err: "\<And>now req e. evict now req = Inl e \<Longrightarrow> retryable e"
  shows "policy_contract place retryable"
proof
  fix r now e and req :: place_request and res :: place_result
  show "\<exists>w. idle_for req w \<and> wkID w = plWorkerID res"
    if "place r now req = Inr res" "plVictimID res = ''''" "identified (prRunning req)"
    using that evict [of now req res]
    by (auto simp: place identified_def dest!: pickIdleWorker_Some(1) split: option.splits)
  show "(\<nexists>w. idle_for req w)
      \<and> (\<exists>sb\<in>set (prRunning req). sbID sb = plVictimID res \<and> sbWorkerID sb = plWorkerID res)"
    if "place r now req = Inr res" "plVictimID res \<noteq> ''''"
    using that evict [of now req res] pickIdleWorker_None [of req]
    by (auto simp: place split: option.splits)
  show "(\<nexists>w. idle_for req w) \<and> retryable e" if "place r now req = Inl e"
    using that err [of now req e] pickIdleWorker_None [of req]
    by (auto simp: place split: option.splits)
qed

lemma resume_shape_contract:
  fixes resume :: "nat \<Rightarrow> gotime \<Rightarrow> gotime \<Rightarrow> resume_request \<Rightarrow> place_result result"
  assumes "policy_contract place retryable"
    and "\<And>r now now' req. resume r now now' req =
      (case tryStickyResume req why of Some res \<Rightarrow> Inr res | None \<Rightarrow> place r now' (placeFromResume req))"
  shows "resume_contract place retryable resume"
  using assms(1)
  by (intro resume_contract.intro resume_contract_axioms.intro)
    (auto simp: assms(2) retryable_sentinels split: option.splits)

interpretation fifo: resume_contract FIFO_Place retryable FIFO_Resume
proof (rule resume_shape_contract [OF place_shape_contract])
  show "\<exists>v\<in>set (prRunning req). plWorkerID res = sbWorkerID v \<and> plVictimID res = sbID v"
    if "(if prRunning req = [] then Inl (Errorf ''fifo: no capacity and nothing to suspend'')
         else let victim = hd (sort_slice fifo_less (prRunning req))
              in Inr \<lparr>plWorkerID = sbWorkerID victim, plVictimID = sbID victim,
                      plReason = ''fifo: suspend oldest to free its worker''\<rparr>) = Inr res"
    for now :: gotime and req :: place_request and res
    using that fifo_victim(1) [of "prRunning req"] by (auto simp: Let_def split: if_splits)
qed (auto simp: FIFO_Place_def FIFO_Resume_def no_capacity_retryable Let_def split: if_splits)

interpretation lru: resume_contract LRUIdle_Place retryable LRUIdle_Resume
  by (rule resume_shape_contract [OF place_shape_contract], rule LRUIdle_Place_def)
    (auto simp: LRUIdle_Resume_def no_capacity_retryable
      dest: pickLRUVictim_Some(1) split: option.splits)

interpretation resource: resume_contract ResourceEvict_Place retryable ResourceEvict_Resume
  by (rule resume_shape_contract [OF place_shape_contract], rule ResourceEvict_Place_def)
    (auto simp: ResourceEvict_Resume_def no_capacity_retryable
      dest: pickGDSVictim_Some(1) split: option.splits)

lemma random_contract: "policy_contract Random_Place retryable"
proof
  fix r now e and req :: place_request and res :: place_result
  let ?c = "idleWorkerCandidates (prWorkers req) (prWorkerSignals req) (prRunning req)
    (prSandboxSignals req)"
  have c: "?c = [] \<longleftrightarrow> (\<nexists>w. idle_for req w)"
    using idleWorkerCandidates_set [of req] by (auto simp flip: set_empty)
  have pick: "?c \<noteq> [] \<Longrightarrow> idle_for req (?c ! (r mod length ?c))"
    using idleWorkerCandidates_set [of req] nth_mem [of "r mod length ?c" ?c] by auto
  have victim: "xs \<noteq> [] \<Longrightarrow> xs ! (r mod length xs) \<in> set xs" for xs :: "sandbox list"
    by simp
  show "\<exists>w. idle_for req w \<and> wkID w = plWorkerID res"
    if "Random_Place r now req = Inr res" "plVictimID res = ''''" "identified (prRunning req)"
    using that pick victim [of "prRunning req"]
    by (auto simp: Random_Place_def Let_def identified_def split: if_splits)
  show "(\<nexists>w. idle_for req w)
      \<and> (\<exists>sb\<in>set (prRunning req). sbID sb = plVictimID res \<and> sbWorkerID sb = plWorkerID res)"
    if "Random_Place r now req = Inr res" "plVictimID res \<noteq> ''''"
    using that c victim [of "prRunning req"]
    by (auto simp: Random_Place_def Let_def split: if_splits)
  show "(\<nexists>w. idle_for req w) \<and> retryable e" if "Random_Place r now req = Inl e"
    using that c by (auto simp: Random_Place_def Let_def no_capacity_retryable split: if_splits)
qed

interpretation random: resume_contract Random_Place retryable Random_Resume
  by (rule resume_shape_contract [OF random_contract]) (simp add: Random_Resume_def)

end
