(* ===== verification/SemanticScore.thy ===== *)
theory SemanticScore
  imports BasicPolicies
begin

text \<open>
  The agent-semantic policy of \<open>internal/policy/semantic_score.go\<close>: the score of a session
  (\<open>keepScore\<close>), the choice of a victim behind the phase-lock filter, and the single-knocker ranking of
  the sandboxes blocked in \<open>Resume\<close>.

  The policy reads the clock through \<open>p.Now\<close>; the reading is the argument \<open>now\<close>.
  \<open>strconv.ParseFloat\<close> of the environment variables is the parameter \<open>parseFloat\<close>.
\<close>

section \<open>Configuration\<close>

record semantic_score =
  scWL :: real
  scWU :: real
  scWF :: real
  scWC :: real
  scWQ :: real
  scOverride :: bool
  scPriorMix :: real
  scEmbedAlpha :: real

type_synonym environ = "string \<Rightarrow> string"

definition envFloat :: "(string \<Rightarrow> real option) \<Rightarrow> environ \<Rightarrow> string \<Rightarrow> real \<Rightarrow> real" where
  "envFloat parseFloat env k def =
     (let v = env k
      in if v = '''' then def
         else case parseFloat v of None \<Rightarrow> def | Some f \<Rightarrow> f)"

definition strconv_ParseBool :: "string \<Rightarrow> bool option" where
  "strconv_ParseBool s =
     (if s \<in> {''1'', ''t'', ''T'', ''TRUE'', ''true'', ''True''} then Some True
      else if s \<in> {''0'', ''f'', ''F'', ''FALSE'', ''false'', ''False''} then Some False
      else None)"

definition envBool :: "environ \<Rightarrow> string \<Rightarrow> bool \<Rightarrow> bool" where
  "envBool env k def =
     (let v = env k
      in if v = '''' then def
         else case strconv_ParseBool v of None \<Rightarrow> def | Some b \<Rightarrow> b)"

definition NewSemanticScore :: "(string \<Rightarrow> real option) \<Rightarrow> environ \<Rightarrow> semantic_score" where
  "NewSemanticScore parseFloat env =
     \<lparr>scWL = envFloat parseFloat env ''SEMANTIC_W_L'' 3,
      scWU = envFloat parseFloat env ''SEMANTIC_W_U'' 2,
      scWF = envFloat parseFloat env ''SEMANTIC_W_F'' 2,
      scWC = envFloat parseFloat env ''SEMANTIC_W_C'' 1,
      scWQ = envFloat parseFloat env ''SEMANTIC_W_Q'' 2,
      scOverride = envBool env ''SEMANTIC_OVERRIDE'' False,
      scPriorMix = envFloat parseFloat env ''SEMANTIC_PRIOR_MIX'' (3/10),
      scEmbedAlpha = envFloat parseFloat env ''SEMANTIC_EMBED_ALPHA'' (2/10)\<rparr>"

section \<open>The terms of the score\<close>

definition clamp01 :: "real \<Rightarrow> real" where
  "clamp01 x = (if x < 0 then 0 else if x > 1 then 1 else x)"

definition phaseProtect :: "semantic_resource \<Rightarrow> real" where
  "phaseProtect sem =
     (if smLock sem \<or> smPhase sem = PhaseToolLoop then 1
      else if smPhase sem = PhaseLLMWait then 2/10
      else if smPhase sem = PhaseIdle then 0
      else 5/10)"

definition urgencyOnline :: "semantic_resource \<Rightarrow> gotime \<Rightarrow> real" where
  "urgencyOnline sem now =
     (case smDeadline sem of
        None \<Rightarrow> 0
      | Some d \<Rightarrow>
          if IsZero d then 0
          else
            let sec = dur_Seconds (time_Sub d now);
                sec = (if sec < 0 then 0 else sec)
            in 1 / (1 + sec))"

definition urgencyPrior :: "semantic_resource \<Rightarrow> real \<Rightarrow> real" where
  "urgencyPrior sem embedAlpha =
     (case smTaskProfile sem of
        None \<Rightarrow> 0
      | Some tp \<Rightarrow>
          let complexity = (case tpComplexitySignal tp of
                              None \<Rightarrow> 0 | Some c \<Rightarrow> clamp01 (5/10 + c));
              sim = clamp01 (tpEmbeddingSim tp);
              embedAlpha = (if embedAlpha < 0 then 0 else embedAlpha)
          in clamp01 (complexity + embedAlpha * sim))"

definition urgency :: "semantic_resource \<Rightarrow> real \<Rightarrow> real \<Rightarrow> gotime \<Rightarrow> real" where
  "urgency sem priorMix embedAlpha now =
     (let online = urgencyOnline sem now;
          prior = urgencyPrior sem embedAlpha;
          conf = (case smTaskProfile sem of None \<Rightarrow> 0 | Some tp \<Rightarrow> tpConfidence tp)
      in if prior \<le> 0 then online
         else if conf < 3/10 then online
         else if online \<le> 0 then prior
         else
           let priorMix = (if priorMix < 0 then 0 else priorMix);
               priorMix = (if priorMix > 1 then 1 else priorMix)
           in (1 - priorMix) * online + priorMix * prior)"

definition fairness :: "semantic_resource \<Rightarrow> real" where
  "fairness sem =
     (let att = (if smAttainedServiceSec sem < 0 then 0 else smAttainedServiceSec sem);
          wait = (if smWaitSec sem < 0 then 0 else smWaitSec sem);
          r = wait / (1 + att)
      in 1 - 1 / (1 + r))"

definition preemptHRef :: real where "preemptHRef = 1000000"

text \<open>\<open>math.Log1p(h)\<close> is \<open>ln (1 + h)\<close>. The test for infinity has no case here: \<open>h\<close> is a real.\<close>

definition normalizePreempt :: "real \<Rightarrow> real" where
  "normalizePreempt h =
     (if h \<le> 0 then 0 else clamp01 (ln (1 + h) / ln (1 + preemptHRef)))"

definition preempt_h :: "sandbox \<Rightarrow> sandbox_sigs \<Rightarrow> real" where
  "preempt_h sb sandboxSig =
     (let h = (case sig_get sandboxSig (sbID sb) of
                 None \<Rightarrow> 0
               | Some sig \<Rightarrow>
                   if sgKeepAliveH sig = 0 then GDSPriority 0 (sgRuntime sig) (sgSnapshot sig)
                   else sgKeepAliveH sig)
      in if h = 0 then 1 else h)"

definition semantic_of :: "sandbox \<Rightarrow> sandbox_sigs \<Rightarrow> semantic_resource" where
  "semantic_of sb sandboxSig =
     (case sig_get sandboxSig (sbID sb) of None \<Rightarrow> zero_semantic | Some sig \<Rightarrow> sgSemantic sig)"

definition keepScore :: "sandbox \<Rightarrow> sandbox_sigs \<Rightarrow> semantic_score \<Rightarrow> gotime \<Rightarrow> real" where
  "keepScore sb sandboxSig p now =
     (let sem = semantic_of sb sandboxSig; h = preempt_h sb sandboxSig
      in scWL p * phaseProtect sem +
         scWU p * urgency sem (scPriorMix p) (scEmbedAlpha p) now +
         scWF p * fairness sem +
         scWC p * normalizePreempt h)"

section \<open>The victim\<close>

definition semanticLocked :: "sandbox \<Rightarrow> sandbox_sigs \<Rightarrow> bool" where
  "semanticLocked sb sandboxSig =
     (case sig_get sandboxSig (sbID sb) of
        None \<Rightarrow> False
      | Some sig \<Rightarrow> smLock (sgSemantic sig) \<or> smPhase (sgSemantic sig) = PhaseToolLoop)"

definition in_checkpoint :: "sandbox \<Rightarrow> sandbox_sigs \<Rightarrow> bool" where
  "in_checkpoint sb sandboxSig =
     (case sig_get sandboxSig (sbID sb) of
        None \<Rightarrow> False
      | Some sig \<Rightarrow> snCheckpointInProgress (sgSnapshot sig))"

definition semantic_better ::
    "sandbox_sigs \<Rightarrow> semantic_score \<Rightarrow> gotime \<Rightarrow> sandbox \<Rightarrow> sandbox \<Rightarrow> bool" where
  "semantic_better sandboxSig p now sb best =
     (keepScore sb sandboxSig p now < keepScore best sandboxSig p now
      \<or> keepScore sb sandboxSig p now = keepScore best sandboxSig p now
        \<and> sbCreatedAt sb < sbCreatedAt best)"

definition pickSemanticVictim ::
    "sandbox list \<Rightarrow> sandbox_sigs \<Rightarrow> semantic_score \<Rightarrow> gotime \<Rightarrow> (sandbox \<times> string) result" where
  "pickSemanticVictim running sandboxSig p now =
     (let candidates = filter (\<lambda>sb. \<not> in_checkpoint sb sandboxSig) running
      in if candidates = [] then
           Inl (Errorf ''semantic-score: all running sandboxes busy (checkpoint)'')
         else
           let unlocked = filter (\<lambda>sb. \<not> semanticLocked sb sandboxSig) candidates
           in if unlocked = [] \<and> \<not> scOverride p then Inl ErrAllSemanticLocked
              else
                let pool = (if unlocked = [] then candidates else unlocked);
                    reason = (if unlocked = []
                              then ''semantic-score: suspend lowest keepScore (semantic-override)''
                              else ''semantic-score: suspend lowest keepScore (unlocked)'')
                in Inr (best_scan (semantic_better sandboxSig p now) (hd pool) (tl pool), reason))"

section \<open>The ranking of waiters\<close>

definition queueAging :: "real \<Rightarrow> real" where
  "queueAging sec = sec / 60"

definition admitScore ::
    "sandbox \<Rightarrow> sandbox_sigs \<Rightarrow> semantic_score \<Rightarrow> gotime \<Rightarrow> (string, gotime) gomap option \<Rightarrow> real" where
  "admitScore sb sandboxSig p now waitingSince =
     (let queueSec = (case sig_get waitingSince (sbID sb) of
                        None \<Rightarrow> 0
                      | Some t \<Rightarrow>
                          if IsZero t then 0
                          else
                            let q = dur_Seconds (time_Sub now t) in if q < 0 then 0 else q)
      in keepScore sb sandboxSig p now + scWQ p * queueAging queueSec)"

text \<open>The test in the loop of \<open>RequireBestWaiter\<close>: \<open>other\<close> comes before \<open>me\<close>.\<close>

definition outranks ::
    "sandbox_sigs \<Rightarrow> semantic_score \<Rightarrow> gotime \<Rightarrow> (string, gotime) gomap option \<Rightarrow>
     sandbox \<Rightarrow> sandbox \<Rightarrow> bool" where
  "outranks sandboxSig p now since other me =
     (let sc = admitScore other sandboxSig p now since; mine = admitScore me sandboxSig p now since
      in sc > mine
         \<or> sc = mine \<and> (sbCreatedAt other < sbCreatedAt me
                       \<or> sbCreatedAt other = sbCreatedAt me \<and> sbID other < sbID me))"

definition RequireBestWaiter ::
    "semantic_score \<Rightarrow> gotime \<Rightarrow> resume_request \<Rightarrow> go_error option" where
  "RequireBestWaiter p now req =
     (if list_ex (\<lambda>other. \<not> (sbID other = '''' \<or> sbID other = sbID (rrSandbox req))
            \<and> outranks (rrSandboxSignals req) p now (rrWaitingSince req) other (rrSandbox req))
          (rrWaiting req)
      then Some ErrNotBestWaiter else None)"

section \<open>Place and Resume\<close>

definition SemanticScore_Place ::
    "semantic_score \<Rightarrow> nat \<Rightarrow> gotime \<Rightarrow> place_request \<Rightarrow> place_result result" where
  "SemanticScore_Place p r now req =
     (case pickIdleWorker (prWorkers req) (prWorkerSignals req) (prRunning req)
             (prSandboxSignals req) of
        Some w \<Rightarrow> Inr \<lparr>plWorkerID = wkID w, plVictimID = '''',
                       plReason = ''semantic-score: least-loaded idle worker''\<rparr>
      | None \<Rightarrow>
          if prRunning req = []
          then Inl (Errorf ''semantic-score: no capacity and nothing to suspend'')
          else case pickSemanticVictim (prRunning req) (prSandboxSignals req) p now of
                 Inl e \<Rightarrow> Inl e
               | Inr (victim, reason) \<Rightarrow>
                   Inr \<lparr>plWorkerID = sbWorkerID victim, plVictimID = sbID victim,
                        plReason = reason\<rparr>)"

definition SemanticScore_Resume ::
    "semantic_score \<Rightarrow> nat \<Rightarrow> gotime \<Rightarrow> gotime \<Rightarrow> resume_request \<Rightarrow> place_result result" where
  "SemanticScore_Resume p r now now' req =
     (case RequireBestWaiter p now req of
        Some e \<Rightarrow> Inl e
      | None \<Rightarrow>
          (case tryStickyResume req ''semantic-score: sticky resume to last idle worker'' of
             Some res \<Rightarrow> Inr res
           | None \<Rightarrow> SemanticScore_Place p r now' (placeFromResume req)))"

section \<open>Bounds of the score\<close>

lemma clamp01_range: "0 \<le> clamp01 x \<and> clamp01 x \<le> 1"
  by (simp add: clamp01_def)

lemma clamp01_mono: "x \<le> y \<Longrightarrow> clamp01 x \<le> clamp01 y"
  by (simp add: clamp01_def)

lemma phaseProtect_range: "0 \<le> phaseProtect sem \<and> phaseProtect sem \<le> 1"
  by (simp add: phaseProtect_def)

lemma urgencyOnline_range: "0 \<le> urgencyOnline sem now \<and> urgencyOnline sem now \<le> 1"
  by (auto simp: urgencyOnline_def Let_def split: option.splits)

lemma urgencyPrior_range: "0 \<le> urgencyPrior sem a \<and> urgencyPrior sem a \<le> 1"
  using clamp01_range by (auto simp: urgencyPrior_def Let_def split: option.splits)

lemma mix_range:
  fixes m x y :: real
  assumes "0 \<le> m" "m \<le> 1" "0 \<le> x" "x \<le> 1" "0 \<le> y" "y \<le> 1"
  shows "0 \<le> (1 - m) * x + m * y \<and> (1 - m) * x + m * y \<le> 1"
proof
  show "0 \<le> (1 - m) * x + m * y" using assms by simp
  have "(1 - m) * x \<le> 1 - m" "m * y \<le> m"
    using assms by (simp_all add: mult_left_le)
  then show "(1 - m) * x + m * y \<le> 1" by simp
qed

lemma urgency_range: "0 \<le> urgency sem m a now \<and> urgency sem m a now \<le> 1"
proof -
  let ?m = "if (if m < 0 then 0 else m) > 1 then 1 else (if m < 0 then 0 else m)"
  have "0 \<le> ?m" "?m \<le> 1" by auto
  then show ?thesis
    using urgencyOnline_range [of sem now] urgencyPrior_range [of sem a]
      mix_range [of ?m "urgencyOnline sem now" "urgencyPrior sem a"]
    unfolding urgency_def Let_def by presburger
qed

lemma fairness_range: "0 \<le> fairness sem \<and> fairness sem < 1"
proof -
  define att where "att = (if smAttainedServiceSec sem < 0 then 0 else smAttainedServiceSec sem)"
  define wait where "wait = (if smWaitSec sem < 0 then 0 else smWaitSec sem)"
  have "0 \<le> wait / (1 + att)" by (simp add: att_def wait_def)
  then have "0 < 1 / (1 + wait / (1 + att))" "1 / (1 + wait / (1 + att)) \<le> 1" by simp_all
  then show ?thesis by (simp add: fairness_def Let_def flip: att_def wait_def)
qed

lemma normalizePreempt_range: "0 \<le> normalizePreempt h \<and> normalizePreempt h \<le> 1"
  using clamp01_range by (simp add: normalizePreempt_def)

lemma normalizePreempt_mono: "h \<le> h' \<Longrightarrow> normalizePreempt h \<le> normalizePreempt h'"
  using clamp01_range
  by (auto simp: normalizePreempt_def preemptHRef_def intro!: clamp01_mono divide_right_mono)

definition weights_ok :: "semantic_score \<Rightarrow> bool" where
  "weights_ok p \<longleftrightarrow> 0 \<le> scWL p \<and> 0 \<le> scWU p \<and> 0 \<le> scWF p \<and> 0 \<le> scWC p"

definition weight_sum :: "semantic_score \<Rightarrow> real" where
  "weight_sum p = scWL p + scWU p + scWF p + scWC p"

lemma scaled_range:
  fixes w x :: real
  shows "0 \<le> w \<Longrightarrow> 0 \<le> x \<and> x \<le> 1 \<Longrightarrow> 0 \<le> w * x \<and> w * x \<le> w"
  by (simp add: mult_left_le)

lemma keepScore_range:
  assumes "weights_ok p"
  shows "0 \<le> keepScore sb ss p now \<and> keepScore sb ss p now \<le> weight_sum p"
proof -
  let ?sem = "semantic_of sb ss"
  have "0 \<le> scWL p" "0 \<le> scWU p" "0 \<le> scWF p" "0 \<le> scWC p"
    using assms by (simp_all add: weights_ok_def)
  note b = scaled_range [OF this(1) phaseProtect_range [of ?sem]]
    scaled_range [OF this(2) urgency_range [of ?sem "scPriorMix p" "scEmbedAlpha p" now]]
    scaled_range [OF this(3), of "fairness ?sem"]
    scaled_range [OF this(4) normalizePreempt_range [of "preempt_h sb ss"]]
  show ?thesis using b fairness_range [of ?sem]
    unfolding keepScore_def weight_sum_def Let_def by linarith
qed

section \<open>The order of victims and the order of waiters\<close>

lemma semantic_better_keys:
  "semantic_better ss p now = then_by (\<lambda>sb. keepScore sb ss p now) (by_key sbCreatedAt)"
  by (intro ext) (auto simp: semantic_better_def then_by_def by_key_def)

lemma outranks_keys:
  "outranks ss p now since =
     then_by (\<lambda>sb. - admitScore sb ss p now since) (then_by sbCreatedAt (by_key sbID))"
  by (intro ext) (auto simp: outranks_def then_by_def by_key_def Let_def)

interpretation semantic_order: weak_order "semantic_better ss p now" for ss p now
  unfolding semantic_better_keys by (intro weak_order_then_by key_order.weak_order_axioms)

interpretation waiter_order: weak_order "outranks ss p now since" for ss p now since
  unfolding outranks_keys by (intro weak_order_then_by key_order.weak_order_axioms)

lemma outranks_total:
  "sbID a \<noteq> sbID b \<Longrightarrow> outranks ss p now since a b \<or> outranks ss p now since b a"
  by (auto simp: outranks_def Let_def)

lemma RequireBestWaiter_None:
  "RequireBestWaiter p now req = None \<longleftrightarrow>
   (\<forall>other\<in>set (rrWaiting req). sbID other \<noteq> '''' \<longrightarrow> sbID other \<noteq> sbID (rrSandbox req) \<longrightarrow>
      \<not> outranks (rrSandboxSignals req) p now (rrWaitingSince req) other (rrSandbox req))"
  by (auto simp: RequireBestWaiter_def list_ex_iff)

lemma RequireBestWaiter_error: "RequireBestWaiter p now req = Some e \<Longrightarrow> e = ErrNotBestWaiter"
  by (simp add: RequireBestWaiter_def split: if_splits)

section \<open>The contract\<close>

lemma pickSemanticVictim_cases:
  assumes "pickSemanticVictim running ss p now = Inr (v, reason)"
  obtains pool where "pool \<noteq> []" "v \<in> set pool"
    "\<forall>sb\<in>set pool. \<not> semantic_better ss p now sb v"
    "set pool = {sb \<in> set running. \<not> in_checkpoint sb ss
       \<and> (semanticLocked sb ss \<longrightarrow> (\<forall>sb'\<in>set running. in_checkpoint sb' ss \<or> semanticLocked sb' ss))}"
    "(\<forall>sb\<in>set pool. semanticLocked sb ss) \<longrightarrow> scOverride p"
proof -
  define c where "c = filter (\<lambda>sb. \<not> in_checkpoint sb ss) running"
  define u where "u = filter (\<lambda>sb. \<not> semanticLocked sb ss) c"
  define pool where "pool = (if u = [] then c else u)"
  let ?lt = "semantic_better ss p now"
  have pick: "pickSemanticVictim running ss p now =
    (if c = [] then Inl (Errorf ''semantic-score: all running sandboxes busy (checkpoint)'')
     else if u = [] \<and> \<not> scOverride p then Inl ErrAllSemanticLocked
     else Inr (best_scan ?lt (hd pool) (tl pool),
       if u = [] then ''semantic-score: suspend lowest keepScore (semantic-override)''
       else ''semantic-score: suspend lowest keepScore (unlocked)''))"
    by (simp only: pickSemanticVictim_def Let_def flip: c_def u_def pool_def)
  have cases: "c \<noteq> []" "u = [] \<longrightarrow> scOverride p" "v = best_scan ?lt (hd pool) (tl pool)"
    using assms by (simp_all add: pick split: if_splits)
  then have ne: "pool \<noteq> []" by (simp add: pool_def)
  then have ht: "insert (hd pool) (set (tl pool)) = set pool"
    by (metis list.collapse list.simps(15))
  have u_empty: "u = [] \<longleftrightarrow> (\<forall>sb'\<in>set running. in_checkpoint sb' ss \<or> semanticLocked sb' ss)"
    by (auto simp: u_def c_def filter_empty_conv)
  show thesis
  proof (rule that [OF ne])
    show "v \<in> set pool"
      using best_scan_mem [of ?lt "hd pool" "tl pool"] by (simp only: cases(3) ht)
    show "\<forall>sb\<in>set pool. \<not> ?lt sb v"
      unfolding cases(3) by (intro ballI semantic_order.best_scan_best) (simp only: ht)
    show "set pool = {sb \<in> set running. \<not> in_checkpoint sb ss
       \<and> (semanticLocked sb ss \<longrightarrow> (\<forall>sb'\<in>set running. in_checkpoint sb' ss \<or> semanticLocked sb' ss))}"
      by (cases "u = []") (auto simp: pool_def u_empty [symmetric], auto simp: u_def c_def)
    show "(\<forall>sb\<in>set pool. semanticLocked sb ss) \<longrightarrow> scOverride p"
    proof (cases "u = []")
      case False
      then obtain x where "x \<in> set u" by (cases u) auto
      then show ?thesis using False by (auto simp: pool_def u_def)
    qed (use cases in simp)
  qed
qed

lemma pickSemanticVictim_mem:
  "pickSemanticVictim running ss p now = Inr (v, reason) \<Longrightarrow> v \<in> set running"
  by (erule pickSemanticVictim_cases) auto

lemma pickSemanticVictim_error:
  "pickSemanticVictim running ss p now = Inl e \<longleftrightarrow>
     (\<forall>sb\<in>set running. in_checkpoint sb ss)
       \<and> e = Errorf ''semantic-score: all running sandboxes busy (checkpoint)''
     \<or> (\<exists>sb\<in>set running. \<not> in_checkpoint sb ss)
       \<and> (\<forall>sb\<in>set running. \<not> in_checkpoint sb ss \<longrightarrow> semanticLocked sb ss)
       \<and> \<not> scOverride p \<and> e = ErrAllSemanticLocked"
proof -
  define c where "c = filter (\<lambda>sb. \<not> in_checkpoint sb ss) running"
  define u where "u = filter (\<lambda>sb. \<not> semanticLocked sb ss) c"
  have "pickSemanticVictim running ss p now = Inl e \<longleftrightarrow>
      c = [] \<and> e = Errorf ''semantic-score: all running sandboxes busy (checkpoint)''
      \<or> c \<noteq> [] \<and> u = [] \<and> \<not> scOverride p \<and> e = ErrAllSemanticLocked"
    unfolding pickSemanticVictim_def Let_def c_def [symmetric] u_def [symmetric] by auto
  moreover have "c = [] \<longleftrightarrow> (\<forall>sb\<in>set running. in_checkpoint sb ss)"
    by (simp add: c_def filter_empty_conv)
  moreover have "u = [] \<longleftrightarrow> (\<forall>sb\<in>set running. \<not> in_checkpoint sb ss \<longrightarrow> semanticLocked sb ss)"
    by (auto simp: u_def c_def filter_empty_conv)
  ultimately show ?thesis by auto
qed

lemma pickSemanticVictim_retryable:
  "pickSemanticVictim running ss p now = Inl e \<Longrightarrow> retryable e"
  using retryable_sentinels(1)
    retryable_busy [of "''semantic-score: all running sandboxes ''" "''''"]
  unfolding pickSemanticVictim_error by (elim disjE conjE) simp_all

lemma semantic_place_contract: "policy_contract (SemanticScore_Place p) retryable"
proof (rule place_shape_contract, rule SemanticScore_Place_def)
  fix now res e and req :: place_request
  let ?evict = "if prRunning req = []
          then Inl (Errorf ''semantic-score: no capacity and nothing to suspend'')
          else case pickSemanticVictim (prRunning req) (prSandboxSignals req) p now of
                 Inl e \<Rightarrow> Inl e
               | Inr (victim, reason) \<Rightarrow>
                   Inr \<lparr>plWorkerID = sbWorkerID victim, plVictimID = sbID victim,
                        plReason = reason\<rparr>"
  show "\<exists>v\<in>set (prRunning req). plWorkerID res = sbWorkerID v \<and> plVictimID res = sbID v"
    if "?evict = Inr res"
    using that by (auto dest!: pickSemanticVictim_mem split: if_splits sum.splits prod.splits)
  show "retryable e" if "?evict = Inl e"
  proof (cases "prRunning req = []")
    case True
    then show ?thesis using that no_capacity_retryable(5) by simp
  next
    case False
    then have "pickSemanticVictim (prRunning req) (prSandboxSignals req) p now = Inl e"
      using that by (simp split: sum.splits prod.splits)
    then show ?thesis by (rule pickSemanticVictim_retryable)
  qed
qed

interpretation semantic: resume_contract "SemanticScore_Place p" retryable "SemanticScore_Resume p" for p
  by (intro resume_contract.intro resume_contract_axioms.intro semantic_place_contract)
    (auto simp: SemanticScore_Resume_def retryable_sentinels
      dest: RequireBestWaiter_error split: option.splits)

section \<open>Properties\<close>

text \<open>
  The score of a session is bounded: with weights that are not negative it lies between 0 and their
  sum (8 with the default weights), whatever the signals say, and the queue term of the ranking adds
  at most \<open>WQ\<close> for each minute of waiting.
\<close>

theorem scores_bounded:
  assumes "weights_ok p" and "0 \<le> scWQ p" and "mget since (sbID sb) = Some t" and "t \<le> now"
  shows "0 \<le> keepScore sb ss p now
       \<and> keepScore sb ss p now \<le> admitScore sb ss p now (Some since)
       \<and> admitScore sb ss p now (Some since)
           \<le> weight_sum p + scWQ p * (dur_Seconds (time_Sub now t) / 60)"
proof -
  have "0 \<le> dur_Seconds (time_Sub now t)" using time_Sub_nonneg [OF assms(4)] by simp
  then have "0 \<le> scWQ p * (dur_Seconds (time_Sub now t) / 60)" using assms(2) by simp
  moreover have "admitScore sb ss p now (Some since) = keepScore sb ss p now
      \<or> admitScore sb ss p now (Some since)
        = keepScore sb ss p now + scWQ p * (dur_Seconds (time_Sub now t) / 60)"
    using assms(3) \<open>0 \<le> dur_Seconds _\<close>
    by (simp add: admitScore_def queueAging_def sig_get_def Let_def)
  ultimately show ?thesis using keepScore_range [OF assms(1), of sb ss now] by auto
qed

definition default_score :: semantic_score where
  "default_score = NewSemanticScore (\<lambda>_. None) (\<lambda>_. '''')"

lemma default_score_simps [simp]:
  "scWL default_score = 3" "scWU default_score = 2" "scWF default_score = 2"
  "scWC default_score = 1" "scWQ default_score = 2" "scOverride default_score = False"
  by (simp_all add: default_score_def NewSemanticScore_def envFloat_def envBool_def)

lemma default_weights: "weights_ok default_score" "weight_sum default_score = 8"
  by (simp_all add: weights_ok_def weight_sum_def)

definition session0 :: "string \<Rightarrow> string \<Rightarrow> gotime \<Rightarrow> sandbox" where
  "session0 sid wid t = zero_sandbox\<lparr>sbID := sid, sbWorkerID := wid, sbState := SandboxRunning,
     sbCreatedAt := t\<rparr>"

lemma session0_simps [simp]:
  "sbID (session0 sid wid t) = sid" "sbWorkerID (session0 sid wid t) = wid"
  "sbCreatedAt (session0 sid wid t) = t"
  by (simp_all add: session0_def zero_sandbox_def)

theorem scores_bounded_witness:
  "admitScore (session0 ''a'' ''w'' 1) None default_score (120 * second) (Some [(''a'', 0)]) \<le> 8 + 2 * 2"
  using scores_bounded [OF default_weights(1), of "[(''a'', 0)]" "session0 ''a'' ''w'' 1" 0
      "120 * second" None]
  by (simp add: default_weights second_def time_Sub_def dur_Seconds_def min_int64_def max_int64_def)

text \<open>
  C12: single knocker. Among the sandboxes blocked in \<open>Resume\<close>, however many they are and whatever their
  signals, exactly one passes \<open>RequireBestWaiter\<close> at an instant; so the lobby always has a sandbox
  whose turn it is, and never two.
\<close>

theorem unique_knocker:
  assumes "rrWaiting req \<noteq> []" and "distinct (map sbID (rrWaiting req))"
    and "identified (rrWaiting req)"
  shows "\<exists>!me. me \<in> set (rrWaiting req)
           \<and> RequireBestWaiter p now (req\<lparr>rrSandbox := me\<rparr>) = None"
proof -
  let ?lt = "outranks (rrSandboxSignals req) p now (rrWaitingSince req)"
  obtain w ws where w: "rrWaiting req = w # ws" using assms(1) by (cases "rrWaiting req") auto
  let ?best = "best_scan ?lt w ws"
  have mem: "?best \<in> set (rrWaiting req)" using best_scan_mem [of ?lt w ws] by (simp add: w)
  have best: "\<not> ?lt other ?best" if "other \<in> set (rrWaiting req)" for other
    using waiter_order.best_scan_best that by (simp add: w)
  have ids: "x = y" if "x \<in> set (rrWaiting req)" "y \<in> set (rrWaiting req)" "sbID x = sbID y" for x y
    using that assms(2) by (auto simp: distinct_map dest: inj_onD)
  have other: "sbID x = sbID y" if "x \<in> set (rrWaiting req)" "y \<in> set (rrWaiting req)"
      "\<not> ?lt x y" "\<not> ?lt y x" for x y
    using outranks_total that by blast
  have "me = ?best" if "me \<in> set (rrWaiting req)"
      "RequireBestWaiter p now (req\<lparr>rrSandbox := me\<rparr>) = None" for me
  proof (cases "sbID me = sbID ?best")
    case True
    then show ?thesis using ids that(1) mem by blast
  next
    case False
    moreover have "\<not> ?lt ?best me"
      using that mem assms(3) False by (auto simp: RequireBestWaiter_None identified_def)
    ultimately show ?thesis using other [OF that(1) mem] best [OF that(1)] by blast
  qed
  moreover have "RequireBestWaiter p now (req\<lparr>rrSandbox := ?best\<rparr>) = None"
    using best by (simp add: RequireBestWaiter_None)
  ultimately show ?thesis using mem by blast
qed

definition lobby0 :: "(string, gotime) gomap \<Rightarrow> resume_request" where
  "lobby0 since = \<lparr>rrSandbox = session0 ''b'' '''' 2, rrWorkers = [], rrRunning = [],
     rrSandboxSignals = None, rrWorkerSignals = None,
     rrWaiting = [session0 ''a'' '''' 2, session0 ''b'' '''' 2], rrWaitingSince = Some since\<rparr>"

theorem unique_knocker_witness:
  "\<exists>!me. me \<in> set (rrWaiting (lobby0 []))
     \<and> RequireBestWaiter default_score 9 ((lobby0 [])\<lparr>rrSandbox := me\<rparr>) = None"
  using unique_knocker [of "lobby0 []" default_score 9] by (simp add: lobby0_def identified_def)

text \<open>
  C13: no starvation in the lobby. A waiter that has been queued longer than a competitor by more than
  \<open>60 * (WL + WU + WF + WC) / WQ\<close> seconds goes first, whatever the semantic signals, deadlines and
  priorities of the two: the competitor is turned away with \<open>ErrNotBestWaiter\<close> for as long as the
  first one waits. With the default weights the gap is 240 seconds.
\<close>

theorem aged_waiter_goes_first:
  assumes "weights_ok p" and "0 < scWQ p" and "a \<in> set (rrWaiting req)" and "sbID a \<noteq> ''''"
    and "sbID a \<noteq> sbID (rrSandbox req)" and "rrWaitingSince req = Some since"
    and "mget since (sbID a) = Some ta" and "mget since (sbID (rrSandbox req)) = Some tb"
    and "0 < ta" and "ta \<le> tb" and "tb \<le> now" and "now - ta \<le> max_int64"
    and gap: "60 * weight_sum p / scWQ p < dur_Seconds (tb - ta)"
  shows "RequireBestWaiter p now req = Some ErrNotBestWaiter"
proof -
  let ?ss = "rrSandboxSignals req" and ?b = "rrSandbox req"
  have sub: "time_Sub now ta = now - ta" "time_Sub now tb = now - tb"
    using assms(10-12) by (auto intro!: time_Sub_exact simp: in_int64_def min_int64_def)
  have "admitScore a ?ss p now (Some since)
      = keepScore a ?ss p now + scWQ p * (dur_Seconds (now - ta) / 60)"
    "admitScore ?b ?ss p now (Some since)
      = keepScore ?b ?ss p now + scWQ p * (dur_Seconds (now - tb) / 60)"
    using assms(7-11)
    by (simp_all add: admitScore_def sig_get_def IsZero_def sub queueAging_def Let_def
        dur_Seconds_def)
  moreover have "dur_Seconds (now - ta) = dur_Seconds (now - tb) + dur_Seconds (tb - ta)"
    using dur_Seconds_add [of "now - tb" "tb - ta"] by simp
  moreover have "weight_sum p < scWQ p * (dur_Seconds (tb - ta) / 60)"
    using gap assms(2) by (simp add: field_simps)
  ultimately have "admitScore ?b ?ss p now (Some since) < admitScore a ?ss p now (Some since)"
    using keepScore_range [OF assms(1), of a ?ss now] keepScore_range [OF assms(1), of ?b ?ss now]
    by (simp add: add_divide_distrib distrib_left)
  then have "outranks ?ss p now (Some since) a ?b" by (simp add: outranks_def Let_def)
  then show ?thesis using assms(3-6)
    by (auto simp: RequireBestWaiter_def list_ex_iff)
qed

theorem aged_waiter_goes_first_witness:
  "RequireBestWaiter default_score (900 * second)
     (lobby0 [(''a'', 1), (''b'', 300 * second)]) = Some ErrNotBestWaiter"
  using aged_waiter_goes_first [OF default_weights(1), of "session0 ''a'' '''' 2"
      "lobby0 [(''a'', 1), (''b'', 300 * second)]" _ 1 "300 * second" "900 * second"]
  by (simp add: lobby0_def default_weights second_def dur_Seconds_def max_int64_def)

text \<open>
  C14: the victim of the semantic policy. A session in mid-checkpoint is never chosen. A locked session
  (a tool loop, or an explicit lock) is chosen only under the override and only when every session
  that is not checkpointing is locked. Among the sessions that may be chosen the victim has the
  least \<open>keepScore\<close>, the oldest of those that tie.
\<close>

theorem semantic_victim_correct:
  assumes "SemanticScore_Place p r now req = Inr res" and "plVictimID res \<noteq> ''''"
  shows "\<exists>v\<in>set (prRunning req). sbID v = plVictimID res \<and> sbWorkerID v = plWorkerID res
     \<and> \<not> in_checkpoint v (prSandboxSignals req)
     \<and> (semanticLocked v (prSandboxSignals req) \<longrightarrow>
          scOverride p \<and> (\<forall>sb\<in>set (prRunning req).
             in_checkpoint sb (prSandboxSignals req) \<or> semanticLocked sb (prSandboxSignals req)))
     \<and> (\<forall>sb\<in>set (prRunning req).
          \<not> in_checkpoint sb (prSandboxSignals req) \<longrightarrow>
          (semanticLocked sb (prSandboxSignals req) \<longrightarrow> semanticLocked v (prSandboxSignals req)) \<longrightarrow>
          keepScore v (prSandboxSignals req) p now < keepScore sb (prSandboxSignals req) p now
          \<or> keepScore v (prSandboxSignals req) p now = keepScore sb (prSandboxSignals req) p now
            \<and> sbCreatedAt v \<le> sbCreatedAt sb)"
proof -
  let ?ss = "prSandboxSignals req"
  obtain v reason where pick: "pickSemanticVictim (prRunning req) ?ss p now = Inr (v, reason)"
      and ids: "sbID v = plVictimID res" "sbWorkerID v = plWorkerID res"
  proof (cases "pickSemanticVictim (prRunning req) ?ss p now")
    case (Inl e)
    then show thesis using assms
      by (auto simp: SemanticScore_Place_def split: option.splits if_splits)
  next
    case (Inr q)
    obtain v reason where q: "q = (v, reason)" by (cases q)
    show thesis using that [of v reason] Inr q assms
      by (simp add: SemanticScore_Place_def split: option.splits if_splits) auto
  qed
  from pick obtain pool where "pool \<noteq> []" and pool: "v \<in> set pool"
    "\<forall>sb\<in>set pool. \<not> semantic_better ?ss p now sb v"
    "set pool = {sb \<in> set (prRunning req). \<not> in_checkpoint sb ?ss
       \<and> (semanticLocked sb ?ss \<longrightarrow> (\<forall>sb'\<in>set (prRunning req). in_checkpoint sb' ?ss \<or> semanticLocked sb' ?ss))}"
    "(\<forall>sb\<in>set pool. semanticLocked sb ?ss) \<longrightarrow> scOverride p"
    by (rule pickSemanticVictim_cases)
  have v: "v \<in> set (prRunning req)" "\<not> in_checkpoint v ?ss"
      "semanticLocked v ?ss \<Longrightarrow> \<forall>sb\<in>set (prRunning req). in_checkpoint sb ?ss \<or> semanticLocked sb ?ss"
    using pool(1,3) by auto
  have ov: "scOverride p" if "semanticLocked v ?ss"
    using pool(3,4) v(3) [OF that] by auto
  have least: "keepScore v ?ss p now < keepScore sb ?ss p now
      \<or> keepScore v ?ss p now = keepScore sb ?ss p now \<and> sbCreatedAt v \<le> sbCreatedAt sb"
    if "sb \<in> set (prRunning req)" "\<not> in_checkpoint sb ?ss"
      "semanticLocked sb ?ss \<longrightarrow> semanticLocked v ?ss" for sb
  proof -
    have "\<not> semantic_better ?ss p now sb v"
      using that v(3) by (intro bspec [OF pool(2)]) (auto simp: pool(3))
    then show ?thesis unfolding semantic_better_def by linarith
  qed
  show ?thesis
    using v ov ids least by (intro bexI [of _ v]) blast+
qed

definition busy_req :: "sandbox_sigs \<Rightarrow> place_request" where
  "busy_req ss = \<lparr>prSandboxID = ''new'', prWorkers = [],
     prRunning = [session0 ''a'' ''w1'' 1, session0 ''b'' ''w2'' 2],
     prSandboxSignals = ss, prWorkerSignals = None\<rparr>"

lemma busy_req_none: "pickIdleWorker (prWorkers (busy_req ss)) ws (prRunning (busy_req ss)) ss' = None"
  by (simp add: busy_req_def pickIdleWorker_def sortWorkersByLoad_def)

definition sig0 :: "string \<Rightarrow> bool \<Rightarrow> bool \<Rightarrow> sandbox_signals" where
  "sig0 sid lock ckpt = \<lparr>sgSandboxID = sid, sgWorkerID = '''', sgReportedAt = 0,
     sgRuntime = zero_runtime,
     sgSnapshot = zero_snapshot\<lparr>snCheckpointInProgress := ckpt\<rparr>,
     sgSemantic = zero_semantic\<lparr>smLock := lock\<rparr>, sgKeepAliveH = 0, sgCPUUtil = 0,
     sgMemRSSBytes = 0, sgLastActiveAt = 0\<rparr>"

theorem semantic_victim_correct_witness:
  "\<exists>res. SemanticScore_Place default_score 0 9
       (busy_req (Some [(''a'', sig0 ''a'' True False)])) = Inr res
     \<and> plVictimID res = ''b''"
proof -
  let ?req = "busy_req (Some [(''a'', sig0 ''a'' True False)])"
  have "\<exists>res. SemanticScore_Place default_score 0 9 ?req = Inr res \<and> plVictimID res \<noteq> ''''"
    by (simp add: SemanticScore_Place_def busy_req_none pickSemanticVictim_def)
      (simp add: busy_req_def in_checkpoint_def semanticLocked_def sig_get_def sig0_def
        zero_semantic_def zero_snapshot_def PhaseToolLoop_def)
  then obtain res where res: "SemanticScore_Place default_score 0 9 ?req = Inr res"
    "plVictimID res \<noteq> ''''" by blast
  from semantic_victim_correct [OF res] have "plVictimID res = ''b''"
    by (auto simp: busy_req_def semanticLocked_def sig_get_def sig0_def zero_semantic_def)
  with res show ?thesis by blast
qed

text \<open>
  C21: when the semantic policy gives up. \<open>Place\<close> fails exactly when no worker is idle and either
  nothing runs, or everything that runs is in mid-checkpoint, or everything else is locked and the
  override is off; the three cases have three different errors, and the scheduler retries each.
\<close>

theorem semantic_place_errors:
  "SemanticScore_Place p r now req = Inl e \<longleftrightarrow>
     (\<nexists>w. idle_for req w)
     \<and> (prRunning req = []
          \<and> e = Errorf ''semantic-score: no capacity and nothing to suspend''
        \<or> prRunning req \<noteq> [] \<and> (\<forall>sb\<in>set (prRunning req). in_checkpoint sb (prSandboxSignals req))
          \<and> e = Errorf ''semantic-score: all running sandboxes busy (checkpoint)''
        \<or> (\<exists>sb\<in>set (prRunning req). \<not> in_checkpoint sb (prSandboxSignals req))
          \<and> (\<forall>sb\<in>set (prRunning req). \<not> in_checkpoint sb (prSandboxSignals req)
               \<longrightarrow> semanticLocked sb (prSandboxSignals req))
          \<and> \<not> scOverride p \<and> e = ErrAllSemanticLocked)"
proof -
  have "(case pickSemanticVictim (prRunning req) (prSandboxSignals req) p now of
           Inl e \<Rightarrow> Inl e
         | Inr (victim, reason) \<Rightarrow>
             Inr \<lparr>plWorkerID = sbWorkerID victim, plVictimID = sbID victim,
                  plReason = reason\<rparr>) = Inl e
      \<longleftrightarrow> pickSemanticVictim (prRunning req) (prSandboxSignals req) p now = Inl e"
    by (simp split: sum.splits prod.splits)
  then show ?thesis
    using pickIdleWorker_None [of req]
    by (cases "prRunning req = []")
      (auto simp: SemanticScore_Place_def pickSemanticVictim_error split: option.splits)
qed

theorem semantic_place_errors_witness:
  "SemanticScore_Place default_score 0 9
     (busy_req (Some [(''a'', sig0 ''a'' True False), (''b'', sig0 ''b'' False True)]))
   = Inl ErrAllSemanticLocked"
  unfolding semantic_place_errors
  by (auto simp: busy_req_def idle_for_def in_checkpoint_def semanticLocked_def sig_get_def sig0_def
      zero_semantic_def zero_snapshot_def)

end
