(* ===== verification/Policies.thy ===== *)
theory Policies
  imports SemanticScore
begin

text \<open>
  The policies as the scheduler sees them: one interface (\<open>policy.Policy\<close>) with five implementations
  behind the factory of \<open>internal/policy/factory.go\<close>. A value of \<open>policy\<close> is the dynamic type behind
  the Go interface; only \<open>SemanticScore\<close> carries configuration.
\<close>

section \<open>The interface and its factory\<close>

datatype policy =
    Random
  | FIFO
  | LRUIdle
  | ResourceEvict
  | SemanticScore semantic_score

definition policy_New ::
    "(string \<Rightarrow> real option) \<Rightarrow> environ \<Rightarrow> string \<Rightarrow> policy result" where
  "policy_New parseFloat env name =
     (if name = ''random'' then Inr Random
      else if name = ''fifo'' then Inr FIFO
      else if name = ''lru-idle'' then Inr LRUIdle
      else if name = ''resource-evict'' then Inr ResourceEvict
      else if name = ''semantic-score'' then Inr (SemanticScore (NewSemanticScore parseFloat env))
      else Inl (Errorf (''unknown policy '' @ go_quote name @
             '' (want random|fifo|lru-idle|resource-evict|semantic-score)'')))"

fun policy_Name :: "policy \<Rightarrow> string" where
  "policy_Name Random = ''random''"
| "policy_Name FIFO = ''fifo''"
| "policy_Name LRUIdle = ''lru-idle''"
| "policy_Name ResourceEvict = ''resource-evict''"
| "policy_Name (SemanticScore p) = ''semantic-score''"

fun policy_Place ::
    "policy \<Rightarrow> nat \<Rightarrow> gotime \<Rightarrow> place_request \<Rightarrow> place_result result" where
  "policy_Place Random = Random_Place"
| "policy_Place FIFO = FIFO_Place"
| "policy_Place LRUIdle = LRUIdle_Place"
| "policy_Place ResourceEvict = ResourceEvict_Place"
| "policy_Place (SemanticScore p) = SemanticScore_Place p"

fun policy_Resume ::
    "policy \<Rightarrow> nat \<Rightarrow> gotime \<Rightarrow> gotime \<Rightarrow> resume_request \<Rightarrow> place_result result" where
  "policy_Resume Random = Random_Resume"
| "policy_Resume FIFO = FIFO_Resume"
| "policy_Resume LRUIdle = LRUIdle_Resume"
| "policy_Resume ResourceEvict = ResourceEvict_Resume"
| "policy_Resume (SemanticScore p) = SemanticScore_Resume p"

interpretation any_policy: resume_contract "policy_Place pol" retryable "policy_Resume pol" for pol
  by (cases pol)
    (simp_all add: fifo.resume_contract_axioms lru.resume_contract_axioms
      resource.resume_contract_axioms random.resume_contract_axioms
      semantic.resume_contract_axioms)

section \<open>Properties\<close>

text \<open>
  The factory builds the policy it is asked for, and nothing else: a known name gives the policy
  that reports that name, and every other string is an error.
\<close>

theorem factory_names:
  "(\<exists>pol. policy_New parseFloat env name = Inr pol \<and> policy_Name pol = name)
   \<noteq> (\<exists>msg. policy_New parseFloat env name = Inl (Errorf msg)
        \<and> (\<nexists>pol. policy_Name pol = name))"
proof -
  have "(\<exists>pol. policy_Name pol = name) \<longleftrightarrow>
      name \<in> {''random'', ''fifo'', ''lru-idle'', ''resource-evict'', ''semantic-score''}"
  proof
    assume "\<exists>pol. policy_Name pol = name"
    then obtain pol where "policy_Name pol = name" ..
    then show "name \<in> {''random'', ''fifo'', ''lru-idle'', ''resource-evict'', ''semantic-score''}"
      by (cases pol) auto
  next
    assume "name \<in> {''random'', ''fifo'', ''lru-idle'', ''resource-evict'', ''semantic-score''}"
    then show "\<exists>pol. policy_Name pol = name" by (auto intro: policy_Name.simps)
  qed
  then show ?thesis by (auto simp: policy_New_def)
qed

text \<open>
  C15: every policy answers a placement within its contract. When it names no victim, the worker it
  names is one of the request's workers, healthy in the store and in its last report, with a free
  slot, and hosts no sandbox in mid-checkpoint. When it names a victim, no such worker exists, the
  victim is running and its worker is the one named.
\<close>

theorem placement_is_sound:
  assumes "policy_Place pol r now req = Inr res" and "identified (prRunning req)"
  shows "(if plVictimID res = ''''
          then \<exists>w\<in>set (prWorkers req). wkID w = plWorkerID res \<and> wkHealthy w \<and> 0 < FreeSlots w
             \<and> (\<forall>sig. sig_get (prWorkerSignals req) (wkID w) = Some sig \<longrightarrow> wrHealthy sig)
             \<and> \<not> workerHostingCheckpoint (wkID w) (prRunning req) (prSandboxSignals req)
          else (\<forall>w\<in>set (prWorkers req). workerEligibleForPlace w (prWorkerSignals req)
                  \<longrightarrow> workerHostingCheckpoint (wkID w) (prRunning req) (prSandboxSignals req))
             \<and> (\<exists>sb\<in>set (prRunning req). sbID sb = plVictimID res
                  \<and> sbWorkerID sb = plWorkerID res))"
proof (cases "plVictimID res = ''''")
  case True
  from any_policy.place_idle [OF assms(1) True assms(2)]
  obtain w where "idle_for req w" "wkID w = plWorkerID res" by blast
  then show ?thesis using True
    by (auto simp: idle_for_def workerEligibleForPlace_def sig_get_def
        split: option.splits if_splits)
next
  case False
  with any_policy.place_evict [OF assms(1) False] show ?thesis by (auto simp: idle_for_def)
qed

definition worker0 :: "string \<Rightarrow> gotime \<Rightarrow> worker" where
  "worker0 wid t = \<lparr>wkID = wid, wkAddress = wid, wkMaxSlots = 1, wkUsedSlots = 0,
     wkHealthy = True, wkRegisteredAt = t\<rparr>"

definition idle_req :: place_request where
  "idle_req = \<lparr>prSandboxID = ''new'', prWorkers = [worker0 ''w1'' 1, worker0 ''w2'' 2],
     prRunning = [session0 ''a'' ''w3'' 1], prSandboxSignals = None, prWorkerSignals = None\<rparr>"

lemma worker0_simps [simp]:
  "wkID (worker0 wid t) = wid" "wkRegisteredAt (worker0 wid t) = t"
  "wkHealthy (worker0 wid t)" "FreeSlots (worker0 wid t) = 1"
  by (simp_all add: worker0_def FreeSlots_def in_int64_def min_int64_def max_int64_def)

theorem placement_is_sound_witness:
  "\<exists>res. policy_Place FIFO 0 9 idle_req = Inr res \<and> plVictimID res = ''''
     \<and> (\<exists>w\<in>set (prWorkers idle_req). wkID w = plWorkerID res \<and> 0 < FreeSlots w)"
proof -
  have "\<exists>res. policy_Place FIFO 0 9 idle_req = Inr res \<and> plVictimID res = ''''"
    by (simp add: FIFO_Place_def pickIdleWorker_def sortWorkersByLoad_def idle_req_def
        worker_less_def workerLoadScore_def workerEligibleForPlace_def)
  then obtain res where res: "policy_Place FIFO 0 9 idle_req = Inr res" "plVictimID res = ''''"
    by blast
  from placement_is_sound [OF res(1)] res show ?thesis
    by (auto simp: identified_def idle_req_def)
qed



text \<open>
  C22: who is evicted. Under \<open>fifo\<close> the oldest running sandbox, under \<open>lru-idle\<close> the one that has been
  idle longest, under \<open>resource-evict\<close> the one with the least keep-alive priority.
\<close>

theorem victims_by_policy:
  assumes "policy_Place pol r now req = Inr res" and "plVictimID res \<noteq> ''''"
  shows "\<exists>v\<in>set (prRunning req). sbID v = plVictimID res \<and> (\<forall>sb\<in>set (prRunning req).
           (pol = FIFO \<longrightarrow> sbCreatedAt v \<le> sbCreatedAt sb)
         \<and> (pol = LRUIdle \<longrightarrow>
              runtimeIdle sb (prSandboxSignals req) now \<le> runtimeIdle v (prSandboxSignals req) now)
         \<and> (pol = ResourceEvict \<longrightarrow>
              keepAliveH v (prSandboxSignals req) \<le> keepAliveH sb (prSandboxSignals req)))"
proof -
  have none: "pickIdleWorker (prWorkers req) (prWorkerSignals req) (prRunning req)
      (prSandboxSignals req) = None"
    using any_policy.place_evict [OF assms] by (simp add: pickIdleWorker_None)
  obtain v where v: "v \<in> set (prRunning req)" "sbID v = plVictimID res"
    using any_policy.place_evict [OF assms] by blast
  show ?thesis
  proof (cases pol)
    case FIFO
    then have "prRunning req \<noteq> []" "sbID (hd (sort_slice fifo_less (prRunning req))) = plVictimID res"
      using assms none by (auto simp: FIFO_Place_def Let_def split: if_splits)
    moreover have "sbCreatedAt b \<le> sbCreatedAt a" if "\<not> fifo_less a b" for a b
      using that by (auto simp: fifo_less_def split: if_splits)
    ultimately show ?thesis using FIFO fifo_victim [of "prRunning req"]
      by (intro bexI [of _ "hd (sort_slice fifo_less (prRunning req))"]) auto
  next
    case LRUIdle
    then obtain u where u: "pickLRUVictim (prRunning req) (prSandboxSignals req) now = Some u"
      "sbID u = plVictimID res"
      using assms none by (auto simp: LRUIdle_Place_def split: option.splits)
    with LRUIdle pickLRUVictim_Some [OF u(1)] show ?thesis
      by (intro bexI [of _ u]) (auto simp: lru_better_def not_less)
  next
    case ResourceEvict
    then obtain u where u: "pickGDSVictim (prRunning req) (prSandboxSignals req) = Some u"
      "sbID u = plVictimID res"
      using assms none by (auto simp: ResourceEvict_Place_def split: option.splits)
    with ResourceEvict pickGDSVictim_Some [OF u(1)] show ?thesis
      by (intro bexI [of _ u]) (auto simp: gds_better_def not_less)
  qed (use v in auto)
qed

theorem victims_by_policy_witness:
  "\<exists>res. policy_Place LRUIdle 0 (9 * second) (busy_req None) = Inr res \<and>
     (\<exists>v\<in>set (prRunning (busy_req None)). sbID v = plVictimID res)"
proof -
  have "\<exists>res. policy_Place LRUIdle 0 (9 * second) (busy_req None) = Inr res \<and> plVictimID res \<noteq> ''''"
    by (simp add: LRUIdle_Place_def busy_req_none pickLRUVictim_def)
      (simp add: busy_req_def session0_def zero_sandbox_def)
  then obtain res where res: "policy_Place LRUIdle 0 (9 * second) (busy_req None) = Inr res"
    "plVictimID res \<noteq> ''''" by blast
  from victims_by_policy [OF res] res show ?thesis by auto
qed

text \<open>
  \<open>resource-evict\<close> does evict in mid-checkpoint. The comment on \<open>pickGDSVictim\<close> and the policy
  document rule it out; the code gives such a sandbox an infinite priority, which loses against any
  other sandbox but still wins when every running sandbox is checkpointing.
\<close>

theorem gds_mid_checkpoint_victim:
  assumes "pickGDSVictim running ss = Some v"
  shows "in_checkpoint v ss \<longleftrightarrow> (\<forall>sb\<in>set running. in_checkpoint sb ss)"
proof
  have inf: "keepAliveH sb ss = PosInf \<longleftrightarrow> in_checkpoint sb ss" for sb
    by (auto simp: keepAliveH_def in_checkpoint_def split: option.splits)
  show "\<forall>sb\<in>set running. in_checkpoint sb ss" if "in_checkpoint v ss"
  proof
    fix sb assume "sb \<in> set running"
    then have "\<not> keepAliveH sb ss < keepAliveH v ss"
      using pickGDSVictim_Some(2) [OF assms] by (auto simp: gds_better_def)
    then show "in_checkpoint sb ss"
      using that by (cases "keepAliveH sb ss") (auto simp flip: inf)
  qed
  show "in_checkpoint v ss" if "\<forall>sb\<in>set running. in_checkpoint sb ss"
    using that pickGDSVictim_Some(1) [OF assms] by blast
qed

theorem gds_mid_checkpoint_victim_witness:
  "in_checkpoint (session0 ''b'' ''w2'' 2) (Some [(''b'', sig0 ''b'' False True)])"
proof -
  have "pickGDSVictim [session0 ''b'' ''w2'' 2] (Some [(''b'', sig0 ''b'' False True)])
      = Some (session0 ''b'' ''w2'' 2)"
    by (simp add: pickGDSVictim_def)
  from gds_mid_checkpoint_victim [OF this] show ?thesis
    by (simp add: in_checkpoint_def sig_get_def sig0_def)
qed

text \<open>
  The order in which idle workers are tried does not depend on the sort. With distinct worker
  identifiers, every permutation of the workers that is in order for the comparison of
  \<open>sortWorkersByLoad\<close> is the list the model returns, so the worker a policy picks is determined.
\<close>

theorem worker_order_determined:
  assumes "distinct (map wkID workers)" and "mset out = mset workers"
    and "sorted_wrt (\<lambda>a b. \<not> worker_less ws running ss b a) out"
  shows "out = sortWorkersByLoad workers ws running ss"
  unfolding sortWorkersByLoad_def
proof (rule worker_order.sort_slice_unique [OF _ assms(2,3)])
  fix a b assume "a \<in> set workers" "b \<in> set workers" "a \<noteq> b"
  then have "wkID a \<noteq> wkID b" using assms(1) by (auto simp: distinct_map dest: inj_onD)
  then show "worker_less ws running ss a b \<or> worker_less ws running ss b a"
    by (auto simp: worker_less_def Let_def)
qed

theorem worker_order_determined_witness:
  "[worker0 ''w1'' 1, worker0 ''w2'' 2]
     = sortWorkersByLoad [worker0 ''w2'' 2, worker0 ''w1'' 1] None [] None"
  using worker_order_determined [of "[worker0 ''w2'' 2, worker0 ''w1'' 1]"
      "[worker0 ''w1'' 1, worker0 ''w2'' 2]" None "[]" None]
  by (simp add: worker_less_def workerLoadScore_def)

end
