(* ===== verification/Paths.thy ===== *)
theory Paths
  imports Prelude
begin

text \<open>
  Names of files and objects: \<open>filepath.Clean\<close> and \<open>filepath.Join\<close> of the Go library on a slash-separated
  system, and the names the source builds with them: the local image of a sandbox on a worker
  (\<open>localPath\<close> of the scheduler), the object prefix of a sandbox and the object of a file
  (\<open>ObjectKeyFor\<close>, \<open>objectPath\<close> of \<open>internal/snapshotstore/store.go\<close>) and the file behind an object
  of the directory-backed store (\<open>fs.go\<close>).
\<close>

section \<open>The library functions\<close>

abbreviation slash :: char where "slash \<equiv> CHR ''/''"

text \<open>\<open>strings.Split(s, "/")\<close>.\<close>

fun split_slash :: "string \<Rightarrow> string list" where
  "split_slash [] = [[]]"
| "split_slash (c # s) =
     (if c = slash then [] # split_slash s
      else case split_slash s of
        [] \<Rightarrow> [[c]]
      | w # ws \<Rightarrow> (c # w) # ws)"

text \<open>\<open>strings.Join(ws, "/")\<close>.\<close>

fun join_slash :: "string list \<Rightarrow> string" where
  "join_slash [] = []"
| "join_slash [w] = w"
| "join_slash (w # ws) = w @ slash # join_slash ws"

text \<open>
  One path element against the elements kept so far, last one first: empty and "." elements are
  dropped, ".." removes the element before it when there is one and is dropped at the root.
\<close>

definition clean_step :: "bool \<Rightarrow> string \<Rightarrow> string list \<Rightarrow> string list" where
  "clean_step rooted c st =
     (if c = '''' \<or> c = ''.'' then st
      else if c = ''..'' then
        (case st of
           [] \<Rightarrow> if rooted then [] else [''..'']
         | x # xs \<Rightarrow> if x = ''..'' then ''..'' # st else xs)
      else c # st)"

definition filepath_Clean :: "string \<Rightarrow> string" where
  "filepath_Clean p =
     (if p = '''' then ''.''
      else
        let rooted = (hd p = slash);
            kept = rev (fold (clean_step rooted) (split_slash p) []);
            out = (if rooted then [slash] else []) @ join_slash kept
        in if out = '''' then ''.'' else out)"

fun filepath_Join :: "string list \<Rightarrow> string" where
  "filepath_Join [] = ''''"
| "filepath_Join (e # es) = (if e = '''' then filepath_Join es else filepath_Clean (join_slash (e # es)))"

definition strings_TrimSuffix :: "string \<Rightarrow> string \<Rightarrow> string" where
  "strings_TrimSuffix s suf =
     (if suffix suf s then take (length s - length suf) s else s)"

section \<open>The names of the source\<close>

definition localPath :: "string \<Rightarrow> string \<Rightarrow> string \<Rightarrow> string" where
  "localPath snapRoot workerID sandboxID = filepath_Join [snapRoot, workerID, sandboxID]"

definition ObjectKeyFor :: "string \<Rightarrow> string" where
  "ObjectKeyFor sandboxID = ''sandboxes/'' @ sandboxID"

definition objectPath :: "string \<Rightarrow> string \<Rightarrow> string" where
  "objectPath prefx name = strings_TrimSuffix prefx ''/'' @ ''/'' @ name"

definition FS_path :: "string \<Rightarrow> string \<Rightarrow> string" where
  "FS_path rootd key = filepath_Join [rootd, key]"

definition goldenPrefix :: string where
  "goldenPrefix = ''templates/default/golden''"

lemma goldenPrefix_nonempty [simp]: "goldenPrefix \<noteq> ''''"
  by (simp add: goldenPrefix_def)

section \<open>Splitting and joining\<close>

lemma split_slash_neq_Nil [simp]: "split_slash s \<noteq> []"
  by (induction s) (auto split: list.splits)

lemma split_slash_append:
  "split_slash (s @ slash # t) = split_slash s @ split_slash t"
  by (induction s) (auto split: list.splits)

lemma split_slash_plain: "slash \<notin> set s \<Longrightarrow> split_slash s = [s]"
  by (induction s) auto

lemma split_slash_join:
  "ws \<noteq> [] \<Longrightarrow> \<forall>w\<in>set ws. slash \<notin> set w \<Longrightarrow> split_slash (join_slash ws) = ws"
  by (induction ws rule: join_slash.induct) (auto simp: split_slash_plain split_slash_append)

lemma join_slash_inj:
  assumes "join_slash xs = join_slash ys" and xs: "\<forall>w\<in>set xs. slash \<notin> set w" "xs \<noteq> []"
    and ys: "\<forall>w\<in>set ys. slash \<notin> set w" "ys \<noteq> []"
  shows "xs = ys"
proof -
  have "split_slash (join_slash xs) = xs" "split_slash (join_slash ys) = ys"
    by (rule split_slash_join [OF xs(2,1)], rule split_slash_join [OF ys(2,1)])
  then show ?thesis using assms(1) by metis
qed

lemma split_slash_no_slash: "w \<in> set (split_slash s) \<Longrightarrow> slash \<notin> set w"
  by (induction s arbitrary: w) (auto split: if_splits list.splits)

lemma split_nonempty_list:
  obtains w ws where "split_slash s = w # ws"
  by (metis neq_Nil_conv split_slash_neq_Nil)

text \<open>A name that is one path element: not empty, without a slash, and neither "." nor "..".\<close>

definition plain_name :: "string \<Rightarrow> bool" where
  "plain_name s \<longleftrightarrow> s \<noteq> '''' \<and> slash \<notin> set s \<and> s \<noteq> ''.'' \<and> s \<noteq> ''..''"

lemma clean_step_plain [simp]: "plain_name c \<Longrightarrow> clean_step rooted c st = c # st"
  by (simp add: clean_step_def plain_name_def)

lemma clean_step_no_slash:
  "\<forall>w\<in>set st. slash \<notin> set w \<Longrightarrow> slash \<notin> set c \<Longrightarrow> \<forall>w\<in>set (clean_step rooted c st). slash \<notin> set w"
  by (auto simp: clean_step_def split: list.splits)

lemma fold_clean_no_slash:
  "\<forall>w\<in>set st. slash \<notin> set w \<Longrightarrow> \<forall>c\<in>set cs. slash \<notin> set c \<Longrightarrow>
   \<forall>w\<in>set (fold (clean_step rooted) cs st). slash \<notin> set w"
proof (induction cs arbitrary: st)
  case (Cons c cs)
  have "\<forall>w\<in>set (clean_step rooted c st). slash \<notin> set w"
    using Cons.prems by (intro clean_step_no_slash) simp_all
  from Cons.IH [OF this] Cons.prems(2) show ?case by simp
qed simp

definition root_elems :: "string \<Rightarrow> string list" where
  "root_elems p = rev (fold (clean_step (hd p = slash)) (split_slash p) [])"

lemma root_elems_no_slash: "w \<in> set (root_elems p) \<Longrightarrow> slash \<notin> set w"
proof -
  assume w: "w \<in> set (root_elems p)"
  have "\<forall>w\<in>set (fold (clean_step (hd p = slash)) (split_slash p) []). slash \<notin> set w"
    by (intro fold_clean_no_slash) (auto simp: split_slash_no_slash)
  with w show ?thesis by (simp add: root_elems_def)
qed

lemma localPath_eq:
  assumes "rootd \<noteq> ''''" "plain_name wid" "plain_name sid"
  shows "localPath rootd wid sid =
    (if hd rootd = slash then [slash] else []) @ join_slash (root_elems rootd @ [wid, sid])"
proof -
  have ns: "slash \<notin> set wid" "slash \<notin> set sid" using assms by (simp_all add: plain_name_def)
  have "join_slash (root_elems rootd @ [wid, sid]) \<noteq> []"
  proof
    assume "join_slash (root_elems rootd @ [wid, sid]) = []"
    moreover have "split_slash (join_slash (root_elems rootd @ [wid, sid])) = root_elems rootd @ [wid, sid]"
      using root_elems_no_slash ns by (intro split_slash_join) auto
    ultimately show False by (cases "root_elems rootd") auto
  qed
  moreover have "split_slash (rootd @ slash # wid @ slash # sid) = split_slash rootd @ [wid, sid]"
    using ns by (simp add: split_slash_append split_slash_plain)
  ultimately show ?thesis using assms
    by (simp add: localPath_def filepath_Clean_def root_elems_def Let_def)
qed

lemma TrimSuffix_none:
  assumes "s \<noteq> []" "last s \<noteq> c"
  shows "strings_TrimSuffix (p @ s) [c] = p @ s"
proof -
  have "\<not> suffix [c] (p @ s)"
  proof
    assume "suffix [c] (p @ s)"
    then obtain zs where zs: "p @ s = zs @ [c]" by (auto simp: suffix_def)
    from arg_cong [OF zs, of last] assms show False by simp
  qed
  then show ?thesis by (simp add: strings_TrimSuffix_def)
qed

lemma objectPath_ObjectKeyFor:
  assumes "plain_name sid"
  shows "objectPath (ObjectKeyFor sid) name = ''sandboxes/'' @ sid @ ''/'' @ name"
proof -
  have ne: "sid \<noteq> []" using assms by (simp add: plain_name_def)
  then have l: "last sid \<noteq> slash"
    using assms plain_name_def last_in_set by fastforce
  show ?thesis
    unfolding objectPath_def ObjectKeyFor_def TrimSuffix_none [OF ne l] by (simp only: append_assoc)
qed

section \<open>Properties\<close>

text \<open>
  C26: checkpoint images do not collide. When worker and sandbox identifiers are single path elements
  (the generated UUIDs are), two pairs have the same local image directory only if they are the
  same pair; two sandboxes
  share no object in the object store either.
\<close>

theorem image_names_injective:
  assumes "rootd \<noteq> ''''" and "plain_name wid" "plain_name sid" "plain_name wid'" "plain_name sid'"
  shows "(localPath rootd wid sid = localPath rootd wid' sid' \<longleftrightarrow> wid = wid' \<and> sid = sid')
       \<and> (objectPath (ObjectKeyFor sid) f = objectPath (ObjectKeyFor sid') f' \<longleftrightarrow> sid = sid' \<and> f = f')"
proof
  have ns: "slash \<notin> set wid" "slash \<notin> set sid" "slash \<notin> set wid'" "slash \<notin> set sid'"
    using assms by (simp_all add: plain_name_def)
  have "root_elems rootd @ [wid, sid] = root_elems rootd @ [wid', sid']"
    if "join_slash (root_elems rootd @ [wid, sid]) = join_slash (root_elems rootd @ [wid', sid'])"
    using that ns root_elems_no_slash by (intro join_slash_inj) auto
  then show "localPath rootd wid sid = localPath rootd wid' sid' \<longleftrightarrow> wid = wid' \<and> sid = sid'"
    using assms by (auto simp: localPath_eq)
  have "sid = sid' \<and> f = f'" if eq: "sid @ slash # f = sid' @ slash # f'"
  proof -
    have "sid # split_slash f = sid' # split_slash f'"
      using arg_cong [OF eq, of split_slash] ns by (simp add: split_slash_append split_slash_plain)
    then show ?thesis using eq by simp
  qed
  then show "objectPath (ObjectKeyFor sid) f = objectPath (ObjectKeyFor sid') f' \<longleftrightarrow> sid = sid' \<and> f = f'"
    using assms by (auto simp: objectPath_ObjectKeyFor)
qed

theorem image_names_injective_witness:
  "localPath ''/snap'' ''w1'' ''a'' \<noteq> localPath ''/snap'' ''w1'' ''b''"
  using image_names_injective [of "''/snap''" "''w1''" "''a''" "''w1''" "''b''"]
  by (simp add: plain_name_def)

end
