(* ===== verification/Store.thy ===== *)
theory Store
  imports Types
begin

text \<open>
  The metadata store: the interface of \<open>internal/store/store.go\<close> as a record of operations, and the
  in-process implementation of \<open>internal/store/memory.go\<close>. The mutex of \<open>Memory\<close> makes each method
  one atomic step. A write returns an error or none, and the new state; a read returns its result.
\<close>

section \<open>The interface\<close>

record 'm store_api =
  stPutSandbox :: "sandbox \<Rightarrow> 'm \<Rightarrow> go_error option \<times> 'm"
  stGetSandbox :: "string \<Rightarrow> 'm \<Rightarrow> sandbox result"
  stDeleteSandbox :: "string \<Rightarrow> 'm \<Rightarrow> go_error option \<times> 'm"
  stListSandboxes :: "'m \<Rightarrow> sandbox list result"
  stPutWorker :: "worker \<Rightarrow> 'm \<Rightarrow> go_error option \<times> 'm"
  stGetWorker :: "string \<Rightarrow> 'm \<Rightarrow> worker result"
  stDeleteWorker :: "string \<Rightarrow> 'm \<Rightarrow> go_error option \<times> 'm"
  stListWorkers :: "'m \<Rightarrow> worker list result"
  stPutGolden :: "string \<Rightarrow> 'm \<Rightarrow> go_error option \<times> 'm"
  stGetGolden :: "'m \<Rightarrow> string result"

section \<open>The in-process store\<close>

record memory =
  mmSandboxes :: "(string, sandbox) gomap"
  mmWorkers :: "(string, worker) gomap"
  mmGolden :: string

definition NewMemory :: memory where
  "NewMemory = \<lparr>mmSandboxes = [], mmWorkers = [], mmGolden = ''''\<rparr>"

definition Memory_PutSandbox :: "sandbox \<Rightarrow> memory \<Rightarrow> go_error option \<times> memory" where
  "Memory_PutSandbox sb m = (None, m\<lparr>mmSandboxes := mput (sbID sb) sb (mmSandboxes m)\<rparr>)"

definition Memory_GetSandbox :: "string \<Rightarrow> memory \<Rightarrow> sandbox result" where
  "Memory_GetSandbox sid m =
     (case mget (mmSandboxes m) sid of
        None \<Rightarrow> Inl (Errorf (''sandbox '' @ go_quote sid @ '' not found''))
      | Some sb \<Rightarrow> Inr sb)"

definition Memory_DeleteSandbox :: "string \<Rightarrow> memory \<Rightarrow> go_error option \<times> memory" where
  "Memory_DeleteSandbox sid m = (None, m\<lparr>mmSandboxes := mdel sid (mmSandboxes m)\<rparr>)"

definition Memory_ListSandboxes :: "memory \<Rightarrow> sandbox list result" where
  "Memory_ListSandboxes m = Inr (map snd (mmSandboxes m))"

definition Memory_PutWorker :: "worker \<Rightarrow> memory \<Rightarrow> go_error option \<times> memory" where
  "Memory_PutWorker w m = (None, m\<lparr>mmWorkers := mput (wkID w) w (mmWorkers m)\<rparr>)"

definition Memory_GetWorker :: "string \<Rightarrow> memory \<Rightarrow> worker result" where
  "Memory_GetWorker wid m =
     (case mget (mmWorkers m) wid of
        None \<Rightarrow> Inl (Errorf (''worker '' @ go_quote wid @ '' not found''))
      | Some w \<Rightarrow> Inr w)"

definition Memory_DeleteWorker :: "string \<Rightarrow> memory \<Rightarrow> go_error option \<times> memory" where
  "Memory_DeleteWorker wid m = (None, m\<lparr>mmWorkers := mdel wid (mmWorkers m)\<rparr>)"

definition Memory_ListWorkers :: "memory \<Rightarrow> worker list result" where
  "Memory_ListWorkers m = Inr (map snd (mmWorkers m))"

definition Memory_PutGolden :: "string \<Rightarrow> memory \<Rightarrow> go_error option \<times> memory" where
  "Memory_PutGolden prefx m = (None, m\<lparr>mmGolden := prefx\<rparr>)"

definition Memory_GetGolden :: "memory \<Rightarrow> string result" where
  "Memory_GetGolden m =
     (if mmGolden m = '''' then Inl (Errorf ''golden snapshot not ready'') else Inr (mmGolden m))"

definition Memory :: "memory store_api" where
  "Memory =
     \<lparr>stPutSandbox = Memory_PutSandbox, stGetSandbox = Memory_GetSandbox,
      stDeleteSandbox = Memory_DeleteSandbox, stListSandboxes = Memory_ListSandboxes,
      stPutWorker = Memory_PutWorker, stGetWorker = Memory_GetWorker,
      stDeleteWorker = Memory_DeleteWorker, stListWorkers = Memory_ListWorkers,
      stPutGolden = Memory_PutGolden, stGetGolden = Memory_GetGolden\<rparr>"

section \<open>What the scheduler relies on\<close>

text \<open>
  The contents of a store are two maps and the golden prefix (empty while there is none; the empty
  prefix itself is not stored, on it the implementations differ). Writes do not fail and change the
  entry they name and nothing else; a listing holds every entry once.
\<close>

locale metadata_store =
  fixes st :: "'m store_api"
    and ok :: "'m \<Rightarrow> bool"
    and sandboxes :: "'m \<Rightarrow> string \<Rightarrow> sandbox option"
    and workers :: "'m \<Rightarrow> string \<Rightarrow> worker option"
    and golden :: "'m \<Rightarrow> string"
  assumes put_sandbox: "ok m \<Longrightarrow> \<exists>m'. stPutSandbox st sb m = (None, m') \<and> ok m'
      \<and> sandboxes m' = (sandboxes m)(sbID sb \<mapsto> sb) \<and> workers m' = workers m \<and> golden m' = golden m"
    and del_sandbox: "ok m \<Longrightarrow> \<exists>m'. stDeleteSandbox st sid m = (None, m') \<and> ok m'
      \<and> sandboxes m' = (sandboxes m)(sid := None) \<and> workers m' = workers m \<and> golden m' = golden m"
    and put_worker: "ok m \<Longrightarrow> \<exists>m'. stPutWorker st w m = (None, m') \<and> ok m'
      \<and> workers m' = (workers m)(wkID w \<mapsto> w) \<and> sandboxes m' = sandboxes m \<and> golden m' = golden m"
    and del_worker: "ok m \<Longrightarrow> \<exists>m'. stDeleteWorker st wid m = (None, m') \<and> ok m'
      \<and> workers m' = (workers m)(wid := None) \<and> sandboxes m' = sandboxes m \<and> golden m' = golden m"
    and put_golden: "ok m \<Longrightarrow> g \<noteq> '''' \<Longrightarrow> \<exists>m'. stPutGolden st g m = (None, m') \<and> ok m'
      \<and> golden m' = g \<and> sandboxes m' = sandboxes m \<and> workers m' = workers m"
    and get_sandbox: "ok m \<Longrightarrow> (stGetSandbox st sid m = Inr sb) = (sandboxes m sid = Some sb)"
    and get_worker: "ok m \<Longrightarrow> (stGetWorker st wid m = Inr w) = (workers m wid = Some w)"
    and get_golden: "ok m \<Longrightarrow> (stGetGolden st m = Inr g) = (golden m = g \<and> g \<noteq> '''')"
    and list_sandboxes: "ok m \<Longrightarrow> \<exists>l. stListSandboxes st m = Inr l \<and> set l = ran (sandboxes m)
      \<and> distinct (map sbID l)"
    and list_workers: "ok m \<Longrightarrow> \<exists>l. stListWorkers st m = Inr l \<and> set l = ran (workers m)
      \<and> distinct (map wkID l)"
    and sandbox_key: "ok m \<Longrightarrow> sandboxes m sid = Some sb \<Longrightarrow> sbID sb = sid"
    and worker_key: "ok m \<Longrightarrow> workers m wid = Some w \<Longrightarrow> wkID w = wid"
begin

lemma read_your_write:
  assumes "ok m"
  obtains m' where "stPutSandbox st sb m = (None, m')" "ok m'" "stGetSandbox st (sbID sb) m' = Inr sb"
    "\<And>sid. sid \<noteq> sbID sb \<Longrightarrow> sandboxes m' sid = sandboxes m sid"
  using put_sandbox [OF assms, of sb] get_sandbox by (metis fun_upd_apply)

lemma deleted_is_gone:
  assumes "ok m"
  obtains m' where "stDeleteSandbox st sid m = (None, m')" "ok m'" "\<nexists>sb. stGetSandbox st sid m' = Inr sb"
  using del_sandbox [OF assms, of sid] get_sandbox by (metis fun_upd_same option.distinct(1))

lemma listed_iff:
  assumes "ok m" "stListSandboxes st m = Inr l"
  shows "sb \<in> set l \<longleftrightarrow> sandboxes m (sbID sb) = Some sb"
proof -
  obtain l' where "stListSandboxes st m = Inr l'" "set l' = ran (sandboxes m)"
    using list_sandboxes [OF assms(1)] by blast
  then have "set l = ran (sandboxes m)" using assms(2) by simp
  then show ?thesis using sandbox_key [OF assms(1)] by (auto simp: ran_def)
qed

lemma listed_distinct: "ok m \<Longrightarrow> stListSandboxes st m = Inr l \<Longrightarrow> distinct (map sbID l)"
  using list_sandboxes [of m] by auto

lemma listed_worker_iff:
  assumes "ok m" "stListWorkers st m = Inr l"
  shows "w \<in> set l \<longleftrightarrow> workers m (wkID w) = Some w"
proof -
  obtain l' where "stListWorkers st m = Inr l'" "set l' = ran (workers m)"
    using list_workers [OF assms(1)] by blast
  then have "set l = ran (workers m)" using assms(2) by simp
  then show ?thesis using worker_key [OF assms(1)] by (auto simp: ran_def)
qed

end

definition memory_ok :: "memory \<Rightarrow> bool" where
  "memory_ok m \<longleftrightarrow> gomap_ok (mmSandboxes m) \<and> gomap_ok (mmWorkers m)
     \<and> list_all (\<lambda>(sid, sb). sbID sb = sid) (mmSandboxes m)
     \<and> list_all (\<lambda>(wid, w). wkID w = wid) (mmWorkers m)"

lemma memory_ok_New: "memory_ok NewMemory"
  by (simp add: memory_ok_def NewMemory_def)



lemma gomap_values:
  assumes "gomap_ok m" "list_all (\<lambda>(k, v). key v = k) m"
  shows "set (map snd m) = ran (mget m)" "distinct (map key (map snd m))"
proof -
  have "map key (map snd m) = map fst m"
    using assms(2) by (induction m) auto
  with assms(1) show "distinct (map key (map snd m))" unfolding gomap_ok_def by (simp only:)
  show "set (map snd m) = ran (mget m)"
    using assms(1) by (simp add: gomap_ok_def ran_distinct)
qed

lemma gomap_key: "list_all (\<lambda>(k, v). key v = k) m \<Longrightarrow> mget m k = Some v \<Longrightarrow> key v = k"
  by (auto simp: list_all_iff dest: map_of_SomeD)

lemmas memory_defs = Memory_def Memory_PutSandbox_def Memory_GetSandbox_def
  Memory_DeleteSandbox_def Memory_ListSandboxes_def Memory_PutWorker_def Memory_GetWorker_def
  Memory_DeleteWorker_def Memory_ListWorkers_def Memory_PutGolden_def Memory_GetGolden_def

interpretation memory: metadata_store Memory memory_ok "\<lambda>m. mget (mmSandboxes m)"
    "\<lambda>m. mget (mmWorkers m)" mmGolden
proof
  fix m :: memory
  assume "memory_ok m"
  then have m: "gomap_ok (mmSandboxes m)" "list_all (\<lambda>(sid, sb). sbID sb = sid) (mmSandboxes m)"
    "gomap_ok (mmWorkers m)" "list_all (\<lambda>(wid, w). wkID w = wid) (mmWorkers m)"
    by (simp_all add: memory_ok_def)
  show "\<exists>l. stListSandboxes Memory m = Inr l \<and> set l = ran (mget (mmSandboxes m)) \<and> distinct (map sbID l)"
    using gomap_values [OF m(1,2)] by (simp add: memory_defs)
  show "\<exists>l. stListWorkers Memory m = Inr l \<and> set l = ran (mget (mmWorkers m)) \<and> distinct (map wkID l)"
    using gomap_values [OF m(3,4)] by (simp add: memory_defs)
  show "sbID sb = sid" if "mget (mmSandboxes m) sid = Some sb" for sid sb
    using gomap_key [OF m(2) that] .
  show "wkID w = wid" if "mget (mmWorkers m) wid = Some w" for wid w
    using gomap_key [OF m(4) that] .
qed (auto simp: memory_defs memory_ok_def list_all_mput list_all_mdel split: option.splits if_splits)

end
