(* ===== verification/Metrics.thy ===== *)
theory Metrics
  imports Prelude
begin

text \<open>
  The metrics of \<open>internal/metrics/metrics.go\<close>. What the OpenTelemetry instruments receive is the list
  \<open>mtEvents\<close>, oldest first: the instrument, the value recorded and the attributes. A \<open>*Metrics\<close> can
  be nil, on which every method does nothing: the methods are functions on \<open>metrics option\<close>.
\<close>

section \<open>State\<close>

datatype metric_event =
  Ev (ev_instrument: string) (ev_value: real) (ev_attrs: "(string \<times> string) list")

record metrics =
  mtPolicy :: string
  mtRunningAt :: "(string, gotime) gomap"
  mtWorkerIdle :: "(string, gotime) gomap"
  mtEvents :: "metric_event list"

definition new_metrics :: "string \<Rightarrow> metrics" where
  "new_metrics pol = \<lparr>mtPolicy = pol, mtRunningAt = [], mtWorkerIdle = [], mtEvents = []\<rparr>"

text \<open>
  The instruments in the order of their creation. A meter is a function that gives the error with
  which it refuses to create the instrument of a name.
\<close>

definition instruments :: "string list" where
  "instruments =
     [''actordock.schedule.decision'', ''actordock.schedule.eviction'',
      ''actordock.schedule.semantic_starvation_wait'', ''actordock.resume.path'',
      ''actordock.schedule.decision_latency'', ''actordock.sandbox.resume_latency'',
      ''actordock.sandbox.resume_wait'', ''actordock.sandbox.checkpoint_latency'',
      ''actordock.sandbox.restore_latency'', ''actordock.sandbox.preempt_cost'',
      ''actordock.sandbox.slot_hold_time'', ''actordock.worker.idle_gap'',
      ''actordock.snapshot.transfer_latency'', ''actordock.snapshot.transfer_bytes'',
      ''actordock.sandbox.state'', ''actordock.worker.healthy'']"

fun create_instruments :: "(string \<Rightarrow> go_error option) \<Rightarrow> string list \<Rightarrow> go_error option" where
  "create_instruments meter [] = None"
| "create_instruments meter (i # is) =
     (case meter i of Some e \<Rightarrow> Some e | None \<Rightarrow> create_instruments meter is)"

definition NewWithMeter :: "(string \<Rightarrow> go_error option) \<Rightarrow> string \<Rightarrow> metrics result" where
  "NewWithMeter meter pol =
     (case create_instruments meter instruments of
        Some e \<Rightarrow> Inl e
      | None \<Rightarrow> Inr (new_metrics pol))"

definition emit :: "string \<Rightarrow> real \<Rightarrow> (string \<times> string) list \<Rightarrow> metrics \<Rightarrow> metrics" where
  "emit inst v attrs m =
     m\<lparr>mtEvents := mtEvents m @ [Ev inst v ((''policy'', mtPolicy m) # attrs)]\<rparr>"

definition PathStickyLocal :: string where "PathStickyLocal = ''sticky_local''"
definition PathCrossWorker :: string where "PathCrossWorker = ''cross_worker''"
definition PathGoldenCold :: string where "PathGoldenCold = ''golden_cold''"
definition VictimPhaseUnknown :: string where "VictimPhaseUnknown = ''unknown''"
definition StarvationEnter :: string where "StarvationEnter = ''enter''"
definition StarvationResolved :: string where "StarvationResolved = ''resolved''"
definition StarvationTimeout :: string where "StarvationTimeout = ''timeout''"

section \<open>Counters and histograms\<close>

definition RecordDecision :: "string \<Rightarrow> string \<Rightarrow> string \<Rightarrow> metrics option \<Rightarrow> metrics option" where
  "RecordDecision action outcome reason = map_option
     (emit ''actordock.schedule.decision'' 1
        [(''action'', action), (''outcome'', outcome), (''reason'', reason)])"

definition RecordDecisionLatency :: "duration \<Rightarrow> metrics option \<Rightarrow> metrics option" where
  "RecordDecisionLatency d = map_option
     (emit ''actordock.schedule.decision_latency'' (dur_Seconds d) [])"

definition RecordEviction :: "string \<Rightarrow> string \<Rightarrow> bool \<Rightarrow> metrics option \<Rightarrow> metrics option" where
  "RecordEviction reason victimPhase victimLock = map_option
     (let victimPhase = (if victimPhase = '''' then VictimPhaseUnknown else victimPhase);
          lock = (if victimLock then ''true'' else ''false'')
      in emit ''actordock.schedule.eviction'' 1
           [(''reason'', reason), (''victim_phase'', victimPhase), (''victim_lock'', lock)])"

definition RecordSemanticStarvationWait :: "string \<Rightarrow> metrics option \<Rightarrow> metrics option" where
  "RecordSemanticStarvationWait outcome = map_option
     (let outcome = (if outcome = '''' then StarvationEnter else outcome)
      in emit ''actordock.schedule.semantic_starvation_wait'' 1 [(''outcome'', outcome)])"

definition RecordResumePath :: "string \<Rightarrow> metrics option \<Rightarrow> metrics option" where
  "RecordResumePath path = map_option (emit ''actordock.resume.path'' 1 [(''path'', path)])"

definition RecordResumeLatency :: "string \<Rightarrow> duration \<Rightarrow> metrics option \<Rightarrow> metrics option" where
  "RecordResumeLatency path d = map_option
     (emit ''actordock.sandbox.resume_latency'' (dur_Seconds d) [(''path'', path)])"

definition RecordResumeWait :: "duration \<Rightarrow> metrics option \<Rightarrow> metrics option" where
  "RecordResumeWait d = map_option (emit ''actordock.sandbox.resume_wait'' (dur_Seconds d) [])"

definition RecordCheckpointLatency :: "string \<Rightarrow> duration \<Rightarrow> metrics option \<Rightarrow> metrics option" where
  "RecordCheckpointLatency mode d = map_option
     (emit ''actordock.sandbox.checkpoint_latency'' (dur_Seconds d) [(''mode'', mode)])"

definition RecordRestoreLatency :: "string \<Rightarrow> duration \<Rightarrow> metrics option \<Rightarrow> metrics option" where
  "RecordRestoreLatency path d = map_option
     (emit ''actordock.sandbox.restore_latency'' (dur_Seconds d) [(''path'', path)])"

definition RecordPreemptCost :: "duration \<Rightarrow> metrics option \<Rightarrow> metrics option" where
  "RecordPreemptCost d = map_option (emit ''actordock.sandbox.preempt_cost'' (dur_Seconds d) [])"

definition RecordTransfer :: "string \<Rightarrow> duration \<Rightarrow> int \<Rightarrow> metrics option \<Rightarrow> metrics option" where
  "RecordTransfer direction d bytes = map_option (\<lambda>m.
     let m = emit ''actordock.snapshot.transfer_latency'' (dur_Seconds d) [(''direction'', direction)] m
     in if bytes > 0
        then emit ''actordock.snapshot.transfer_bytes'' (real_of_int bytes) [(''direction'', direction)] m
        else m)"

section \<open>Slots\<close>

text \<open>A duration is recorded only when it is positive.\<close>

definition emit_positive :: "string \<Rightarrow> duration \<Rightarrow> metrics \<Rightarrow> metrics" where
  "emit_positive inst d m = (if d > 0 then emit inst (dur_Seconds d) [] m else m)"

definition Metrics_MarkRunning ::
    "string \<Rightarrow> string \<Rightarrow> gotime \<Rightarrow> metrics option \<Rightarrow> metrics option" where
  "Metrics_MarkRunning sandboxID workerID tat = map_option (\<lambda>m.
     let m = m\<lparr>mtRunningAt := mput sandboxID tat (mtRunningAt m)\<rparr>
     in case mget (mtWorkerIdle m) workerID of
          None \<Rightarrow> m
        | Some idleAt \<Rightarrow>
            let gap = time_Sub tat idleAt;
                m = m\<lparr>mtWorkerIdle := mdel workerID (mtWorkerIdle m)\<rparr>
            in emit_positive ''actordock.worker.idle_gap'' gap m)"

definition MarkSlotFreed ::
    "string \<Rightarrow> string \<Rightarrow> gotime \<Rightarrow> metrics option \<Rightarrow> metrics option" where
  "MarkSlotFreed sandboxID workerID tat = map_option (\<lambda>m.
     let started = mget (mtRunningAt m) sandboxID;
         m = m\<lparr>mtRunningAt := mdel sandboxID (mtRunningAt m)\<rparr>;
         m = (if workerID \<noteq> '''' then m\<lparr>mtWorkerIdle := mput workerID tat (mtWorkerIdle m)\<rparr> else m)
     in case started of
          None \<Rightarrow> m
        | Some started \<Rightarrow>
            let hold = time_Sub tat started
            in emit_positive ''actordock.sandbox.slot_hold_time'' hold m)"

definition ClassifyResumePath ::
    "string \<Rightarrow> string \<Rightarrow> bool \<Rightarrow> string \<Rightarrow> bool \<Rightarrow> string" where
  "ClassifyResumePath prevWorkerID chosenWorkerID localOnly objectKey usedGolden =
     (if usedGolden then PathGoldenCold
      else if localOnly then PathStickyLocal
      else if objectKey \<noteq> '''' \<and> prevWorkerID \<noteq> '''' \<and> prevWorkerID = chosenWorkerID then PathStickyLocal
      else if objectKey \<noteq> '''' then PathCrossWorker
      else PathStickyLocal)"

section \<open>Gauges\<close>

text \<open>
  What the callbacks of the two gauges observe. The pool is set once the scheduler exists; its counts
  (running, paused, suspended) and its number of healthy workers may be errors.
\<close>

definition observeSandboxState ::
    "(nat \<times> nat \<times> nat) result option \<Rightarrow> metrics \<Rightarrow> metric_event list result" where
  "observeSandboxState pool m =
     (case pool of
        None \<Rightarrow> Inr []
      | Some (Inl e) \<Rightarrow> Inl e
      | Some (Inr (r, p, s)) \<Rightarrow>
          let obs = (\<lambda>n st. Ev ''actordock.sandbox.state'' (real n)
                      [(''policy'', mtPolicy m), (''state'', st)])
          in Inr [obs r ''running'', obs p ''paused'', obs s ''suspended''])"

definition observeHealthyWorkers :: "nat result option \<Rightarrow> metrics \<Rightarrow> metric_event list result" where
  "observeHealthyWorkers pool m =
     (case pool of
        None \<Rightarrow> Inr []
      | Some (Inl e) \<Rightarrow> Inl e
      | Some (Inr n) \<Rightarrow> Inr [Ev ''actordock.worker.healthy'' (real n) [(''policy'', mtPolicy m)]])"

section \<open>Facts\<close>

text \<open>On a nil receiver nothing happens.\<close>

lemma metrics_nil [simp]:
  "RecordDecision a o' r None = None" "RecordDecisionLatency d None = None"
  "RecordEviction r p l None = None" "RecordSemanticStarvationWait o' None = None"
  "RecordResumePath p None = None" "RecordResumeLatency p d None = None"
  "RecordResumeWait d None = None" "RecordCheckpointLatency p d None = None"
  "RecordRestoreLatency p d None = None" "RecordPreemptCost d None = None"
  "RecordTransfer p d b None = None" "Metrics_MarkRunning s w t None = None"
  "MarkSlotFreed s w t None = None"
  by (simp_all add: RecordDecision_def RecordDecisionLatency_def RecordEviction_def
      RecordSemanticStarvationWait_def RecordResumePath_def RecordResumeLatency_def
      RecordResumeWait_def RecordCheckpointLatency_def RecordRestoreLatency_def
      RecordPreemptCost_def RecordTransfer_def Metrics_MarkRunning_def MarkSlotFreed_def)

definition sum_of :: "string \<Rightarrow> metrics \<Rightarrow> real" where
  "sum_of inst m = sum_list (map ev_value (filter (\<lambda>e. ev_instrument e = inst) (mtEvents m)))"

lemma emit_simps [simp]:
  "mtPolicy (emit i v a m) = mtPolicy m"
  "mtRunningAt (emit i v a m) = mtRunningAt m"
  "mtWorkerIdle (emit i v a m) = mtWorkerIdle m"
  "sum_of j (emit i v a m) = sum_of j m + (if i = j then v else 0)"
  by (simp_all add: emit_def sum_of_def)

lemma emit_positive_simps [simp]:
  "mtRunningAt (emit_positive i d m) = mtRunningAt m"
  "mtWorkerIdle (emit_positive i d m) = mtWorkerIdle m"
  "0 \<le> d \<Longrightarrow> sum_of j (emit_positive i d m) = sum_of j m + (if i = j then dur_Seconds d else 0)"
  by (auto simp: emit_positive_def dur_Seconds_def)

lemma sum_of_frame [simp]:
  "sum_of j (m\<lparr>mtRunningAt := x\<rparr>) = sum_of j m" "sum_of j (m\<lparr>mtWorkerIdle := y\<rparr>) = sum_of j m"
  by (simp_all add: sum_of_def)

abbreviation hold_time :: string where "hold_time \<equiv> ''actordock.sandbox.slot_hold_time''"
abbreviation idle_gap :: string where "idle_gap \<equiv> ''actordock.worker.idle_gap''"

text \<open>One stay of a sandbox on a worker: claimed at \<open>t\<close>, freed at \<open>u\<close>.\<close>

definition stay :: "string \<Rightarrow> string \<times> gotime \<times> gotime \<Rightarrow> metrics option \<Rightarrow> metrics option" where
  "stay wid s m = (case s of (sid, t, u) \<Rightarrow>
     MarkSlotFreed sid wid u (Metrics_MarkRunning sid wid t m))"

fun busy_time :: "(string \<times> gotime \<times> gotime) list \<Rightarrow> duration" where
  "busy_time [] = 0"
| "busy_time ((sid, t, u) # ss) = (u - t) + busy_time ss"

fun stays_end :: "gotime \<Rightarrow> (string \<times> gotime \<times> gotime) list \<Rightarrow> gotime" where
  "stays_end t0 [] = t0"
| "stays_end t0 ((sid, t, u) # ss) = stays_end u ss"

fun stays_ok :: "gotime \<Rightarrow> (string \<times> gotime \<times> gotime) list \<Rightarrow> bool" where
  "stays_ok t0 [] = True"
| "stays_ok t0 ((sid, t, u) # ss) = (t0 \<le> t \<and> t \<le> u \<and> stays_ok u ss)"

lemma stays_ok_end: "stays_ok t0 ss \<Longrightarrow> t0 \<le> stays_end t0 ss"
proof (induction ss arbitrary: t0)
  case (Cons s ss)
  obtain sid t u where s: "s = (sid, t, u)" by (cases s)
  from Cons.prems have "t0 \<le> t" "t \<le> u" "stays_ok u ss" by (simp_all add: s)
  with Cons.IH [of u] show ?case by (simp add: s)
qed simp

lemma stay_step:
  assumes "wid \<noteq> ''''" "mget (mtWorkerIdle m) wid = Some t0" "t0 \<le> t" "t \<le> u"
    and "u - t0 \<le> max_int64"
  shows "\<exists>m'. stay wid (sid, t, u) (Some m) = Some m' \<and> mget (mtWorkerIdle m') wid = Some u
    \<and> sum_of hold_time m' = sum_of hold_time m + dur_Seconds (u - t)
    \<and> sum_of idle_gap m' = sum_of idle_gap m + dur_Seconds (t - t0)"
proof -
  have sub: "time_Sub t t0 = t - t0" "time_Sub u t = u - t"
    using assms(3-5) by (auto intro!: time_Sub_exact simp: in_int64_def min_int64_def)
  then show ?thesis
    using assms(1-4)
    by (simp add: stay_def Metrics_MarkRunning_def MarkSlotFreed_def Let_def)
qed

lemma stays_run:
  assumes "wid \<noteq> ''''" "mget (mtWorkerIdle m) wid = Some t0" "stays_ok t0 ss"
    and "stays_end t0 ss - t0 \<le> max_int64"
  shows "\<exists>m'. fold (stay wid) ss (Some m) = Some m'
     \<and> sum_of hold_time m' = sum_of hold_time m + dur_Seconds (busy_time ss)
     \<and> sum_of idle_gap m' = sum_of idle_gap m + dur_Seconds (stays_end t0 ss - t0 - busy_time ss)"
  using assms(2-4)
proof (induction ss arbitrary: m t0)
  case Nil
  then show ?case by simp
next
  case (Cons s ss)
  obtain sid t u where s: "s = (sid, t, u)" by (cases s)
  from Cons.prems(2) have ok: "t0 \<le> t" "t \<le> u" "stays_ok u ss" by (simp_all add: s)
  with stays_ok_end Cons.prems(3) have "u - t0 \<le> max_int64" "stays_end u ss - u \<le> max_int64"
    by (fastforce simp: s)+
  from stay_step [OF assms(1) Cons.prems(1) ok(1,2) this(1), of sid]
  obtain m1 where m1: "stay wid s (Some m) = Some m1" "mget (mtWorkerIdle m1) wid = Some u"
    "sum_of hold_time m1 = sum_of hold_time m + dur_Seconds (u - t)"
    "sum_of idle_gap m1 = sum_of idle_gap m + dur_Seconds (t - t0)"
    by (auto simp: s)
  from Cons.IH [OF m1(2) ok(3) \<open>stays_end u ss - u \<le> max_int64\<close>] m1 show ?case
    by (auto simp: s simp flip: dur_Seconds_add)
      (simp add: dur_Seconds_def add_divide_distrib diff_divide_distrib)
qed

section \<open>Properties\<close>

text \<open>
  C28: slot accounting. From the moment a worker is marked idle, through any sequence of stays on it in
  time order, the slot hold times recorded sum up to exactly the time the slot was held and the idle
  gaps to exactly the time it was not, so that together they cover the elapsed time.
\<close>

theorem slot_time_accounted:
  assumes "wid \<noteq> ''''" and "mget (mtWorkerIdle m) wid = Some t0" and "stays_ok t0 ss"
    and "stays_end t0 ss - t0 \<le> max_int64" and "fold (stay wid) ss (Some m) = Some m'"
  shows "sum_of hold_time m' - sum_of hold_time m = dur_Seconds (busy_time ss)
       \<and> (sum_of hold_time m' - sum_of hold_time m) + (sum_of idle_gap m' - sum_of idle_gap m)
           = dur_Seconds (stays_end t0 ss - t0)"
proof -
  from stays_run [OF assms(1-4)] assms(5)
  have "sum_of hold_time m' = sum_of hold_time m + dur_Seconds (busy_time ss)"
    "sum_of idle_gap m' = sum_of idle_gap m + dur_Seconds (stays_end t0 ss - t0 - busy_time ss)"
    by auto
  then show ?thesis by (simp flip: dur_Seconds_add)
qed

theorem slot_time_accounted_witness:
  "\<exists>m'. fold (stay ''w'') [(''a'', 3, 5), (''b'', 5, 9)]
       (Some ((new_metrics ''fifo'')\<lparr>mtWorkerIdle := [(''w'', 1)]\<rparr>)) = Some m'
     \<and> sum_of hold_time m' = dur_Seconds 6"
proof -
  let ?m = "(new_metrics ''fifo'')\<lparr>mtWorkerIdle := [(''w'', 1)]\<rparr>"
  have "\<exists>m'. fold (stay ''w'') [(''a'', 3, 5), (''b'', 5, 9)] (Some ?m) = Some m'"
    by (simp add: stay_def Metrics_MarkRunning_def MarkSlotFreed_def)
  then obtain m' where m': "fold (stay ''w'') [(''a'', 3, 5), (''b'', 5, 9)] (Some ?m) = Some m'" ..
  have "sum_of hold_time ?m = 0" by (simp add: sum_of_def new_metrics_def)
  moreover have "mget (mtWorkerIdle ?m) ''w'' = Some 1" by simp
  ultimately show ?thesis using slot_time_accounted [OF _ _ _ _ m', of 1] m'
    by (simp add: max_int64_def)
qed

text \<open>A call of one of the recording methods.\<close>

inductive metrics_call :: "metrics option \<Rightarrow> metrics option \<Rightarrow> bool" where
  "metrics_call m (RecordDecision action outcome reason m)"
| "metrics_call m (RecordDecisionLatency d m)"
| "metrics_call m (RecordEviction reason phase lock m)"
| "metrics_call m (RecordSemanticStarvationWait outcome m)"
| "metrics_call m (RecordResumePath path m)"
| "metrics_call m (RecordResumeLatency path d m)"
| "metrics_call m (RecordResumeWait d m)"
| "metrics_call m (RecordCheckpointLatency mode d m)"
| "metrics_call m (RecordRestoreLatency path d m)"
| "metrics_call m (RecordPreemptCost d m)"
| "metrics_call m (RecordTransfer direction d bytes m)"
| "metrics_call m (Metrics_MarkRunning sid wid t m)"
| "metrics_call m (MarkSlotFreed sid wid t m)"

text \<open>
  A recording that an evaluation can use: on an instrument that was created, labelled with the policy
  first, with a label for the phase of a victim that is not empty, and positive where it measures
  a hold time, a gap or a size.
\<close>

definition event_ok :: "string \<Rightarrow> metric_event \<Rightarrow> bool" where
  "event_ok pol e \<longleftrightarrow> ev_instrument e \<in> set instruments
     \<and> ev_attrs e \<noteq> [] \<and> hd (ev_attrs e) = (''policy'', pol)
     \<and> (\<forall>v. (''victim_phase'', v) \<in> set (ev_attrs e) \<longrightarrow> v \<noteq> '''')
     \<and> (ev_instrument e \<in> {hold_time, idle_gap, ''actordock.snapshot.transfer_bytes''} \<longrightarrow> 0 < ev_value e)"

definition metrics_ok :: "string \<Rightarrow> metrics option \<Rightarrow> bool" where
  "metrics_ok pol m = (\<forall>x. m = Some x \<longrightarrow> mtPolicy x = pol \<and> (\<forall>e\<in>set (mtEvents x). event_ok pol e))"

lemma emit_ok:
  assumes "event_ok (mtPolicy m) (Ev i v ((''policy'', mtPolicy m) # a))" "metrics_ok pol (Some m)"
  shows "metrics_ok pol (Some (emit i v a m))"
  using assms by (auto simp: metrics_ok_def emit_def)

lemma metrics_ok_frame [simp]:
  "metrics_ok pol None" "metrics_ok pol (Some (m\<lparr>mtRunningAt := x\<rparr>)) = metrics_ok pol (Some m)"
  "metrics_ok pol (Some (m\<lparr>mtWorkerIdle := y\<rparr>)) = metrics_ok pol (Some m)"
  by (simp_all add: metrics_ok_def)

lemma emit_positive_ok:
  assumes "i \<in> {hold_time, idle_gap}" "metrics_ok pol (Some m)"
  shows "metrics_ok pol (Some (emit_positive i d m))"
  unfolding emit_positive_def using assms
  by (auto intro!: emit_ok simp: event_ok_def instruments_def dur_Seconds_def)

lemma metrics_call_ok:
  assumes "metrics_call m m'" "metrics_ok pol m"
  shows "metrics_ok pol m'"
proof (cases m)
  case None
  from assms(1) show ?thesis unfolding None by cases simp_all
next
  case (Some x)
  from assms(1) show ?thesis
  proof cases
    case (12 sid wid t)
    show ?thesis unfolding 12 Metrics_MarkRunning_def using Some assms(2)
      by (auto simp: Let_def intro!: emit_positive_ok split: option.split)
  next
    case (13 sid wid t)
    show ?thesis unfolding 13 MarkSlotFreed_def using Some assms(2)
      by (auto simp: Let_def intro!: emit_positive_ok split: option.split)
  qed (use Some assms(2) in \<open>auto intro!: emit_ok simp: event_ok_def instruments_def Let_def
        RecordDecision_def RecordDecisionLatency_def RecordEviction_def VictimPhaseUnknown_def
        RecordSemanticStarvationWait_def RecordResumePath_def RecordResumeLatency_def
        RecordResumeWait_def RecordCheckpointLatency_def RecordRestoreLatency_def
        RecordPreemptCost_def RecordTransfer_def\<close>)
qed



end
