(* ===== verification/GoText.thy ===== *)
theory GoText
  imports Prelude
begin

text \<open>
  The functions of Go's \<open>strings\<close>, \<open>strconv\<close> and \<open>time\<close> packages that the source applies to text:
  trimming, splitting, joining, and the readers of integers and durations. White space is the ASCII
  white space; the floating-point fraction of a duration is computed exactly and cut off.
\<close>

section \<open>Strings\<close>

definition is_space :: "char \<Rightarrow> bool" where
  "is_space c \<longleftrightarrow> of_char c \<in> {9 :: nat, 10, 11, 12, 13, 32}"

definition strings_TrimSpace :: "string \<Rightarrow> string" where
  "strings_TrimSpace s = rev (dropWhile is_space (rev (dropWhile is_space s)))"

text \<open>\<open>strings.Join(ws, " ")\<close>.\<close>

fun join_space :: "string list \<Rightarrow> string" where
  "join_space [] = []"
| "join_space [w] = w"
| "join_space (w # ws) = w @ '' '' @ join_space ws"

text \<open>\<open>strings.Split\<close> at a single character, and \<open>strings.SplitN\<close> into at most \<open>n\<close> parts.\<close>

fun split_on :: "char \<Rightarrow> string \<Rightarrow> string list" where
  "split_on sep [] = [[]]"
| "split_on sep (c # s) =
     (if c = sep then [] # split_on sep s
      else case split_on sep s of [] \<Rightarrow> [[c]] | w # ws \<Rightarrow> (c # w) # ws)"

fun strings_SplitN :: "string \<Rightarrow> char \<Rightarrow> nat \<Rightarrow> string list" where
  "strings_SplitN s sep 0 = []"
| "strings_SplitN s sep (Suc 0) = [s]"
| "strings_SplitN s sep (Suc (Suc n)) =
     (case dropWhile (\<lambda>c. c \<noteq> sep) s of
        [] \<Rightarrow> [s]
      | _ # rest \<Rightarrow> takeWhile (\<lambda>c. c \<noteq> sep) s # strings_SplitN rest sep (Suc n))"

text \<open>\<open>strings.Fields\<close>: the words between white space.\<close>

fun fields_from :: "string \<Rightarrow> string \<Rightarrow> string list" where
  "fields_from acc [] = (if acc = [] then [] else [rev acc])"
| "fields_from acc (c # s) =
     (if is_space c then (if acc = [] then fields_from [] s else rev acc # fields_from [] s)
      else fields_from (c # acc) s)"

definition strings_Fields :: "string \<Rightarrow> string list" where
  "strings_Fields s = fields_from [] s"

definition strings_TrimPrefix :: "string \<Rightarrow> string \<Rightarrow> string" where
  "strings_TrimPrefix s p = (if prefix p s then drop (length p) s else s)"

definition strings_TrimRight :: "string \<Rightarrow> char \<Rightarrow> string" where
  "strings_TrimRight s c = rev (dropWhile (\<lambda>x. x = c) (rev s))"

text \<open>\<open>strings.EqualFold\<close> for ASCII text.\<close>

definition fold_char :: "char \<Rightarrow> nat" where
  "fold_char c = (let n = of_char c in if 65 \<le> n \<and> n \<le> 90 then n + 32 else n)"

definition strings_EqualFold :: "string \<Rightarrow> string \<Rightarrow> bool" where
  "strings_EqualFold s t \<longleftrightarrow> map fold_char s = map fold_char t"

section \<open>Integers\<close>

definition digit_of :: "char \<Rightarrow> int option" where
  "digit_of c = (let n = of_char c :: int in if 48 \<le> n \<and> n \<le> 57 then Some (n - 48) else None)"

fun digits_value :: "int \<Rightarrow> string \<Rightarrow> int option" where
  "digits_value acc [] = Some acc"
| "digits_value acc (c # cs) =
     (case digit_of c of None \<Rightarrow> None | Some d \<Rightarrow> digits_value (10 * acc + d) cs)"

text \<open>\<open>strconv.Atoi\<close>: an optional sign and at least one digit, within 64 bits.\<close>

definition strconv_Atoi :: "string \<Rightarrow> int option" where
  "strconv_Atoi v =
     (let (neg, ds) = (case v of
            [] \<Rightarrow> (False, v)
          | c # cs \<Rightarrow> if c = CHR ''-'' then (True, cs) else if c = CHR ''+'' then (False, cs)
                     else (False, v))
      in if ds = [] then None
         else case digits_value 0 ds of
           None \<Rightarrow> None
         | Some n \<Rightarrow> let x = (if neg then - n else n) in if in_int64 x then Some x else None)"

text \<open>
  \<open>strconv.ParseUint(s, 10, 64)\<close>: the value, and whether there was no error. A value out of range is
  reported with the largest one, as soon as it is passed; other errors come with 0.
\<close>

fun parse_uint :: "int \<Rightarrow> string \<Rightarrow> 64 word \<times> bool" where
  "parse_uint acc [] = (of_int acc, True)"
| "parse_uint acc (c # cs) =
     (case digit_of c of
        None \<Rightarrow> (0, False)
      | Some d \<Rightarrow> if 10 * acc + d \<ge> 2 ^ 64 then (- 1, False) else parse_uint (10 * acc + d) cs)"

definition strconv_ParseUint :: "string \<Rightarrow> 64 word \<times> bool" where
  "strconv_ParseUint s = (if s = '''' then (0, False) else parse_uint 0 s)"

section \<open>Durations\<close>

text \<open>\<open>leadingInt\<close> and \<open>leadingFraction\<close> of \<open>time.ParseDuration\<close>.\<close>

fun leading_int :: "nat \<Rightarrow> string \<Rightarrow> (nat \<times> string) option" where
  "leading_int x [] = Some (x, [])"
| "leading_int x (c # s) =
     (case digit_of c of
        None \<Rightarrow> Some (x, c # s)
      | Some d \<Rightarrow>
          if x > 2 ^ 63 div 10 then None
          else let x = 10 * x + nat d in if x > 2 ^ 63 then None else leading_int x s)"

fun leading_fraction :: "nat \<Rightarrow> nat \<Rightarrow> bool \<Rightarrow> string \<Rightarrow> nat \<times> nat \<times> string" where
  "leading_fraction x scale over [] = (x, scale, [])"
| "leading_fraction x scale over (c # s) =
     (case digit_of c of
        None \<Rightarrow> (x, scale, c # s)
      | Some d \<Rightarrow>
          if over \<or> x > (2 ^ 63 - 1) div 10 \<or> 10 * x + nat d > 2 ^ 63 then leading_fraction x scale True s
          else leading_fraction (10 * x + nat d) (10 * scale) False s)"

definition unit_ns :: "string \<Rightarrow> nat option" where
  "unit_ns u =
     (if u = ''ns'' then Some 1
      else if u \<in> {''us'', [CHR 0xC2, CHR 0xB5, CHR ''s''], [CHR 0xCE, CHR 0xBC, CHR ''s'']} then Some 1000
      else if u = ''ms'' then Some 1000000
      else if u = ''s'' then Some 1000000000
      else if u = ''m'' then Some 60000000000
      else if u = ''h'' then Some 3600000000000
      else None)"

definition digit_or_dot :: "char \<Rightarrow> bool" where
  "digit_or_dot c \<longleftrightarrow> c = CHR ''.'' \<or> digit_of c \<noteq> None"

text \<open>One number with its unit: the nanoseconds and the rest.\<close>

definition duration_part :: "string \<Rightarrow> (nat \<times> string) option" where
  "duration_part s =
     (if s = [] \<or> \<not> digit_or_dot (hd s) then None
      else case leading_int 0 s of
        None \<Rightarrow> None
      | Some (v, s1) \<Rightarrow>
          let pre = (length s1 \<noteq> length s);
              dot = (s1 \<noteq> [] \<and> hd s1 = CHR ''.'');
              (f, scale, s2) = (if dot then leading_fraction 0 1 False (tl s1) else (0, 1, s1));
              post = (dot \<and> length s2 \<noteq> length (tl s1));
              u = takeWhile (\<lambda>c. \<not> digit_or_dot c) s2
          in if \<not> pre \<and> \<not> post then None
             else if u = [] then None
             else case unit_ns u of
               None \<Rightarrow> None
             | Some un \<Rightarrow>
                 if v > 2 ^ 63 div un then None
                 else let w = v * un + f * un div scale
                      in if w > 2 ^ 63 then None else Some (w, drop (length u) s2))"

function duration_parts :: "nat \<Rightarrow> string \<Rightarrow> nat option" where
  "duration_parts d s =
     (if s = [] then Some d
      else case duration_part s of
        None \<Rightarrow> None
      | Some (v, s') \<Rightarrow>
          let d = (d + v) mod 2 ^ 64 in
          if d > 2 ^ 63 then None else if length s' < length s then duration_parts d s' else None)"
  by auto
termination by (relation "measure (\<lambda>(d, s). length s)") auto

declare duration_parts.simps [simp del]

definition time_ParseDuration :: "string \<Rightarrow> duration option" where
  "time_ParseDuration s =
     (let (neg, s) = (case s of
            [] \<Rightarrow> (False, s)
          | c # cs \<Rightarrow> if c = CHR ''-'' then (True, cs) else if c = CHR ''+'' then (False, cs)
                     else (False, s))
      in if s = ''0'' then Some 0
         else if s = '''' then None
         else case duration_parts 0 s of
           None \<Rightarrow> None
         | Some d \<Rightarrow> if neg then Some (wrap64 (- int d)) else if d > 2 ^ 63 - 1 then None else Some (int d))"

text \<open>The remaining text does get shorter, so the test in \<open>duration_parts\<close> never fails.\<close>

lemma leading_int_length: "leading_int x s = Some (v, s') \<Longrightarrow> length s' \<le> length s"
proof (induction x s rule: leading_int.induct)
  case (2 x c s)
  then show ?case by (fastforce simp: Let_def split: option.splits if_splits)
qed simp

lemma leading_fraction_length: "leading_fraction x sc b s = (f, sc', s') \<Longrightarrow> length s' \<le> length s"
  by (induction x sc b s rule: leading_fraction.induct) (auto split: option.splits if_splits)

lemma duration_part_shorter:
  assumes "duration_part s = Some (v, s')"
  shows "length s' < length s"
proof -
  obtain w s1 where i: "leading_int 0 s = Some (w, s1)"
    using assms by (auto simp: duration_part_def split: option.splits if_splits)
  define dot where "dot = (s1 \<noteq> [] \<and> hd s1 = CHR ''.'')"
  obtain f sc s2 where f: "(if dot then leading_fraction 0 1 False (tl s1) else (0, 1, s1)) = (f, sc, s2)"
    by (metis prod.exhaust)
  have "s' = drop (length (takeWhile (\<lambda>c. \<not> digit_or_dot c) s2)) s2" "takeWhile (\<lambda>c. \<not> digit_or_dot c) s2 \<noteq> []"
    using assms i f [unfolded dot_def] by (auto simp: duration_part_def Let_def split: option.splits if_splits)
  then have "length s' < length s2" by (cases s2) auto
  moreover have "length s2 \<le> length s1"
    using f leading_fraction_length [of 0 1 False "tl s1" f sc s2] by (auto split: if_splits)
  ultimately show ?thesis using leading_int_length [OF i] by simp
qed

lemma duration_parts_step:
  "duration_parts d s =
     (if s = [] then Some d
      else case duration_part s of
        None \<Rightarrow> None
      | Some (v, s') \<Rightarrow>
          let d = (d + v) mod 2 ^ 64 in if d > 2 ^ 63 then None else duration_parts d s')"
  by (subst duration_parts.simps) (auto simp: Let_def split: option.split dest: duration_part_shorter)

lemma ParseDuration_range: "time_ParseDuration s = Some d \<Longrightarrow> in_int64 d"
  using wrap64_range by (auto simp: time_ParseDuration_def Let_def in_int64_def min_int64_def max_int64_def
      split: option.splits if_splits list.splits)

section \<open>Facts\<close>

lemma digit_of_range: "digit_of c = Some d \<Longrightarrow> 0 \<le> d \<and> d \<le> 9"
  by (auto simp: digit_of_def Let_def split: if_splits)

lemma parse_uint_value: "0 \<le> acc \<Longrightarrow> parse_uint acc s = (v, True) \<Longrightarrow> acc < 2 ^ 64 \<Longrightarrow>
    \<exists>n. digits_value acc s = Some n \<and> 0 \<le> n \<and> n < 2 ^ 64 \<and> v = of_int n"
proof (induction acc s rule: parse_uint.induct)
  case (2 acc c cs)
  then show ?case using digit_of_range by (fastforce split: option.splits if_splits)
qed auto

text \<open>\<open>ParseUint\<close> succeeds exactly on a numeral below 2 to the 64th and returns its value.\<close>

lemma ParseUint_value:
  assumes "strconv_ParseUint s = (v, True)"
  shows "\<exists>n. digits_value 0 s = Some n \<and> uint v = n"
proof -
  have "parse_uint 0 s = (v, True)" using assms by (simp add: strconv_ParseUint_def split: if_splits)
  from parse_uint_value [OF _ this] obtain n where "digits_value 0 s = Some n" "0 \<le> n" "n < 2 ^ 64" "v = of_int n"
    by auto
  then show ?thesis by (auto simp: uint_word_of_int_eq take_bit_int_eq_self)
qed

end
