(* ===== verification/Cgroups.thy ===== *)
theory Cgroups
  imports GoText Paths
begin

text \<open>
  The readings of the control groups: \<open>internal/workerresource/cgroup_linux.go\<close> for a sandbox and
  \<open>worker_cgroup_linux.go\<close> for the worker itself. The files of the kernel are a parameter, which is what
  \<open>os.ReadFile\<close> returns of a path (no value for an error) and what a walk of \<open>/sys/fs/cgroup\<close> visits
  without an error, in its order. The package variables are the state, and the readings of the clock
  are a sequence of which the state counts the ones taken.
\<close>

record sys_files =
  sfRead :: "string \<Rightarrow> string option"
  sfWalk :: "(string \<times> bool) list"
  sfNow :: "nat \<Rightarrow> gotime"

record cpu_state =
  csPrevUse :: "(string, 64 word) gomap"
  csPrevTime :: "(string, gotime) gomap"
  csWorkerUse :: "64 word"
  csWorkerTime :: gotime
  csTick :: nat

definition cpu_start :: cpu_state where
  "cpu_start = \<lparr>csPrevUse = [], csPrevTime = [], csWorkerUse = 0, csWorkerTime = 0, csTick = 0\<rparr>"

section \<open>Numbers in files\<close>

definition readUintFile :: "sys_files \<Rightarrow> string \<Rightarrow> 64 word \<times> bool" where
  "readUintFile F path =
     (case sfRead F path of
        None \<Rightarrow> (0, False)
      | Some b \<Rightarrow> strconv_ParseUint (strings_TrimSpace b))"

definition readCgroupUint :: "sys_files \<Rightarrow> string \<Rightarrow> 64 word \<times> bool" where
  "readCgroupUint F path =
     (case sfRead F path of
        None \<Rightarrow> (0, False)
      | Some b \<Rightarrow>
          let s = strings_TrimSpace b in if s = ''max'' then (0, False) else strconv_ParseUint s)"

fun usage_of_lines :: "string list \<Rightarrow> 64 word \<times> bool" where
  "usage_of_lines [] = (0, False)"
| "usage_of_lines (line # lines) =
     (let line = strings_TrimSpace line in
      if prefix ''usage_usec '' line then
        let fields = strings_Fields line in
        if length fields \<ge> 2 then strconv_ParseUint (fields ! 1) else usage_of_lines lines
      else usage_of_lines lines)"

definition parseCPUStatUsage :: "sys_files \<Rightarrow> string \<Rightarrow> 64 word \<times> bool" where
  "parseCPUStatUsage F path =
     (case sfRead F path of
        None \<Rightarrow> (0, False)
      | Some b \<Rightarrow> usage_of_lines (split_on (char_of (10 :: nat)) b))"

text \<open>The first of the candidates that can be read.\<close>

fun first_ok :: "(string \<Rightarrow> 64 word \<times> bool) \<Rightarrow> string list \<Rightarrow> 64 word option" where
  "first_ok rd [] = None"
| "first_ok rd (p # ps) = (case rd p of (v, True) \<Rightarrow> Some v | (_, False) \<Rightarrow> first_ok rd ps)"

section \<open>A sandbox\<close>

definition sandbox_candidates :: "string \<Rightarrow> string \<Rightarrow> string list" where
  "sandbox_candidates sid name =
     [filepath_Join [''/sys/fs/cgroup'', sid, name],
      filepath_Join [''/sys/fs/cgroup/system.slice'', ''runsc-'' @ sid @ ''.scope'', name]]"

definition readMemoryCgroup :: "sys_files \<Rightarrow> string \<Rightarrow> 64 word \<times> bool" where
  "readMemoryCgroup F sid =
     (case first_ok (readUintFile F) (sandbox_candidates sid ''memory.current'') of
        Some v \<Rightarrow> (v, True)
      | None \<Rightarrow>
          (case first_ok (readUintFile F)
              (map (\<lambda>(path, isDir). filepath_Join [path, ''memory.current''])
                (filter (\<lambda>(path, isDir). isDir \<and> strings_Contains (last (split_slash path)) sid) (sfWalk F))) of
             Some v \<Rightarrow> (v, True)
           | None \<Rightarrow> (0, False)))"

definition readCPUUseMicros :: "sys_files \<Rightarrow> string \<Rightarrow> 64 word \<times> bool" where
  "readCPUUseMicros F sid =
     (case first_ok (parseCPUStatUsage F) (sandbox_candidates sid ''cpu.stat'') of
        Some v \<Rightarrow> (v, True)
      | None \<Rightarrow> (0, False))"

text \<open>The share of a core between two readings of the counter; a counter that went back was reset.\<close>

definition cpu_util :: "64 word \<Rightarrow> gotime \<Rightarrow> 64 word \<Rightarrow> gotime \<Rightarrow> real" where
  "cpu_util prevUse prevAt use now =
     (if IsZero prevAt then 0
      else
        let dt = dur_Seconds (time_Sub now prevAt) in
        if dt \<le> 0 then 0
        else
          let delta = (if use < prevUse then real_of_int (uint use) else real_of_int (uint (use - prevUse)));
              util = delta / (dt * 1000000)
          in if util < 0 then 0 else if util > 1 then 1 else util)"

definition readCPUUtil :: "sys_files \<Rightarrow> string \<Rightarrow> cpu_state \<Rightarrow> (real \<times> bool) \<times> cpu_state" where
  "readCPUUtil F sid st =
     (case readCPUUseMicros F sid of
        (_, False) \<Rightarrow> ((0, False), st)
      | (use, True) \<Rightarrow>
          let now = sfNow F (csTick st);
              prevUse = mget_or 0 (csPrevUse st) sid;
              prevAt = mget_or 0 (csPrevTime st) sid
          in ((cpu_util prevUse prevAt use now, True),
              st\<lparr>csPrevUse := mput sid use (csPrevUse st), csPrevTime := mput sid now (csPrevTime st),
                csTick := csTick st + 1\<rparr>))"

definition ReadSandboxCgroup :: "sys_files \<Rightarrow> string \<Rightarrow> cpu_state \<Rightarrow> (real \<times> 64 word \<times> bool) \<times> cpu_state" where
  "ReadSandboxCgroup F sid st =
     (let (memRSS, memOK) = readMemoryCgroup F sid;
          ((cpuUtil, cpuOK), st) = readCPUUtil F sid st
      in ((cpuUtil, memRSS, memOK \<or> cpuOK), st))"

section \<open>The worker\<close>

fun root_of_lines :: "string list \<Rightarrow> string option" where
  "root_of_lines [] = None"
| "root_of_lines (line # lines) =
     (let line = strings_TrimSpace line in
      if line = '''' then root_of_lines lines
      else
        let parts = strings_SplitN line (CHR '':'') 3 in
        if length parts < 3 \<or> parts ! 0 \<noteq> ''0'' then root_of_lines lines
        else
          let rel = strings_TrimPrefix (parts ! 2) ''/'' in
          if rel = '''' then Some ''/sys/fs/cgroup'' else Some (filepath_Join [''/sys/fs/cgroup'', rel]))"

definition selfCgroupRoot :: "sys_files \<Rightarrow> string option" where
  "selfCgroupRoot F =
     (case sfRead F ''/proc/self/cgroup'' of
        None \<Rightarrow> None
      | Some b \<Rightarrow> root_of_lines (split_on (char_of (10 :: nat)) b))"

definition readCgroupCPUUtil :: "sys_files \<Rightarrow> string \<Rightarrow> cpu_state \<Rightarrow> (real \<times> bool) \<times> cpu_state" where
  "readCgroupCPUUtil F rootd st =
     (case parseCPUStatUsage F (filepath_Join [rootd, ''cpu.stat'']) of
        (_, False) \<Rightarrow> ((0, False), st)
      | (use, True) \<Rightarrow>
          let now = sfNow F (csTick st)
          in ((cpu_util (csWorkerUse st) (csWorkerTime st) use now, True),
              st\<lparr>csWorkerUse := use, csWorkerTime := now, csTick := csTick st + 1\<rparr>))"

definition mem_util :: "64 word \<times> bool \<Rightarrow> 64 word \<times> bool \<Rightarrow> real" where
  "mem_util mem limit =
     (if snd mem \<and> fst mem > 0 then
        let util = (if snd limit \<and> fst limit > 0
                    then real_of_int (uint (fst mem)) / real_of_int (uint (fst limit))
                    else real_of_int (uint (fst mem)) / 1073741824)
        in if util > 1 then 1 else util
      else 0)"

definition ReadWorkerCgroup :: "sys_files \<Rightarrow> cpu_state \<Rightarrow> (real \<times> real \<times> 64 word \<times> bool) \<times> cpu_state" where
  "ReadWorkerCgroup F st =
     (case selfCgroupRoot F of
        None \<Rightarrow> ((0, 0, 0, False), st)
      | Some rootd \<Rightarrow>
          let mem = readCgroupUint F (filepath_Join [rootd, ''memory.current'']);
              limit = readCgroupUint F (filepath_Join [rootd, ''memory.max'']);
              ((cpuUtil, cpuOK), st) = readCgroupCPUUtil F rootd st
          in ((cpuUtil, mem_util mem limit, fst mem, snd mem \<or> cpuOK), st))"

section \<open>Bounds\<close>

lemma cpu_util_bounds: "0 \<le> cpu_util pu pt u now" "cpu_util pu pt u now \<le> 1"
  by (simp_all add: cpu_util_def Let_def)

lemma unsigned_real [simp]: "0 \<le> (unsigned (w :: 64 word) :: real)"
  by (metis of_int_0_le_iff of_int_uint uint_ge_0)

lemma mem_util_bounds: "0 \<le> mem_util m l" "mem_util m l \<le> 1"
  by (auto simp: mem_util_def Let_def)

text \<open>Between two instants in order, with a counter that did not go back by reset, no more than a core.\<close>

lemma cpu_util_exact:
  assumes "\<not> IsZero pt" "pt < now" "in_int64 (now - pt)" "uint pu \<le> uint u"
    and "(uint u - uint pu) * 1000 \<le> now - pt"
  shows "cpu_util pu pt u now * real_of_int (now - pt) = real_of_int ((uint u - uint pu) * 1000)"
proof -
  have dt: "dur_Seconds (time_Sub now pt) = real_of_int (now - pt) / 1000000000"
    using assms(3) by (simp add: time_Sub_exact dur_Seconds_def)
  have le: "\<not> u < pu" using assms(4) by (simp add: word_less_def not_less)
  have sub: "uint (u - pu) = uint u - uint pu"
    using assms(4) by (simp add: uint_sub_if')
  have "real_of_int (uint u - uint pu) * 1000 \<le> real_of_int (now - pt)"
    using assms(5) by (metis of_int_le_iff of_int_mult of_int_numeral)
  moreover have "real_of_int (uint pu) \<le> real_of_int (uint u)" using assms(4) by (simp only: of_int_le_iff)
  ultimately show ?thesis using assms(1,2)
    by (simp add: cpu_util_def dt le sub Let_def field_simps del: of_int_uint)
qed

text \<open>Whatever the files hold and however the clock runs, the shares are between 0 and 1.\<close>

lemma readCPUUtil_bounds: "readCPUUtil F sid st = ((c, ok), st') \<Longrightarrow> 0 \<le> c \<and> c \<le> 1"
  using cpu_util_bounds by (auto simp: readCPUUtil_def Let_def split: prod.splits bool.splits)

lemma readCgroupCPUUtil_bounds: "readCgroupCPUUtil F rootd st = ((c, ok), st') \<Longrightarrow> 0 \<le> c \<and> c \<le> 1"
  using cpu_util_bounds by (auto simp: readCgroupCPUUtil_def Let_def split: prod.splits bool.splits)

lemma ReadWorkerCgroup_bounds:
  assumes "ReadWorkerCgroup F st = ((c, m, b, ok), st')"
  shows "0 \<le> c \<and> c \<le> 1 \<and> 0 \<le> m \<and> m \<le> 1"
proof (cases "selfCgroupRoot F")
  case (Some rootd)
  obtain c' ok' st1 where r: "readCgroupCPUUtil F rootd st = ((c', ok'), st1)" by (metis prod.exhaust)
  then have "c = c'" "m = mem_util (readCgroupUint F (filepath_Join [rootd, ''memory.current'']))
      (readCgroupUint F (filepath_Join [rootd, ''memory.max'']))"
    using assms by (simp_all add: ReadWorkerCgroup_def Some Let_def del: filepath_Join.simps)
  then show ?thesis using readCgroupCPUUtil_bounds [OF r] by (simp add: mem_util_bounds del: filepath_Join.simps)
qed (use assms in \<open>simp add: ReadWorkerCgroup_def\<close>)

end
