(* ===== verification/WorkerResource.thy ===== *)
theory WorkerResource
  imports Signals Cgroups
begin

text \<open>
  What a worker reports about its sandboxes: the activity table of
  \<open>internal/workerresource/activity.go\<close> and the pushes that \<open>pusher.go\<close> builds from it and from the
  readings of the control groups, one on each tick. The HTTP request that carries a push is the
  address and the push; its outcome is only logged.
\<close>

section \<open>The activity table\<close>

record activity =
  acLastActive :: "(string, gotime) gomap"
  acLastCPUUtil :: "(string, real) gomap"
  acLastMemRSS :: "(string, 64 word) gomap"
  acCheckpointing :: "(string, unit) gomap"

definition NewActivity :: activity where
  "NewActivity = \<lparr>acLastActive = [], acLastCPUUtil = [], acLastMemRSS = [], acCheckpointing = []\<rparr>"

definition MarkActive :: "string \<Rightarrow> gotime \<Rightarrow> activity \<Rightarrow> activity" where
  "MarkActive sid tat a = a\<lparr>acLastActive := mput sid tat (acLastActive a)\<rparr>"

definition SetMetrics :: "string \<Rightarrow> real \<Rightarrow> 64 word \<Rightarrow> activity \<Rightarrow> activity" where
  "SetMetrics sid cpu memRSS a =
     a\<lparr>acLastCPUUtil := mput sid cpu (acLastCPUUtil a),
       acLastMemRSS := mput sid memRSS (acLastMemRSS a)\<rparr>"

definition Activity_Remove :: "string \<Rightarrow> activity \<Rightarrow> activity" where
  "Activity_Remove sid a =
     \<lparr>acLastActive = mdel sid (acLastActive a), acLastCPUUtil = mdel sid (acLastCPUUtil a),
      acLastMemRSS = mdel sid (acLastMemRSS a), acCheckpointing = mdel sid (acCheckpointing a)\<rparr>"

definition SetCheckpointing :: "string \<Rightarrow> bool \<Rightarrow> activity \<Rightarrow> activity" where
  "SetCheckpointing sid on a =
     a\<lparr>acCheckpointing := (if on then mput sid () (acCheckpointing a)
                           else mdel sid (acCheckpointing a))\<rparr>"

record resource_sample =
  saSandboxID :: string
  saWorkerID :: string
  saCPUUtil :: real
  saMemRSSBytes :: "64 word"
  saLastActiveAt :: gotime
  saCheckpointInProgress :: bool

definition BuildSamples :: "string list \<Rightarrow> string \<Rightarrow> gotime \<Rightarrow> activity \<Rightarrow> resource_sample list" where
  "BuildSamples ids workerID now a = map (\<lambda>sid.
     let active = mget_or 0 (acLastActive a) sid;
         active = (if IsZero active then now else active)
     in \<lparr>saSandboxID = sid, saWorkerID = workerID,
         saCPUUtil = mget_or 0 (acLastCPUUtil a) sid,
         saMemRSSBytes = mget_or 0 (acLastMemRSS a) sid,
         saLastActiveAt = active,
         saCheckpointInProgress = (mget (acCheckpointing a) sid \<noteq> None)\<rparr>) ids"

section \<open>The push\<close>

record pusher =
  psWorkerID :: string
  psControlPlaneURL :: string
  psInterval :: duration
  psListActive :: "(unit \<Rightarrow> string list) option"
  psIsHealthy :: "(unit \<Rightarrow> bool) option"

text \<open>The readings of the active sandboxes go into the activity table.\<close>

definition refresh_one ::
    "sys_files \<Rightarrow> string \<Rightarrow> activity \<times> cpu_state \<Rightarrow> activity \<times> cpu_state" where
  "refresh_one F sid = (\<lambda>(a, st). case ReadSandboxCgroup F sid st of
     ((cpu, mem, ok), st) \<Rightarrow> (if ok then SetMetrics sid cpu mem a else a, st))"

definition refresh_metrics ::
    "sys_files \<Rightarrow> string list \<Rightarrow> activity \<Rightarrow> cpu_state \<Rightarrow> activity \<times> cpu_state" where
  "refresh_metrics F ids a st = fold (refresh_one F) ids (a, st)"

definition sample_signals :: "gotime \<Rightarrow> resource_sample \<Rightarrow> sandbox_signals" where
  "sample_signals now s =
     \<lparr>sgSandboxID = saSandboxID s, sgWorkerID = saWorkerID s, sgReportedAt = now,
      sgRuntime = \<lparr>rtCPUUtil = saCPUUtil s, rtMemRSSBytes = saMemRSSBytes s,
                   rtLastActiveAt = saLastActiveAt s\<rparr>,
      sgSnapshot = zero_snapshot\<lparr>snCheckpointInProgress := saCheckpointInProgress s\<rparr>,
      sgSemantic = zero_semantic, sgKeepAliveH = 0, sgCPUUtil = 0, sgMemRSSBytes = 0,
      sgLastActiveAt = 0\<rparr>"

text \<open>The request of a tick, if one is made.\<close>

definition pushOnce ::
    "pusher \<Rightarrow> sys_files \<Rightarrow> gotime \<Rightarrow> activity \<times> cpu_state \<Rightarrow> (string \<times> push) option \<times> activity \<times> cpu_state" where
  "pushOnce p F now = (\<lambda>(a, st).
     case psListActive p of
       None \<Rightarrow> (None, a, st)
     | Some list_active \<Rightarrow>
         if psControlPlaneURL p = '''' then (None, a, st)
         else
           let ids = list_active ();
               (a, st) = refresh_metrics F ids a st;
               ((cpuW, memW, memBytes, _), st) = ReadWorkerCgroup F st;
               healthy = (case psIsHealthy p of None \<Rightarrow> True | Some h \<Rightarrow> h ())
           in (Some (psControlPlaneURL p @ ''/v1/signals/resource'',
                 \<lparr>puWorkerID = psWorkerID p,
                  puWorker = \<lparr>wrWorkerID = psWorkerID p, wrMaxSlots = 1, wrUsedSlots = int (length ids),
                              wrHealthy = healthy, wrCPUUtil = cpuW, wrMemUtil = memW,
                              wrMemBytes = memBytes, wrReportedAt = now\<rparr>,
                  puSamples = map (sample_signals now) (BuildSamples ids (psWorkerID p) now a)\<rparr>), a, st))"

text \<open>\<open>Run\<close>: the requests of the ticks until the context is cancelled, and the interval of the ticker.\<close>

fun push_ticks ::
    "pusher \<Rightarrow> sys_files \<Rightarrow> gotime list \<Rightarrow> activity \<times> cpu_state \<Rightarrow> (string \<times> push) list" where
  "push_ticks p F [] s = []"
| "push_ticks p F (now # ticks) s =
     (case pushOnce p F now s of
        (None, s) \<Rightarrow> push_ticks p F ticks s
      | (Some req, s) \<Rightarrow> req # push_ticks p F ticks s)"

definition Pusher_Run ::
    "pusher \<Rightarrow> sys_files \<Rightarrow> gotime list \<Rightarrow> activity option \<Rightarrow> cpu_state \<Rightarrow> duration \<times> (string \<times> push) list" where
  "Pusher_Run p F ticks act st =
     (let interval = (if psInterval p \<le> 0 then 5 * second else psInterval p);
          a = (case act of None \<Rightarrow> NewActivity | Some a \<Rightarrow> a)
      in (interval, push_ticks p F ticks (a, st)))"

section \<open>Facts\<close>

lemma activity_lookups [simp]:
  "mget (acCheckpointing (SetCheckpointing sid on a)) sid' =
     (if sid' = sid then (if on then Some () else None) else mget (acCheckpointing a) sid')"
  "acCheckpointing (MarkActive sid tat a) = acCheckpointing a"
  "acCheckpointing (SetMetrics sid cpu mem a) = acCheckpointing a"
  "mget (acCheckpointing (Activity_Remove sid a)) sid' =
     (if sid' = sid then None else mget (acCheckpointing a) sid')"
  "acLastActive (SetMetrics sid cpu mem a) = acLastActive a"
  "acLastActive (SetCheckpointing sid on a) = acLastActive a"
  by (simp_all add: SetCheckpointing_def MarkActive_def SetMetrics_def Activity_Remove_def)

definition util_ok :: "activity \<Rightarrow> bool" where
  "util_ok a \<longleftrightarrow> (\<forall>sid. 0 \<le> mget_or 0 (acLastCPUUtil a) sid \<and> mget_or 0 (acLastCPUUtil a) sid \<le> 1)"

lemma refresh_one_frame:
  assumes "refresh_one F sid (a, st) = (a', st')"
  shows "acCheckpointing a' = acCheckpointing a" "acLastActive a' = acLastActive a"
    "util_ok a \<Longrightarrow> util_ok a'"
proof -
  obtain cpu mem ok st1 where r: "ReadSandboxCgroup F sid st = ((cpu, mem, ok), st1)" by (metis prod.exhaust)
  have "0 \<le> cpu" "cpu \<le> 1"
    using r cpu_util_bounds by (auto simp: ReadSandboxCgroup_def readCPUUtil_def Let_def split: prod.splits bool.splits)
  then show "acCheckpointing a' = acCheckpointing a" "acLastActive a' = acLastActive a"
    "util_ok a \<Longrightarrow> util_ok a'"
    using assms r by (auto simp: refresh_one_def util_ok_def SetMetrics_def split: if_splits)
qed

lemma refresh_metrics_frame:
  assumes "refresh_metrics F ids a st = (a', st')"
  shows "acCheckpointing a' = acCheckpointing a" "acLastActive a' = acLastActive a"
    "util_ok a \<Longrightarrow> util_ok a'"
proof -
  have "acCheckpointing a' = acCheckpointing a \<and> acLastActive a' = acLastActive a \<and> (util_ok a \<longrightarrow> util_ok a')"
    using assms unfolding refresh_metrics_def
  proof (induction ids arbitrary: a st)
    case (Cons sid ids)
    obtain a1 st1 where one: "refresh_one F sid (a, st) = (a1, st1)" by (metis prod.exhaust)
    then show ?case using Cons.IH [of a1 st1] Cons.prems refresh_one_frame [OF one] by simp
  qed simp
  then show "acCheckpointing a' = acCheckpointing a" "acLastActive a' = acLastActive a"
    "util_ok a \<Longrightarrow> util_ok a'" by simp_all
qed

end
