(* ===== verification/WorkerServer.thy ===== *)
theory WorkerServer
  imports Metrics WorkerResource Paths
begin

text \<open>
  The worker agent of \<open>internal/workerserver/server.go\<close>: the single slot (\<open>alive\<close>) and the HTTP
  handlers around the runtime. The isolation backend (\<open>internal/runtime/runtime.go\<close>), the local file
  system and the object store form the host: a record of operations on a host state of any type,
  each of which returns an error or none and the new state.
\<close>

section \<open>The host\<close>

record 'h host_api =
  hoBoot :: "string \<Rightarrow> 'h \<Rightarrow> go_error option \<times> 'h"
  hoCheckpoint :: "string \<Rightarrow> string \<Rightarrow> 'h \<Rightarrow> go_error option \<times> 'h"
  hoRestore :: "string \<Rightarrow> string \<Rightarrow> 'h \<Rightarrow> go_error option \<times> 'h"
  hoDelete :: "string \<Rightarrow> 'h \<Rightarrow> go_error option \<times> 'h"
  hoExec :: "string \<Rightarrow> string list \<Rightarrow> 'h \<Rightarrow> string result \<times> 'h"
  hoIsDir :: "string \<Rightarrow> 'h \<Rightarrow> bool"
  hoReadDir :: "string \<Rightarrow> 'h \<Rightarrow> string list"
  hoDirSize :: "string \<Rightarrow> 'h \<Rightarrow> 64 word"
  hoHasSnaps :: bool
  hoUploadDir :: "string \<Rightarrow> string \<Rightarrow> 'h \<Rightarrow> int result \<times> 'h"
  hoDownloadDir :: "string \<Rightarrow> string \<Rightarrow> 'h \<Rightarrow> int result \<times> 'h"

record 'h worker_server =
  wsWorkerID :: string
  wsAlive :: "(string, unit) gomap"
  wsActivity :: "activity option"
  wsMetrics :: "metrics option"
  wsHost :: 'h

section \<open>The slot\<close>

definition errBusy :: go_error where "errBusy = Errorf ''worker busy''"

definition claim :: "string \<Rightarrow> 'h worker_server \<Rightarrow> go_error option \<times> 'h worker_server" where
  "claim sid s =
     (if length (wsAlive s) > 0 \<and> mget (wsAlive s) sid = None then (Some errBusy, s)
      else (None, s\<lparr>wsAlive := mput sid () (wsAlive s)\<rparr>))"

definition release :: "string \<Rightarrow> 'h worker_server \<Rightarrow> 'h worker_server" where
  "release sid s =
     s\<lparr>wsAlive := mdel sid (wsAlive s),
       wsActivity := map_option (Activity_Remove sid) (wsActivity s)\<rparr>"

definition ActiveSandboxIDs :: "'h worker_server \<Rightarrow> string list" where
  "ActiveSandboxIDs s = map fst (wsAlive s)"

definition markActive :: "string \<Rightarrow> gotime \<Rightarrow> 'h worker_server \<Rightarrow> 'h worker_server" where
  "markActive sid now s = s\<lparr>wsActivity := map_option (MarkActive sid now) (wsActivity s)\<rparr>"

definition setCheckpointing :: "string \<Rightarrow> bool \<Rightarrow> 'h worker_server \<Rightarrow> 'h worker_server" where
  "setCheckpointing sid on s =
     s\<lparr>wsActivity := map_option (SetCheckpointing sid on) (wsActivity s)\<rparr>"

section \<open>Handlers\<close>

text \<open>
  A response is a status code with the text of an error or the value in the body. The JSON body of
  a request arrives decoded: \<open>None\<close> when \<open>Decode\<close> fails.
\<close>

datatype 'b http_response = HttpError nat string | HttpOK nat 'b

fun http_code :: "'b http_response \<Rightarrow> nat" where
  "http_code (HttpError code msg) = code"
| "http_code (HttpOK code b) = code"

record worker_status =
  stWorkerID :: string
  stMaxSlots :: int
  stUsedSlots :: int
  stHealthy :: bool

definition handleStatus :: "'h worker_server \<Rightarrow> worker_status http_response \<times> 'h worker_server" where
  "handleStatus s =
     (HttpOK 200 \<lparr>stWorkerID = wsWorkerID s, stMaxSlots = 1, stUsedSlots = int (length (wsAlive s)),
                  stHealthy = True\<rparr>, s)"

definition handleLocalSnapshot ::
    "'h host_api \<Rightarrow> string \<Rightarrow> 'h worker_server \<Rightarrow> bool http_response \<times> 'h worker_server" where
  "handleLocalSnapshot H path s =
     (if path = '''' then (HttpError 400 ''path required'', s)
      else (HttpOK 200 (hoIsDir H path (wsHost s)), s))"

definition handleBoot ::
    "'h host_api \<Rightarrow> gotime \<Rightarrow> string \<Rightarrow> 'h worker_server \<Rightarrow> unit http_response \<times> 'h worker_server" where
  "handleBoot H now sid s =
     (if sid = '''' then (HttpError 400 ''id required'', s)
      else case claim sid s of
        (Some e, s) \<Rightarrow> (HttpError 409 (err_Error e), s)
      | (None, s) \<Rightarrow>
          (case hoBoot H sid (wsHost s) of
             (Some e, h) \<Rightarrow> (HttpError 500 (err_Error e), release sid (s\<lparr>wsHost := h\<rparr>))
           | (None, h) \<Rightarrow> (HttpOK 204 (), markActive sid now (s\<lparr>wsHost := h\<rparr>))))"

text \<open>
  The part of \<open>handleCheckpoint\<close> between the two calls of \<open>SetCheckpointing\<close>. \<open>d\<close> is the duration of
  the transfer.
\<close>

definition checkpoint_body ::
    "'h host_api \<Rightarrow> duration \<Rightarrow> string \<Rightarrow> string \<Rightarrow> string \<Rightarrow> 'h worker_server \<Rightarrow>
     64 word http_response \<times> 'h worker_server" where
  "checkpoint_body H d sid imagePath objectKey s =
     (case hoCheckpoint H sid imagePath (wsHost s) of
        (Some e, h) \<Rightarrow> (HttpError 500 (err_Error e), s\<lparr>wsHost := h\<rparr>)
      | (None, h) \<Rightarrow>
          let s = s\<lparr>wsHost := h\<rparr>;
              bytes = hoDirSize H imagePath h
          in if objectKey = '''' then (HttpOK 200 bytes, release sid s)
             else if \<not> hoHasSnaps H then (HttpError 503 ''snapshot store not configured'', s)
             else case hoUploadDir H imagePath objectKey h of
               (Inl e, h) \<Rightarrow> (HttpError 500 (err_Error e), s\<lparr>wsHost := h\<rparr>)
             | (Inr n, h) \<Rightarrow>
                 let s = s\<lparr>wsHost := h, wsMetrics := RecordTransfer ''upload'' d n (wsMetrics s)\<rparr>;
                     bytes = (if bytes = 0 \<and> n > 0 then word_of_int n else bytes)
                 in (HttpOK 200 bytes, release sid s))"

definition handleCheckpoint ::
    "'h host_api \<Rightarrow> duration \<Rightarrow> string \<Rightarrow> (string \<times> string) option \<Rightarrow> 'h worker_server \<Rightarrow>
     64 word http_response \<times> 'h worker_server" where
  "handleCheckpoint H d sid body s =
     (case body of
        None \<Rightarrow> (HttpError 400 ''imagePath required'', s)
      | Some (imagePath, objectKey) \<Rightarrow>
          if imagePath = '''' then (HttpError 400 ''imagePath required'', s)
          else case checkpoint_body H d sid imagePath objectKey (setCheckpointing sid True s) of
            (r, s) \<Rightarrow> (r, setCheckpointing sid False s))"

text \<open>The runtime call at the end of \<open>handleRestore\<close>.\<close>

definition restore_run ::
    "'h host_api \<Rightarrow> gotime \<Rightarrow> string \<Rightarrow> string \<Rightarrow> 'h worker_server \<Rightarrow>
     unit http_response \<times> 'h worker_server" where
  "restore_run H now sid imagePath s =
     (case hoRestore H sid imagePath (wsHost s) of
        (Some e, h) \<Rightarrow> (HttpError 500 (err_Error e), release sid (s\<lparr>wsHost := h\<rparr>))
      | (None, h) \<Rightarrow> (HttpOK 204 (), markActive sid now (s\<lparr>wsHost := h\<rparr>)))"

definition handleRestore ::
    "'h host_api \<Rightarrow> gotime \<Rightarrow> duration \<Rightarrow> string \<Rightarrow> (string \<times> string) option \<Rightarrow>
     'h worker_server \<Rightarrow> unit http_response \<times> 'h worker_server" where
  "handleRestore H now d sid body s =
     (case body of
        None \<Rightarrow> (HttpError 400 ''imagePath required'', s)
      | Some (imagePath, objectKey) \<Rightarrow>
          if imagePath = '''' then (HttpError 400 ''imagePath required'', s)
          else case claim sid s of
            (Some e, s) \<Rightarrow> (HttpError 409 (err_Error e), s)
          | (None, s) \<Rightarrow>
              let needDownload = (if hoIsDir H imagePath (wsHost s)
                                  then length (hoReadDir H imagePath (wsHost s)) = 0 else True)
              in if \<not> needDownload then restore_run H now sid imagePath s
                 else if objectKey = '''' \<or> \<not> hoHasSnaps H
                 then (HttpError 409 ''local snapshot missing and no objectKey'', release sid s)
                 else case hoDownloadDir H objectKey imagePath (wsHost s) of
                   (Inl e, h) \<Rightarrow> (HttpError 500 (err_Error e), release sid (s\<lparr>wsHost := h\<rparr>))
                 | (Inr n, h) \<Rightarrow>
                     restore_run H now sid imagePath
                       (s\<lparr>wsHost := h,
                          wsMetrics := RecordTransfer ''download'' d n (wsMetrics s)\<rparr>))"

definition handleExec ::
    "'h host_api \<Rightarrow> gotime \<Rightarrow> string \<Rightarrow> string list option \<Rightarrow> 'h worker_server \<Rightarrow>
     string http_response \<times> 'h worker_server" where
  "handleExec H now sid body s =
     (case body of
        None \<Rightarrow> (HttpError 400 ''argv required'', s)
      | Some argv \<Rightarrow>
          if length argv = 0 then (HttpError 400 ''argv required'', s)
          else case hoExec H sid argv (wsHost s) of
            (Inl e, h) \<Rightarrow> (HttpError 500 (err_Error e), s\<lparr>wsHost := h\<rparr>)
          | (Inr out, h) \<Rightarrow> (HttpOK 200 out, markActive sid now (s\<lparr>wsHost := h\<rparr>)))"

definition handleDelete ::
    "'h host_api \<Rightarrow> string \<Rightarrow> 'h worker_server \<Rightarrow> unit http_response \<times> 'h worker_server" where
  "handleDelete H sid s =
     (HttpOK 204 (), release sid (s\<lparr>wsHost := snd (hoDelete H sid (wsHost s))\<rparr>))"

section \<open>What the handlers do to the slot\<close>

definition slot_ok :: "'h worker_server \<Rightarrow> bool" where
  "slot_ok s \<longleftrightarrow> length (wsAlive s) \<le> 1"

text \<open>The sandbox that holds the slot.\<close>

definition ws_slot :: "'h worker_server \<Rightarrow> string option" where
  "ws_slot s = (case wsAlive s of [] \<Rightarrow> None | (sid, _) # _ \<Rightarrow> Some sid)"

definition freed :: "string \<Rightarrow> string option \<Rightarrow> string option" where
  "freed sid slot = (if slot = Some sid then None else slot)"

lemma alive_cases:
  assumes "slot_ok s"
  obtains "wsAlive s = []" "ws_slot s = None" | sid where "wsAlive s = [(sid, ())]" "ws_slot s = Some sid"
proof (cases "wsAlive s")
  case (Cons p ps)
  then show thesis using assms that(2) by (cases p) (simp add: slot_ok_def ws_slot_def)
qed (use that(1) in \<open>simp add: ws_slot_def\<close>)

lemma slot_frame [simp]:
  "wsAlive (markActive sid now s) = wsAlive s"
  "wsAlive (setCheckpointing sid on s) = wsAlive s"
  "wsHost (markActive sid now s) = wsHost s"
  "wsHost (setCheckpointing sid on s) = wsHost s"
  "wsHost (release sid s) = wsHost s"
  by (simp_all add: markActive_def setCheckpointing_def release_def)

lemma slot_cong: "wsAlive s = wsAlive s' \<Longrightarrow> slot_ok s = slot_ok s' \<and> ws_slot s = ws_slot s'"
  by (simp add: slot_ok_def ws_slot_def)

lemma slot_updates [simp]:
  "slot_ok (s\<lparr>wsHost := h\<rparr>) = slot_ok s" "ws_slot (s\<lparr>wsHost := h\<rparr>) = ws_slot s"
  "slot_ok (s\<lparr>wsMetrics := m\<rparr>) = slot_ok s" "ws_slot (s\<lparr>wsMetrics := m\<rparr>) = ws_slot s"
  "slot_ok (markActive sid now s) = slot_ok s" "ws_slot (markActive sid now s) = ws_slot s"
  "slot_ok (setCheckpointing sid on s) = slot_ok s"
  "ws_slot (setCheckpointing sid on s) = ws_slot s"
  by (simp_all add: slot_ok_def ws_slot_def)

lemma release_slot [simp]:
  "slot_ok s \<Longrightarrow> slot_ok (release sid s) \<and> ws_slot (release sid s) = freed sid (ws_slot s)"
  by (erule alive_cases) (auto simp: release_def slot_ok_def ws_slot_def freed_def)

lemma claim_result:
  assumes "slot_ok s"
  shows "claim sid s =
    (if ws_slot s \<in> {None, Some sid} then (None, s\<lparr>wsAlive := [(sid, ())]\<rparr>) else (Some errBusy, s))"
  using assms by (rule alive_cases) (auto simp: claim_def)

lemma claimed_slot [simp]:
  "slot_ok (s\<lparr>wsAlive := [(sid, ())]\<rparr>)" "ws_slot (s\<lparr>wsAlive := [(sid, ())]\<rparr>) = Some sid"
  by (simp_all add: slot_ok_def ws_slot_def)

text \<open>The possible slots after a call that claims, by its outcome.\<close>

fun claimed_ok :: "string \<Rightarrow> string option \<Rightarrow> 'b http_response \<Rightarrow> string option \<Rightarrow> bool" where
  "claimed_ok sid slot (HttpOK code b) slot' \<longleftrightarrow> slot \<in> {None, Some sid} \<and> slot' = Some sid"
| "claimed_ok sid slot (HttpError code msg) slot' \<longleftrightarrow>
     slot' = slot \<or> slot \<in> {None, Some sid} \<and> slot' = None"

lemma boot_slot:
  assumes "slot_ok s" "handleBoot H now sid s = (r, s')"
  shows "slot_ok s' \<and> claimed_ok sid (ws_slot s) r (ws_slot s')"
  using assms
  by (auto simp: handleBoot_def claim_result freed_def split: if_splits prod.splits option.splits)

lemma restore_run_slot:
  assumes "slot_ok s" "ws_slot s = Some sid" "restore_run H now sid path s = (r, s')"
  shows "slot_ok s' \<and> (case r of HttpOK _ _ \<Rightarrow> ws_slot s' = Some sid | HttpError _ _ \<Rightarrow> ws_slot s' = None)"
  using assms by (auto simp: restore_run_def freed_def split: prod.splits option.splits)

lemma restore_slot:
  assumes "slot_ok s" "handleRestore H now d sid body s = (r, s')"
  shows "slot_ok s' \<and> claimed_ok sid (ws_slot s) r (ws_slot s')"
proof (cases "body = None \<or> fst (the body) = '''' \<or> ws_slot s \<notin> {None, Some sid}")
  case True
  then show ?thesis using assms
    by (auto simp: handleRestore_def claim_result split: option.splits if_splits prod.splits)
next
  case False
  then obtain path key where body: "body = Some (path, key)" "path \<noteq> ''''"
    and slot: "ws_slot s \<in> {None, Some sid}" by auto
  let ?s = "s\<lparr>wsAlive := [(sid, ())]\<rparr>"
  have run: "slot_ok s' \<and> claimed_ok sid (ws_slot s) r (ws_slot s')"
    if "restore_run H now sid path t = (r, s')" "slot_ok t" "ws_slot t = Some sid" for t
    using restore_run_slot [OF that(2,3,1)] slot by (cases r) auto
  show ?thesis using assms(2) slot run
    by (auto simp: handleRestore_def body claim_result [OF assms(1)] freed_def Let_def
        split: if_splits sum.splits prod.splits)
qed

lemma checkpoint_slot:
  assumes "slot_ok s" "handleCheckpoint H d sid body s = (r, s')"
  shows "slot_ok s' \<and> ws_slot s' = (case r of HttpOK _ _ \<Rightarrow> freed sid (ws_slot s) | HttpError _ _ \<Rightarrow> ws_slot s)"
  using assms
  by (auto simp: handleCheckpoint_def checkpoint_body_def Let_def
      split: option.splits if_splits prod.splits sum.splits)

lemma delete_slot:
  assumes "slot_ok s" "handleDelete H sid s = (r, s')"
  shows "slot_ok s' \<and> ws_slot s' = freed sid (ws_slot s)"
  using assms by (auto simp: handleDelete_def)

lemma exec_slot:
  assumes "slot_ok s" "handleExec H now sid body s = (r, s')"
  shows "slot_ok s' \<and> ws_slot s' = ws_slot s"
  using assms
  by (auto simp: handleExec_def split: option.splits if_splits prod.splits sum.splits)

lemma status_slot:
  assumes "slot_ok s"
  shows "handleStatus s = (HttpOK 200 \<lparr>stWorkerID = wsWorkerID s, stMaxSlots = 1,
    stUsedSlots = (if ws_slot s = None then 0 else 1), stHealthy = True\<rparr>, s)"
  using assms by (rule alive_cases) (simp_all add: handleStatus_def)

section \<open>Requests in sequence\<close>

datatype worker_request =
    ReqStatus
  | ReqLocalSnapshot string
  | ReqBoot gotime string
  | ReqCheckpoint duration string "(string \<times> string) option"
  | ReqRestore gotime duration string "(string \<times> string) option"
  | ReqExec gotime string "string list option"
  | ReqDelete string

fun serve :: "'h host_api \<Rightarrow> worker_request \<Rightarrow> 'h worker_server \<Rightarrow> nat \<times> 'h worker_server" where
  "serve H ReqStatus s = map_prod http_code (\<lambda>s. s) (handleStatus s)"
| "serve H (ReqLocalSnapshot path) s = map_prod http_code (\<lambda>s. s) (handleLocalSnapshot H path s)"
| "serve H (ReqBoot now sid) s = map_prod http_code (\<lambda>s. s) (handleBoot H now sid s)"
| "serve H (ReqCheckpoint d sid body) s =
     map_prod http_code (\<lambda>s. s) (handleCheckpoint H d sid body s)"
| "serve H (ReqRestore now d sid body) s =
     map_prod http_code (\<lambda>s. s) (handleRestore H now d sid body s)"
| "serve H (ReqExec now sid body) s = map_prod http_code (\<lambda>s. s) (handleExec H now sid body s)"
| "serve H (ReqDelete sid) s = map_prod http_code (\<lambda>s. s) (handleDelete H sid s)"

definition New :: "string \<Rightarrow> 'h \<Rightarrow> metrics option \<Rightarrow> activity option \<Rightarrow> 'h worker_server" where
  "New workerID h m act =
     \<lparr>wsWorkerID = workerID, wsAlive = [], wsActivity = act, wsMetrics = m, wsHost = h\<rparr>"

lemma serve_slot_ok: "slot_ok s \<Longrightarrow> slot_ok (snd (serve H q s))"
proof (cases q)
  case ReqStatus
  then show "slot_ok s \<Longrightarrow> ?thesis" by (simp add: handleStatus_def)
next
  case (ReqLocalSnapshot path)
  then show "slot_ok s \<Longrightarrow> ?thesis" by (simp add: handleLocalSnapshot_def)
next
  case (ReqBoot now sid)
  then show "slot_ok s \<Longrightarrow> ?thesis"
    using boot_slot [of s H now sid] by (cases "handleBoot H now sid s") simp
next
  case (ReqCheckpoint d sid body)
  then show "slot_ok s \<Longrightarrow> ?thesis"
    using checkpoint_slot [of s H d sid body] by (cases "handleCheckpoint H d sid body s") simp
next
  case (ReqRestore now d sid body)
  then show "slot_ok s \<Longrightarrow> ?thesis"
    using restore_slot [of s H now d sid body] by (cases "handleRestore H now d sid body s") simp
next
  case (ReqExec now sid body)
  then show "slot_ok s \<Longrightarrow> ?thesis"
    using exec_slot [of s H now sid body] by (cases "handleExec H now sid body s") simp
next
  case (ReqDelete sid)
  then show "slot_ok s \<Longrightarrow> ?thesis"
    using delete_slot [of s H sid] by (cases "handleDelete H sid s") simp
qed

lemma serve_run_ok: "slot_ok s \<Longrightarrow> slot_ok (fold (\<lambda>q s. snd (serve H q s)) qs s)"
  by (induction qs arbitrary: s) (simp_all add: serve_slot_ok)

section \<open>Properties\<close>

text \<open>
  C23: one sandbox per worker. After any sequence of requests to a new worker at most one sandbox is
  alive, the status report counts exactly the alive ones, and while a sandbox is alive a boot or a
  restore of another one is answered with 409 and changes nothing, on the host in particular.
\<close>

theorem one_sandbox_per_worker:
  assumes "s = fold (\<lambda>q s. snd (serve H q s)) qs (New wid h m act)"
  shows "length (ActiveSandboxIDs s) \<le> 1
       \<and> handleStatus s = (HttpOK 200 \<lparr>stWorkerID = wsWorkerID s, stMaxSlots = 1,
           stUsedSlots = int (length (ActiveSandboxIDs s)), stHealthy = True\<rparr>, s)
       \<and> (a \<in> set (ActiveSandboxIDs s) \<longrightarrow> b \<noteq> a \<longrightarrow> b \<noteq> '''' \<longrightarrow> path \<noteq> '''' \<longrightarrow>
            serve H (ReqBoot now b) s = (409, s)
          \<and> serve H (ReqRestore now d b (Some (path, key))) s = (409, s))"
proof -
  have ok: "slot_ok s" unfolding assms by (rule serve_run_ok) (simp add: slot_ok_def New_def)
  then show ?thesis
    by (rule alive_cases)
      (auto simp: ActiveSandboxIDs_def handleStatus_def handleBoot_def handleRestore_def
        claim_result [OF ok])
qed

text \<open>A small concrete host: the running sandboxes, and the names in the image directories.\<close>

record demo_host =
  dhRunning :: "string list"
  dhImages :: "(string, string list) gomap"
  dhObjects :: "(string, string list) gomap"

definition demo_api :: "bool \<Rightarrow> demo_host host_api" where
  "demo_api uploads =
     \<lparr>hoBoot = (\<lambda>sid h. (None, h\<lparr>dhRunning := sid # dhRunning h\<rparr>)),
      hoCheckpoint = (\<lambda>sid path h. if sid \<in> set (dhRunning h)
         then (None, h\<lparr>dhRunning := removeAll sid (dhRunning h),
                       dhImages := mput path [''checkpoint.img''] (dhImages h)\<rparr>)
         else (Some (Errorf ''no such container''), h)),
      hoRestore = (\<lambda>sid path h. if sid \<in> set (dhRunning h)
         then (Some (Errorf ''container exists''), h)
         else (None, h\<lparr>dhRunning := sid # dhRunning h\<rparr>)),
      hoDelete = (\<lambda>sid h. (None, h\<lparr>dhRunning := removeAll sid (dhRunning h)\<rparr>)),
      hoExec = (\<lambda>sid argv h. (Inr (concat argv), h)),
      hoIsDir = (\<lambda>path h. mget (dhImages h) path \<noteq> None),
      hoReadDir = (\<lambda>path h. mget_or [] (dhImages h) path),
      hoDirSize = (\<lambda>path h. 0),
      hoHasSnaps = True,
      hoUploadDir = (\<lambda>path key h. if uploads
         then (Inr 7, h\<lparr>dhObjects := mput key (mget_or [] (dhImages h) path) (dhObjects h)\<rparr>)
         else (Inl (Errorf ''bucket unavailable''), h)),
      hoDownloadDir = (\<lambda>key path h. case mget (dhObjects h) key of
           None \<Rightarrow> (Inl (Errorf ''no such key''), h)
         | Some fs \<Rightarrow> (Inr 7, h\<lparr>dhImages := mput path fs (dhImages h)\<rparr>))\<rparr>"

lemma demo_api_simps [simp]:
  "hoBoot (demo_api u) sid h = (None, h\<lparr>dhRunning := sid # dhRunning h\<rparr>)"
  "hoCheckpoint (demo_api u) sid path h = (if sid \<in> set (dhRunning h)
     then (None, h\<lparr>dhRunning := removeAll sid (dhRunning h),
                   dhImages := mput path [''checkpoint.img''] (dhImages h)\<rparr>)
     else (Some (Errorf ''no such container''), h))"
  "hoRestore (demo_api u) sid path h = (if sid \<in> set (dhRunning h)
     then (Some (Errorf ''container exists''), h)
     else (None, h\<lparr>dhRunning := sid # dhRunning h\<rparr>))"
  "hoIsDir (demo_api u) path h = (mget (dhImages h) path \<noteq> None)"
  "hoReadDir (demo_api u) path h = mget_or [] (dhImages h) path"
  "hoDirSize (demo_api u) path h = 0"
  "hoHasSnaps (demo_api u)"
  "hoUploadDir (demo_api u) path key h = (if u
     then (Inr 7, h\<lparr>dhObjects := mput key (mget_or [] (dhImages h) path) (dhObjects h)\<rparr>)
     else (Inl (Errorf ''bucket unavailable''), h))"
  by (simp_all add: demo_api_def)

definition demo_host0 :: demo_host where
  "demo_host0 = \<lparr>dhRunning = [], dhImages = [], dhObjects = []\<rparr>"

definition demo_worker :: "string \<Rightarrow> demo_host worker_server" where
  "demo_worker wid = New wid demo_host0 None None"

lemma demo_boot:
  "handleBoot (demo_api u) 1 ''a'' (demo_worker wid)
     = (HttpOK 204 (), (demo_worker wid)\<lparr>wsAlive := [(''a'', ())],
          wsHost := demo_host0\<lparr>dhRunning := [''a'']\<rparr>\<rparr>)"
  by (simp add: handleBoot_def claim_def demo_worker_def New_def demo_host0_def
      markActive_def)

theorem one_sandbox_per_worker_witness:
  "serve (demo_api True) (ReqBoot 2 ''b'') (snd (serve (demo_api True) (ReqBoot 1 ''a'') (demo_worker ''w'')))
     = (409, snd (serve (demo_api True) (ReqBoot 1 ''a'') (demo_worker ''w'')))"
  using one_sandbox_per_worker [of "snd (serve (demo_api True) (ReqBoot 1 ''a'') (demo_worker ''w''))"
      "demo_api True" "[ReqBoot 1 ''a'']" "''w''" demo_host0 None None "''a''" "''b''" "''p''" 2]
  by (simp add: demo_boot ActiveSandboxIDs_def demo_worker_def [symmetric])

text \<open>
  C24: a checkpoint call settles the slot. When it succeeds, the sandbox no longer holds the slot; when
  it fails, the slot is as before. Either way, once a well-formed call has been answered, the
  activity table no longer shows the sandbox as checkpointing.
\<close>

theorem checkpoint_settles_slot:
  assumes "slot_ok s" and "path \<noteq> ''''"
    and "handleCheckpoint H d sid (Some (path, key)) s = (r, s')"
  shows "ws_slot s' = (case r of HttpOK _ _ \<Rightarrow> freed sid (ws_slot s) | HttpError _ _ \<Rightarrow> ws_slot s)
       \<and> (\<forall>act. wsActivity s' = Some act \<longrightarrow> mget (acCheckpointing act) sid = None)"
proof
  show "ws_slot s' = (case r of HttpOK _ _ \<Rightarrow> freed sid (ws_slot s) | HttpError _ _ \<Rightarrow> ws_slot s)"
    using checkpoint_slot [OF assms(1,3)] by simp
  show "\<forall>act. wsActivity s' = Some act \<longrightarrow> mget (acCheckpointing act) sid = None"
    using assms(2,3) by (auto simp: handleCheckpoint_def setCheckpointing_def split: prod.splits)
qed

theorem checkpoint_settles_slot_witness:
  "ws_slot (snd (handleCheckpoint (demo_api True) 3 ''a'' (Some (''p'', ''k''))
     (snd (handleBoot (demo_api True) 1 ''a'' (demo_worker ''w''))))) = None"
proof -
  let ?s = "snd (handleBoot (demo_api True) 1 ''a'' (demo_worker ''w''))"
  have s: "slot_ok ?s" "ws_slot ?s = Some ''a''" by (simp_all add: demo_boot)
  have "\<exists>b s'. handleCheckpoint (demo_api True) 3 ''a'' (Some (''p'', ''k'')) ?s = (HttpOK 200 b, s')"
    by (simp add: demo_boot handleCheckpoint_def checkpoint_body_def
        setCheckpointing_def demo_host0_def)
  then obtain b s' where r: "handleCheckpoint (demo_api True) 3 ''a'' (Some (''p'', ''k'')) ?s
      = (HttpOK 200 b, s')" by blast
  from checkpoint_settles_slot [OF s(1) _ r] r s(2) show ?thesis by (simp add: freed_def)
qed



text \<open>
  A local image always wins. When the image directory of a restore is not empty, the worker
  restores from it and never asks the object store, whatever object the caller names: an image that
  an earlier stay left behind is used even when the object is newer.
\<close>

theorem local_image_wins:
  assumes "slot_ok s" and "ws_slot s \<in> {None, Some sid}" and "path \<noteq> ''''"
    and "hoIsDir H path (wsHost s)" and "hoReadDir H path (wsHost s) \<noteq> []"
  shows "handleRestore H now d sid (Some (path, key)) s
       = restore_run H now sid path (snd (claim sid s))"
  using assms by (simp add: handleRestore_def claim_result)

theorem local_image_wins_witness:
  "handleRestore (demo_api True) 9 1 ''a'' (Some (''p'', ''sandboxes/a''))
      ((demo_worker ''w'')\<lparr>wsHost := demo_host0\<lparr>dhImages := [(''p'', [''old.img''])]\<rparr>\<rparr>)
   = (HttpOK 204 (), (demo_worker ''w'')\<lparr>wsAlive := [(''a'', ())],
        wsHost := demo_host0\<lparr>dhRunning := [''a''], dhImages := [(''p'', [''old.img''])]\<rparr>\<rparr>)"
proof -
  let ?s = "(demo_worker ''w'')\<lparr>wsHost := demo_host0\<lparr>dhImages := [(''p'', [''old.img''])]\<rparr>\<rparr>"
  have s: "slot_ok ?s" "ws_slot ?s \<in> {None, Some ''a''}"
    by (simp_all add: demo_worker_def New_def slot_ok_def ws_slot_def)
  have dir: "hoIsDir (demo_api True) ''p'' (wsHost ?s)" "hoReadDir (demo_api True) ''p'' (wsHost ?s) \<noteq> []"
    by (simp_all add: mget_or_def)
  show ?thesis
    unfolding local_image_wins [OF s _ dir, simplified]
    by (simp add: restore_run_def claim_def demo_host0_def
        demo_worker_def New_def markActive_def ws_slot_def)
qed

text \<open>
  A restore that fails frees the slot even when the sandbox was already running there. The claim
  of the slot succeeds for its present holder, so the failure path of a duplicate restore releases
  a slot whose sandbox is still running.
\<close>

theorem duplicate_restore_frees_slot:
  assumes "slot_ok s" and "ws_slot s = Some sid" and "path \<noteq> ''''"
    and "hoIsDir H path (wsHost s)" and "hoReadDir H path (wsHost s) \<noteq> []"
    and "hoRestore H sid path (wsHost s) = (Some e, h)"
  shows "\<exists>s'. handleRestore H now d sid (Some (path, key)) s = (HttpError 500 (err_Error e), s')
       \<and> ActiveSandboxIDs s' = [] \<and> wsHost s' = h"
  using assms
  by (simp add: handleRestore_def claim_result restore_run_def release_def ActiveSandboxIDs_def)

theorem duplicate_restore_frees_slot_witness:
  "\<exists>s'. handleRestore (demo_api True) 9 1 ''a'' (Some (''p'', ''''))
       ((demo_worker ''w'')\<lparr>wsAlive := [(''a'', ())],
          wsHost := demo_host0\<lparr>dhRunning := [''a''], dhImages := [(''p'', [''img''])]\<rparr>\<rparr>)
      = (HttpError 500 ''container exists'', s')
     \<and> ActiveSandboxIDs s' = [] \<and> dhRunning (wsHost s') = [''a'']"
proof -
  let ?h = "demo_host0\<lparr>dhRunning := [''a''], dhImages := [(''p'', [''img''])]\<rparr>"
  let ?s = "(demo_worker ''w'')\<lparr>wsAlive := [(''a'', ())], wsHost := ?h\<rparr>"
  have "hoIsDir (demo_api True) ''p'' (wsHost ?s)" "hoReadDir (demo_api True) ''p'' (wsHost ?s) \<noteq> []"
    "hoRestore (demo_api True) ''a'' ''p'' (wsHost ?s) = (Some (Errorf ''container exists''), ?h)"
    by (simp_all add: mget_or_def)
  from duplicate_restore_frees_slot [OF _ _ _ this, of 9 1 "''''"] show ?thesis
    by (auto simp: slot_ok_def ws_slot_def)
qed

end
