(* ===== verification/WorkerClient.thy ===== *)
theory WorkerClient
  imports WorkerServer
begin

text \<open>
  The scheduler's view of the workers: the client of \<open>internal/workerclient/client.go\<close>, as a record of
  operations on a world, and its realisation over a set of worker servers reached by their base
  URL. A base URL behind which no server listens gives a transport error.

  Requests and answers travel as JSON; the structs on both ends have the same fields, so a body that
  is sent arrives. Sandbox identifiers are path elements of the URL: one that is not a single path
  element matches no route.
\<close>

section \<open>The interface\<close>

record checkpoint_opts =
  coImagePath :: string
  coObjectKey :: string

record restore_opts =
  roImagePath :: string
  roObjectKey :: string

record 'w worker_api =
  wcStatus :: "string \<Rightarrow> 'w \<Rightarrow> worker_status result \<times> 'w"
  wcBoot :: "string \<Rightarrow> string \<Rightarrow> 'w \<Rightarrow> go_error option \<times> 'w"
  wcCheckpoint :: "string \<Rightarrow> string \<Rightarrow> checkpoint_opts \<Rightarrow> 'w \<Rightarrow> 64 word result \<times> 'w"
  wcRestore :: "string \<Rightarrow> string \<Rightarrow> restore_opts \<Rightarrow> 'w \<Rightarrow> go_error option \<times> 'w"
  wcLocalSnapshotExists :: "string \<Rightarrow> string \<Rightarrow> 'w \<Rightarrow> bool result \<times> 'w"
  wcDelete :: "string \<Rightarrow> string \<Rightarrow> 'w \<Rightarrow> go_error option \<times> 'w"
  wcExec :: "string \<Rightarrow> string \<Rightarrow> string list \<Rightarrow> 'w \<Rightarrow> string result \<times> 'w"

section \<open>The client over HTTP\<close>

text \<open>
  The servers by base URL. \<open>clNow\<close> is the reading of the workers' clock, \<open>clTransfer\<close> the duration of
  the next transfer.
\<close>

record 'h cluster =
  clNodes :: "(string, 'h worker_server) gomap"
  clNow :: gotime
  clTransfer :: duration

definition http_status :: "nat \<Rightarrow> string" where
  "http_status code =
     (if code = 400 then ''400 Bad Request''
      else if code = 404 then ''404 Not Found''
      else if code = 409 then ''409 Conflict''
      else if code = 503 then ''503 Service Unavailable''
      else ''500 Internal Server Error'')"

text \<open>\<open>do\<close>: a status of 300 or more is an error whose text has the method, the URL, the status and the body.\<close>

definition client_do ::
    "string \<Rightarrow> string \<Rightarrow> string \<Rightarrow> ('h worker_server \<Rightarrow> 'b http_response \<times> 'h worker_server) \<Rightarrow>
     'h cluster \<Rightarrow> 'b result \<times> 'h cluster" where
  "client_do verb base path handler c =
     (case mget (clNodes c) base of
        None \<Rightarrow> (Inl (Errorf (verb @ '' '' @ go_quote (base @ path) @ '': connection refused'')), c)
      | Some s \<Rightarrow>
          (case handler s of
             (HttpOK code b, s) \<Rightarrow> (Inr b, c\<lparr>clNodes := mput base s (clNodes c)\<rparr>)
           | (HttpError code msg, s) \<Rightarrow>
               (Inl (Errorf (verb @ '' '' @ base @ path @ '': '' @ http_status code @ '': '' @ msg)),
                c\<lparr>clNodes := mput base s (clNodes c)\<rparr>)))"

text \<open>The mux: a sandbox identifier that is not one path element is not routed.\<close>

definition routed ::
    "string \<Rightarrow> ('h worker_server \<Rightarrow> 'b http_response \<times> 'h worker_server) \<Rightarrow>
     'h worker_server \<Rightarrow> 'b http_response \<times> 'h worker_server" where
  "routed sid handler s =
     (if plain_name sid then handler s else (HttpError 404 ''404 page not found'', s))"

definition err_of :: "unit result \<Rightarrow> go_error option" where
  "err_of r = (case r of Inl e \<Rightarrow> Some e | Inr _ \<Rightarrow> None)"

definition sandbox_url :: "string \<Rightarrow> string \<Rightarrow> string" where
  "sandbox_url sid verb = ''/sandboxes/'' @ sid @ verb"

definition Client_Status :: "string \<Rightarrow> 'h cluster \<Rightarrow> worker_status result \<times> 'h cluster" where
  "Client_Status base c = client_do ''GET'' base ''/status'' handleStatus c"

definition Client_Boot ::
    "'h host_api \<Rightarrow> string \<Rightarrow> string \<Rightarrow> 'h cluster \<Rightarrow> go_error option \<times> 'h cluster" where
  "Client_Boot H base sid c =
     map_prod err_of (\<lambda>c. c)
       (client_do ''POST'' base (sandbox_url sid ''/boot'') (routed sid (handleBoot H (clNow c) sid)) c)"

definition Client_Checkpoint ::
    "'h host_api \<Rightarrow> string \<Rightarrow> string \<Rightarrow> checkpoint_opts \<Rightarrow> 'h cluster \<Rightarrow>
     64 word result \<times> 'h cluster" where
  "Client_Checkpoint H base sid opts c =
     client_do ''POST'' base (sandbox_url sid ''/checkpoint'')
       (routed sid (handleCheckpoint H (clTransfer c) sid (Some (coImagePath opts, coObjectKey opts)))) c"

definition Client_Restore ::
    "'h host_api \<Rightarrow> string \<Rightarrow> string \<Rightarrow> restore_opts \<Rightarrow> 'h cluster \<Rightarrow>
     go_error option \<times> 'h cluster" where
  "Client_Restore H base sid opts c =
     map_prod err_of (\<lambda>c. c)
       (client_do ''POST'' base (sandbox_url sid ''/restore'')
          (routed sid (handleRestore H (clNow c) (clTransfer c) sid
             (Some (roImagePath opts, roObjectKey opts)))) c)"

definition Client_LocalSnapshotExists ::
    "'h host_api \<Rightarrow> string \<Rightarrow> string \<Rightarrow> 'h cluster \<Rightarrow> bool result \<times> 'h cluster" where
  "Client_LocalSnapshotExists H base path c =
     client_do ''GET'' base (''/local-snapshot?path='' @ path) (handleLocalSnapshot H path) c"

definition Client_Delete ::
    "'h host_api \<Rightarrow> string \<Rightarrow> string \<Rightarrow> 'h cluster \<Rightarrow> go_error option \<times> 'h cluster" where
  "Client_Delete H base sid c =
     map_prod err_of (\<lambda>c. c)
       (client_do ''DELETE'' base (sandbox_url sid '''') (routed sid (handleDelete H sid)) c)"

definition Client_Exec ::
    "'h host_api \<Rightarrow> string \<Rightarrow> string \<Rightarrow> string list \<Rightarrow> 'h cluster \<Rightarrow> string result \<times> 'h cluster" where
  "Client_Exec H base sid argv c =
     client_do ''POST'' base (sandbox_url sid ''/exec'')
       (routed sid (handleExec H (clNow c) sid (Some argv))) c"

definition http_workers :: "'h host_api \<Rightarrow> 'h cluster worker_api" where
  "http_workers H =
     \<lparr>wcStatus = Client_Status, wcBoot = Client_Boot H, wcCheckpoint = Client_Checkpoint H,
      wcRestore = Client_Restore H, wcLocalSnapshotExists = Client_LocalSnapshotExists H,
      wcDelete = Client_Delete H, wcExec = Client_Exec H\<rparr>"

section \<open>What the scheduler relies on\<close>

text \<open>
  The slot of each worker: a successful boot or restore needs a slot that is free or already the
  sandbox's and takes it, a failed one may only free it again, a checkpoint frees it exactly when
  it succeeds, a delete may free it, everything else leaves it alone. No call touches another
  worker.
\<close>

definition claim_outcome :: "string \<Rightarrow> string option \<Rightarrow> bool \<Rightarrow> string option \<Rightarrow> bool" where
  "claim_outcome sid slot success slot' \<longleftrightarrow>
     (if success then slot \<in> {None, Some sid} \<and> slot' = Some sid
      else slot' = slot \<or> slot \<in> {None, Some sid} \<and> slot' = None)"

locale worker_pool =
  fixes W :: "'w worker_api"
    and ok :: "'w \<Rightarrow> bool"
    and slot :: "'w \<Rightarrow> string \<Rightarrow> string option"
  assumes status: "ok w \<Longrightarrow> wcStatus W a w = (r, w') \<Longrightarrow>
      ok w' \<and> slot w' = slot w
      \<and> (\<forall>st. r = Inr st \<longrightarrow> stUsedSlots st = (if slot w a = None then 0 else 1))"
    and boot: "ok w \<Longrightarrow> wcBoot W a sid w = (e, w') \<Longrightarrow>
      ok w' \<and> (\<exists>x. slot w' = (slot w)(a := x) \<and> claim_outcome sid (slot w a) (e = None) x)"
    and restore: "ok w \<Longrightarrow> wcRestore W a sid opts w = (e, w') \<Longrightarrow>
      ok w' \<and> (\<exists>x. slot w' = (slot w)(a := x) \<and> claim_outcome sid (slot w a) (e = None) x)"
    and checkpoint: "ok w \<Longrightarrow> wcCheckpoint W a sid copts w = (rb, w') \<Longrightarrow>
      ok w' \<and> slot w' = (slot w)(a := (case rb of Inl _ \<Rightarrow> slot w a | Inr _ \<Rightarrow> freed sid (slot w a)))"
    and delete: "ok w \<Longrightarrow> wcDelete W a sid w = (e, w') \<Longrightarrow>
      ok w' \<and> (slot w' = slot w \<or> slot w' = (slot w)(a := freed sid (slot w a)))"
    and local_snapshot: "ok w \<Longrightarrow> wcLocalSnapshotExists W a path w = (rl, w') \<Longrightarrow>
      ok w' \<and> slot w' = slot w"
    and exec: "ok w \<Longrightarrow> wcExec W a sid argv w = (rx, w') \<Longrightarrow> ok w' \<and> slot w' = slot w"
begin

lemma restore_success:
  assumes "ok w" "wcRestore W a sid opts w = (None, w')"
  shows "slot w a \<in> {None, Some sid}" "slot w' = (slot w)(a \<mapsto> sid)"
  using restore [OF assms] by (auto simp: claim_outcome_def)

text \<open>A sandbox that holds a slot is not displaced by a call on behalf of another one.\<close>

lemma others_keep_slot:
  assumes "ok w" "slot w a = Some other" "other \<noteq> sid"
  shows "wcBoot W b sid w = (e, w') \<Longrightarrow> slot w' a = Some other"
    "wcRestore W b sid opts w = (e, w') \<Longrightarrow> slot w' a = Some other"
    "wcCheckpoint W b sid copts w = (rb, w') \<Longrightarrow> slot w' a = Some other"
    "wcDelete W b sid w = (e, w') \<Longrightarrow> slot w' a = Some other"
proof -
  have claim: "((slot w)(b := x)) a = Some other" if "claim_outcome sid (slot w b) c x" for x c
    using that assms(2,3) by (auto simp: claim_outcome_def split: if_splits)
  have free: "((slot w)(b := freed sid (slot w b))) a = Some other"
    using assms(2,3) by (auto simp: freed_def)
  show "slot w' a = Some other" if "wcBoot W b sid w = (e, w')"
    using boot [OF assms(1) that] claim by auto
  show "slot w' a = Some other" if "wcRestore W b sid opts w = (e, w')"
    using restore [OF assms(1) that] claim by auto
  show "slot w' a = Some other" if "wcCheckpoint W b sid copts w = (rb, w')"
    using checkpoint [OF assms(1) that] free assms(2) by (cases rb) auto
  show "slot w' a = Some other" if "wcDelete W b sid w = (e, w')"
    using delete [OF assms(1) that] free assms(2) by auto
qed

end

section \<open>The servers keep the contract\<close>

definition cluster_ok :: "'h cluster \<Rightarrow> bool" where
  "cluster_ok c \<longleftrightarrow> list_all (\<lambda>(_, s). slot_ok s) (clNodes c)"

definition cluster_slot :: "'h cluster \<Rightarrow> string \<Rightarrow> string option" where
  "cluster_slot c base = Option.bind (mget (clNodes c) base) ws_slot"

lemma client_do_result:
  assumes "cluster_ok c" "client_do verb base path handler c = (r, c')"
  obtains "mget (clNodes c) base = None" "c' = c" "\<exists>e. r = Inl e" "cluster_slot c base = None"
  | s resp s' where "mget (clNodes c) base = Some s" "slot_ok s" "handler s = (resp, s')"
      "c' = c\<lparr>clNodes := mput base s' (clNodes c)\<rparr>" "ws_slot s = cluster_slot c base"
      "case resp of HttpOK code b \<Rightarrow> r = Inr b | HttpError code msg \<Rightarrow> \<exists>e. r = Inl e"
proof (cases "mget (clNodes c) base")
  case None
  then show thesis using that(1) assms(2) by (auto simp: client_do_def cluster_slot_def)
next
  case (Some s)
  then have "slot_ok s" using assms(1) by (auto simp: cluster_ok_def list_all_iff dest: map_of_SomeD)
  obtain resp s' where h: "handler s = (resp, s')" by (cases "handler s")
  then show thesis
    using that(2) [OF Some \<open>slot_ok s\<close> h] assms(2) Some
    by (cases resp) (auto simp: client_do_def cluster_slot_def)
qed

lemma cluster_put:
  "cluster_ok c \<Longrightarrow> slot_ok s \<Longrightarrow> cluster_ok (c\<lparr>clNodes := mput base s (clNodes c)\<rparr>)"
  "cluster_slot (c\<lparr>clNodes := mput base s (clNodes c)\<rparr>) = (cluster_slot c)(base := ws_slot s)"
  by (auto simp: cluster_ok_def cluster_slot_def list_all_mput)

lemma claimed_ok_outcome:
  "claimed_ok sid slot resp slot' \<Longrightarrow>
   claim_outcome sid slot (case resp of HttpOK _ _ \<Rightarrow> True | HttpError _ _ \<Rightarrow> False) slot'"
  by (cases resp) (auto simp: claim_outcome_def)

text \<open>The common part of boot and restore.\<close>

lemma claiming_call:
  assumes ok: "cluster_ok c"
    and handler: "\<And>s r s'. slot_ok s \<Longrightarrow> handler s = (r, s') \<Longrightarrow>
      slot_ok s' \<and> claimed_ok sid (ws_slot s) r (ws_slot s')"
    and call: "map_prod err_of (\<lambda>c. c) (client_do verb base path (routed sid handler) c) = (e, c')"
  shows "cluster_ok c' \<and> (\<exists>x. cluster_slot c' = (cluster_slot c)(base := x)
    \<and> claim_outcome sid (cluster_slot c base) (e = None) x)"
proof -
  obtain r where r: "client_do verb base path (routed sid handler) c = (r, c')" "e = err_of r"
    using call by (cases "client_do verb base path (routed sid handler) c") auto
  from ok r(1) show ?thesis
  proof (cases rule: client_do_result)
    case 1
    then show ?thesis using ok r(2)
      by (intro conjI exI [of _ "cluster_slot c base"]) (auto simp: err_of_def claim_outcome_def)
  next
    case (2 s resp s')
    have "slot_ok s' \<and> claimed_ok sid (ws_slot s) resp (ws_slot s')"
      using handler [OF 2(2)] 2(2,3) by (auto simp: routed_def split: if_splits)
    moreover have "(e = None) = (case resp of HttpOK _ _ \<Rightarrow> True | HttpError _ _ \<Rightarrow> False)"
      using 2(6) r(2) by (auto simp: err_of_def split: http_response.splits)
    ultimately show ?thesis
      using claimed_ok_outcome [of sid "ws_slot s" resp "ws_slot s'"] 2(4,5) ok
      by (auto simp: cluster_put)
  qed
qed

lemma reading_call:
  assumes ok: "cluster_ok c"
    and handler: "\<And>s r s'. slot_ok s \<Longrightarrow> handler s = (r, s') \<Longrightarrow> slot_ok s' \<and> ws_slot s' = ws_slot s"
    and call: "client_do verb base path handler c = (r, c')"
  shows "cluster_ok c' \<and> cluster_slot c' = cluster_slot c"
  using ok call
proof (cases rule: client_do_result)
  case 1
  then show ?thesis using ok by simp
next
  case (2 s resp s')
  then show ?thesis using handler [OF 2(2,3)] ok by (auto simp: cluster_put)
qed

interpretation http: worker_pool "http_workers H" cluster_ok cluster_slot for H :: "'h host_api"
proof
  fix c c' :: "'h cluster" and a sid path opts copts argv
  fix r :: "worker_status result" and rb :: "64 word result" and rl :: "bool result"
    and rx :: "string result" and e
  assume ok: "cluster_ok c"
  show "cluster_ok c' \<and> cluster_slot c' = cluster_slot c
      \<and> (\<forall>st. r = Inr st \<longrightarrow> stUsedSlots st = (if cluster_slot c a = None then 0 else 1))"
    if "wcStatus (http_workers H) a c = (r, c')"
  proof -
    have call: "client_do ''GET'' a ''/status'' handleStatus c = (r, c')"
      using that by (simp add: http_workers_def Client_Status_def)
    have "cluster_ok c' \<and> cluster_slot c' = cluster_slot c"
      by (rule reading_call [OF ok _ call]) (auto simp: status_slot)
    moreover from ok call
    have "\<forall>st. r = Inr st \<longrightarrow> stUsedSlots st = (if cluster_slot c a = None then 0 else 1)"
      by (cases rule: client_do_result) (auto simp: status_slot)
    ultimately show ?thesis by simp
  qed
  show "cluster_ok c' \<and> (\<exists>x. cluster_slot c' = (cluster_slot c)(a := x)
      \<and> claim_outcome sid (cluster_slot c a) (e = None) x)"
    if "wcBoot (http_workers H) a sid c = (e, c')"
    using that unfolding http_workers_def Client_Boot_def
    by (intro claiming_call [OF ok]) (auto dest: boot_slot)
  show "cluster_ok c' \<and> (\<exists>x. cluster_slot c' = (cluster_slot c)(a := x)
      \<and> claim_outcome sid (cluster_slot c a) (e = None) x)"
    if "wcRestore (http_workers H) a sid opts c = (e, c')"
    using that unfolding http_workers_def Client_Restore_def
    by (intro claiming_call [OF ok]) (auto dest: restore_slot)
  show "cluster_ok c' \<and> cluster_slot c' = (cluster_slot c)(a :=
      (case rb of Inl _ \<Rightarrow> cluster_slot c a | Inr _ \<Rightarrow> freed sid (cluster_slot c a)))"
    if "wcCheckpoint (http_workers H) a sid copts c = (rb, c')"
  proof -
    let ?h = "routed sid (handleCheckpoint H (clTransfer c) sid (Some (coImagePath copts, coObjectKey copts)))"
    have call: "client_do ''POST'' a (sandbox_url sid ''/checkpoint'') ?h c = (rb, c')"
      using that by (simp add: http_workers_def Client_Checkpoint_def)
    have slot: "slot_ok s' \<and> ws_slot s' =
        (case r of HttpOK _ _ \<Rightarrow> freed sid (ws_slot s) | HttpError _ _ \<Rightarrow> ws_slot s)"
      if "slot_ok s" "?h s = (r, s')" for s r s'
      using that by (auto simp: routed_def dest: checkpoint_slot split: if_splits)
    from ok call show ?thesis
    proof (cases rule: client_do_result)
      case 1
      then show ?thesis using ok by auto
    next
      case (2 s resp s')
      then show ?thesis using slot [OF 2(2,3)] ok
        by (auto simp: cluster_put split: http_response.splits)
    qed
  qed
  show "cluster_ok c' \<and> (cluster_slot c' = cluster_slot c
      \<or> cluster_slot c' = (cluster_slot c)(a := freed sid (cluster_slot c a)))"
    if del: "wcDelete (http_workers H) a sid c = (e, c')"
  proof -
    obtain u where call: "client_do ''DELETE'' a (sandbox_url sid '''') (routed sid (handleDelete H sid)) c
        = (u, c')"
      using del unfolding http_workers_def Client_Delete_def
      by (cases "client_do ''DELETE'' a (sandbox_url sid '''') (routed sid (handleDelete H sid)) c")
        auto
    have slot: "slot_ok s' \<and> (ws_slot s' = ws_slot s \<or> ws_slot s' = freed sid (ws_slot s))"
      if "slot_ok s" "routed sid (handleDelete H sid) s = (v, s')" for s v s'
      using that by (auto simp: routed_def dest: delete_slot split: if_splits)
    from ok call show ?thesis
    proof (cases rule: client_do_result)
      case 1
      then show ?thesis using ok by auto
    next
      case (2 s resp s')
      then show ?thesis using slot [OF 2(2,3)] ok by (auto simp: cluster_put)
    qed
  qed
  show "cluster_ok c' \<and> cluster_slot c' = cluster_slot c"
    if "wcLocalSnapshotExists (http_workers H) a path c = (rl, c')"
    using that unfolding http_workers_def Client_LocalSnapshotExists_def
    by (intro reading_call [OF ok]) (auto simp: handleLocalSnapshot_def split: if_splits)
  show "cluster_ok c' \<and> cluster_slot c' = cluster_slot c"
    if "wcExec (http_workers H) a sid argv c = (rx, c')"
    using that unfolding http_workers_def Client_Exec_def
    by (intro reading_call [OF ok]) (auto simp: routed_def dest: exec_slot split: if_splits)
qed

end
