(* ===== verification/SchedState.thy ===== *)
theory SchedState
  imports Policies SignalStore Store Metrics WorkerClient GoText
begin

text \<open>
  The state of the scheduler of \<open>internal/scheduler/scheduler.go\<close> and its small operations: the views
  it hands to the policy, the resume lobby (\<open>resumeWaiters\<close>) and the reservations of workers for
  restores in flight (\<open>restoreReserve\<close>).

  What does not change while the scheduler runs is the configuration \<open>sched_cfg\<close>. The readings of the
  clock, of the random generator and of the UUID generator are sequences in it, and the state counts
  the readings taken: a statement about every configuration covers every outcome of these sources.
  \<open>slog\<close> output is left out, except the decisions of \<open>logDecision\<close>.
\<close>

section \<open>State\<close>

record resume_waiter =
  rwSandbox :: sandbox
  rwSince :: gotime

record ('m, 'w) scheduler =
  sdStore :: 'm
  sdWorld :: 'w
  sdSignals :: "signal_store option"
  sdMetrics :: "metrics option"
  sdLog :: "decision list"
  sdResumeWaiters :: "(string, resume_waiter) gomap"
  sdRestoreReserve :: "(string, string) gomap"
  sdTick :: nat

record ('m, 'w) sched_cfg =
  cfStore :: "'m store_api"
  cfPolicy :: policy
  cfWorkers :: "'w worker_api"
  cfSnapRoot :: string
  cfNow :: "nat \<Rightarrow> gotime"
  cfDraw :: "nat \<Rightarrow> nat"
  cfUUID :: "nat \<Rightarrow> string"
  cfEnv :: environ

definition sched_New ::
    "'m \<Rightarrow> 'w \<Rightarrow> metrics option \<Rightarrow> signal_store option \<Rightarrow> ('m, 'w) scheduler" where
  "sched_New m w mt sg =
     \<lparr>sdStore = m, sdWorld = w, sdSignals = sg, sdMetrics = mt, sdLog = [], sdResumeWaiters = [],
      sdRestoreReserve = [], sdTick = 0\<rparr>"

text \<open>The snapshot root, with the default that \<open>New\<close> fills in.\<close>

definition snap_root :: "string \<Rightarrow> string" where
  "snap_root r = (if r = '''' then ''/var/lib/actordock/snapshots'' else r)"

section \<open>Readings\<close>

definition tick :: "('m, 'w) scheduler \<Rightarrow> ('m, 'w) scheduler" where
  "tick s = s\<lparr>sdTick := Suc (sdTick s)\<rparr>"

definition time_Now :: "('m, 'w) sched_cfg \<Rightarrow> ('m, 'w) scheduler \<Rightarrow> gotime \<times> ('m, 'w) scheduler" where
  "time_Now cfg s = (cfNow cfg (sdTick s), tick s)"

definition time_Since ::
    "('m, 'w) sched_cfg \<Rightarrow> gotime \<Rightarrow> ('m, 'w) scheduler \<Rightarrow> duration \<times> ('m, 'w) scheduler" where
  "time_Since cfg t s = (time_Sub (cfNow cfg (sdTick s)) t, tick s)"

definition rng_draw :: "('m, 'w) sched_cfg \<Rightarrow> ('m, 'w) scheduler \<Rightarrow> nat \<times> ('m, 'w) scheduler" where
  "rng_draw cfg s = (cfDraw cfg (sdTick s), tick s)"

definition uuid_NewString ::
    "('m, 'w) sched_cfg \<Rightarrow> ('m, 'w) scheduler \<Rightarrow> string \<times> ('m, 'w) scheduler" where
  "uuid_NewString cfg s = (cfUUID cfg (sdTick s), tick s)"

section \<open>Calls on the parts\<close>

definition on_metrics ::
    "(metrics option \<Rightarrow> metrics option) \<Rightarrow> ('m, 'w) scheduler \<Rightarrow> ('m, 'w) scheduler" where
  "on_metrics f s = s\<lparr>sdMetrics := f (sdMetrics s)\<rparr>"

text \<open>\<open>if s.signals != nil { s.signals.M(...) }\<close>.\<close>

definition on_signals ::
    "(signal_store \<Rightarrow> signal_store) \<Rightarrow> ('m, 'w) scheduler \<Rightarrow> ('m, 'w) scheduler" where
  "on_signals f s = s\<lparr>sdSignals := map_option f (sdSignals s)\<rparr>"

definition on_store ::
    "('m \<Rightarrow> go_error option \<times> 'm) \<Rightarrow> ('m, 'w) scheduler \<Rightarrow> go_error option \<times> ('m, 'w) scheduler" where
  "on_store f s = (case f (sdStore s) of (e, m) \<Rightarrow> (e, s\<lparr>sdStore := m\<rparr>))"

definition on_workers ::
    "('w \<Rightarrow> 'r \<times> 'w) \<Rightarrow> ('m, 'w) scheduler \<Rightarrow> 'r \<times> ('m, 'w) scheduler" where
  "on_workers f s = (case f (sdWorld s) of (r, w) \<Rightarrow> (r, s\<lparr>sdWorld := w\<rparr>))"

definition logDecision :: "decision \<Rightarrow> ('m, 'w) scheduler \<Rightarrow> ('m, 'w) scheduler" where
  "logDecision d s = s\<lparr>sdLog := sdLog s @ [d]\<rparr>"

definition PolicyName :: "('m, 'w) sched_cfg \<Rightarrow> string" where
  "PolicyName cfg = policy_Name (cfPolicy cfg)"

section \<open>Views\<close>

definition signalViews ::
    "gotime \<Rightarrow> ('m, 'w) scheduler \<Rightarrow> sandbox_sigs \<times> worker_sigs" where
  "signalViews now s =
     (case sdSignals s of
        None \<Rightarrow> (None, None)
      | Some g \<Rightarrow> (Some (ListSandboxes g now), Some (ListWorkers g now)))"

definition victimPhaseLock ::
    "('m, 'w) sched_cfg \<Rightarrow> string \<Rightarrow> ('m, 'w) scheduler \<Rightarrow>
     (string \<times> bool) \<times> ('m, 'w) scheduler" where
  "victimPhaseLock cfg victimID s =
     (if sdSignals s = None \<or> victimID = '''' then ((VictimPhaseUnknown, False), s)
      else
        let (now, s) = time_Now cfg s
        in case sig_get (fst (signalViews now s)) victimID of
             None \<Rightarrow> ((VictimPhaseUnknown, False), s)
           | Some sig \<Rightarrow>
               ((if smPhase (sgSemantic sig) \<noteq> '''' then smPhase (sgSemantic sig)
                 else VictimPhaseUnknown, smLock (sgSemantic sig)), s))"

definition sched_localPath :: "('m, 'w) sched_cfg \<Rightarrow> string \<Rightarrow> string \<Rightarrow> string" where
  "sched_localPath cfg workerID sandboxID = localPath (snap_root (cfSnapRoot cfg)) workerID sandboxID"

definition SandboxCounts ::
    "('m, 'w) sched_cfg \<Rightarrow> ('m, 'w) scheduler \<Rightarrow> (nat \<times> nat \<times> nat) result" where
  "SandboxCounts cfg s =
     (case stListSandboxes (cfStore cfg) (sdStore s) of
        Inl e \<Rightarrow> Inl e
      | Inr all \<Rightarrow> Inr (length (filter (\<lambda>sb. sbState sb = SandboxRunning) all),
                       length (filter (\<lambda>sb. sbState sb = SandboxPaused) all),
                       length (filter (\<lambda>sb. sbState sb = SandboxSuspended) all)))"

definition HealthyWorkers :: "('m, 'w) sched_cfg \<Rightarrow> ('m, 'w) scheduler \<Rightarrow> nat result" where
  "HealthyWorkers cfg s =
     (case stListWorkers (cfStore cfg) (sdStore s) of
        Inl e \<Rightarrow> Inl e
      | Inr all \<Rightarrow> Inr (length (filter wkHealthy all)))"

text \<open>The loop of \<open>healthyWorkers\<close>: each worker is asked for its status and the answer is stored.\<close>

fun refresh_workers ::
    "('m, 'w) sched_cfg \<Rightarrow> worker list \<Rightarrow> ('m, 'w) scheduler \<Rightarrow> worker list \<times> ('m, 'w) scheduler" where
  "refresh_workers cfg [] s = ([], s)"
| "refresh_workers cfg (w # ws) s =
     (case on_workers (wcStatus (cfWorkers cfg) (wkAddress w)) s of
        (Inl e, s) \<Rightarrow>
          let w = w\<lparr>wkHealthy := False, wkUsedSlots := 0\<rparr>;
              s = snd (on_store (stPutWorker (cfStore cfg) w) s)
          in refresh_workers cfg ws s
      | (Inr st, s) \<Rightarrow>
          let w = w\<lparr>wkHealthy := stHealthy st, wkUsedSlots := stUsedSlots st, wkMaxSlots := 1\<rparr>;
              s = snd (on_store (stPutWorker (cfStore cfg) w) s);
              (out, s) = refresh_workers cfg ws s
          in (if wkHealthy w then w # out else out, s))"

definition healthyWorkers ::
    "('m, 'w) sched_cfg \<Rightarrow> ('m, 'w) scheduler \<Rightarrow> worker list result \<times> ('m, 'w) scheduler" where
  "healthyWorkers cfg s =
     (case stListWorkers (cfStore cfg) (sdStore s) of
        Inl e \<Rightarrow> (Inl e, s)
      | Inr all \<Rightarrow> (case refresh_workers cfg all s of (out, s) \<Rightarrow> (Inr out, s)))"

definition running :: "('m, 'w) sched_cfg \<Rightarrow> ('m, 'w) scheduler \<Rightarrow> sandbox list result" where
  "running cfg s =
     (case stListSandboxes (cfStore cfg) (sdStore s) of
        Inl e \<Rightarrow> Inl e
      | Inr all \<Rightarrow> Inr (filter (\<lambda>sb. sbState sb = SandboxRunning) all))"

definition workerByID :: "worker list \<Rightarrow> string \<Rightarrow> worker option" where
  "workerByID workers wid = find (\<lambda>w. wkID w = wid) workers"

definition filterRunningOn :: "sandbox list \<Rightarrow> string \<Rightarrow> sandbox list" where
  "filterRunningOn run workerID = filter (\<lambda>sb. sbWorkerID sb = workerID) run"

section \<open>Reservations\<close>

definition reserveRestore :: "string \<Rightarrow> string \<Rightarrow> ('m, 'w) scheduler \<Rightarrow> ('m, 'w) scheduler" where
  "reserveRestore workerID sandboxID s =
     s\<lparr>sdRestoreReserve := mput workerID sandboxID (sdRestoreReserve s)\<rparr>"

definition clearRestoreReserve :: "string \<Rightarrow> string \<Rightarrow> ('m, 'w) scheduler \<Rightarrow> ('m, 'w) scheduler" where
  "clearRestoreReserve workerID sandboxID s =
     (if mget (sdRestoreReserve s) workerID = Some sandboxID
      then s\<lparr>sdRestoreReserve := mdel workerID (sdRestoreReserve s)\<rparr> else s)"

definition applyRestoreReserves ::
    "worker list \<Rightarrow> string \<Rightarrow> ('m, 'w) scheduler \<Rightarrow> worker list" where
  "applyRestoreReserves workers selfID s =
     (if length (sdRestoreReserve s) = 0 then workers
      else map (\<lambda>w. case mget (sdRestoreReserve s) (wkID w) of
             None \<Rightarrow> w
           | Some holder \<Rightarrow>
               if holder \<noteq> selfID
               then w\<lparr>wkUsedSlots := (if wkMaxSlots w < 1 then 1 else wkMaxSlots w)\<rparr>
               else w) workers)"

section \<open>The resume lobby\<close>

definition addResumeWaiter ::
    "('m, 'w) sched_cfg \<Rightarrow> sandbox \<Rightarrow> ('m, 'w) scheduler \<Rightarrow> ('m, 'w) scheduler" where
  "addResumeWaiter cfg sb s =
     (case mget (sdResumeWaiters s) (sbID sb) of
        Some w \<Rightarrow> s\<lparr>sdResumeWaiters := mput (sbID sb) (w\<lparr>rwSandbox := sb\<rparr>) (sdResumeWaiters s)\<rparr>
      | None \<Rightarrow>
          let (now, s) = time_Now cfg s
          in s\<lparr>sdResumeWaiters :=
                 mput (sbID sb) \<lparr>rwSandbox = sb, rwSince = now\<rparr> (sdResumeWaiters s)\<rparr>)"

definition removeResumeWaiter :: "string \<Rightarrow> ('m, 'w) scheduler \<Rightarrow> ('m, 'w) scheduler" where
  "removeResumeWaiter sid s = s\<lparr>sdResumeWaiters := mdel sid (sdResumeWaiters s)\<rparr>"

definition listResumeWaitState ::
    "('m, 'w) scheduler \<Rightarrow> sandbox list \<times> (string, gotime) gomap" where
  "listResumeWaitState s =
     (map (\<lambda>(_, w). rwSandbox w) (sdResumeWaiters s),
      map (\<lambda>(sid, w). (sid, rwSince w)) (sdResumeWaiters s))"

definition ensureKnockerTurn ::
    "('m, 'w) sched_cfg \<Rightarrow> sandbox \<Rightarrow> ('m, 'w) scheduler \<Rightarrow> go_error option \<times> ('m, 'w) scheduler" where
  "ensureKnockerTurn cfg sb s =
     (case cfPolicy cfg of
        SemanticScore ss \<Rightarrow>
          let (now, s) = time_Now cfg s;
              sandboxSig = fst (signalViews now s);
              (waiting, since) = listResumeWaitState s;
              (pnow, s) = time_Now cfg s
          in (RequireBestWaiter ss pnow
                \<lparr>rrSandbox = sb, rrWorkers = [], rrRunning = [], rrSandboxSignals = sandboxSig,
                 rrWorkerSignals = None, rrWaiting = waiting, rrWaitingSince = Some since\<rparr>, s)
      | _ \<Rightarrow> (None, s))"

section \<open>The wait limit\<close>

definition semanticWaitDuration :: "environ \<Rightarrow> duration" where
  "semanticWaitDuration env =
     (let v = env ''SEMANTIC_WAIT_SEC''
      in if v = '''' then 300 * second
         else case strconv_Atoi v of
           None \<Rightarrow> 300 * second
         | Some sec \<Rightarrow> if sec < 0 then 300 * second else wrap64 (sec * second))"

text \<open>\<open>Duration.String\<close>, for the text of an error.\<close>

function nat_String :: "nat \<Rightarrow> string" where
  "nat_String n = (if n < 10 then [char_of (48 + n)] else nat_String (n div 10) @ [char_of (48 + n mod 10)])"
  by auto
termination by (relation "measure id") auto

declare nat_String.simps [simp del]

definition trim_zeros :: "string \<Rightarrow> string" where
  "trim_zeros s = rev (dropWhile (\<lambda>c. c = CHR ''0'') (rev s))"

definition frac_String :: "nat \<Rightarrow> nat \<Rightarrow> string" where
  "frac_String v prec =
     (let ds = trim_zeros (map (\<lambda>i. char_of (48 + v div 10 ^ (prec - 1 - i) mod 10)) [0..<prec])
      in if ds = '''' then '''' else CHR ''.'' # ds)"

definition dur_String :: "duration \<Rightarrow> string" where
  "dur_String d =
     (if d = 0 then ''0s''
      else
        let u = nat (abs d);
            sign = (if d < 0 then ''-'' else '''');
            part = (\<lambda>unit_ns prec name. nat_String (u div unit_ns) @ frac_String (u mod unit_ns) prec @ name)
        in if u < 1000 then sign @ nat_String u @ ''ns''
           else if u < 1000000 then sign @ part 1000 3 [CHR 0xC2, CHR 0xB5, CHR ''s'']
           else if u < 1000000000 then sign @ part 1000000 6 ''ms''
           else
             let secs = u div 1000000000;
                 secp = nat_String (secs mod 60) @ frac_String (u mod 1000000000) 9 @ ''s'';
                 mins = secs div 60; hours = mins div 60
             in sign @ (if hours > 0 then nat_String hours @ ''h'' else '''')
                @ (if mins > 0 then nat_String (mins mod 60) @ ''m'' else '''') @ secp)"

end
