(* ===== verification/SchedLifecycle.thy ===== *)
theory SchedLifecycle
  imports SchedState
begin

text \<open>
  The lifecycle operations of the scheduler other than \<open>Resume\<close>: \<open>Create\<close>, \<open>EnsureGolden\<close>,
  \<open>pauseOrSuspend\<close> behind \<open>Pause\<close>, \<open>Suspend\<close> and eviction, \<open>Delete\<close>, \<open>Exec\<close>, \<open>Get\<close>, \<open>List\<close>, and the
  candidate workers of a resume. Each is a function on the scheduler state that returns its result
  and the new state; every early return of the source is a branch.
\<close>

section \<open>Create\<close>

definition Create ::
    "('m, 'w) sched_cfg \<Rightarrow> ('m, 'w) scheduler \<Rightarrow> sandbox result \<times> ('m, 'w) scheduler" where
  "Create cfg s =
     (let (now, s) = time_Now cfg s;
          (sid, s) = uuid_NewString cfg s;
          sb = zero_sandbox\<lparr>sbID := sid, sbState := SandboxSuspended, sbCreatedAt := now,
                            sbUpdatedAt := now\<rparr>
      in case on_store (stPutSandbox (cfStore cfg) sb) s of
           (Some e, s) \<Rightarrow> (Inl e, s)
         | (None, s) \<Rightarrow>
             let s = logDecision \<lparr>dcPolicy = PolicyName cfg, dcAction = ''create'', dcSandboxID = sid,
                       dcWorkerID = '''', dcVictimID = '''', dcReason = ''registered suspended''\<rparr> s;
                 s = on_metrics (RecordDecision ''create'' ''ok'' ''registered suspended'') s
             in (Inr sb, s))"

section \<open>Pause and Suspend\<close>

definition want_error :: "string \<Rightarrow> sandbox_state \<Rightarrow> string \<Rightarrow> go_error" where
  "want_error sid state want =
     Errorf (''sandbox '' @ sid @ '' is '' @ state_string state @ '', want '' @ want)"

text \<open>The sandbox record after a checkpoint.\<close>

definition checkpointed :: "string \<Rightarrow> string \<Rightarrow> bool \<Rightarrow> gotime \<Rightarrow> sandbox \<Rightarrow> sandbox" where
  "checkpointed path objectKey upload now sb =
     (let sb = sb\<lparr>sbLocalSnapshotPath := path, sbUpdatedAt := now\<rparr>
      in if upload
         then sb\<lparr>sbState := SandboxSuspended, sbObjectKey := objectKey,
                 sbSnapshotSource := SnapshotExternal\<rparr>
         else sb\<lparr>sbState := SandboxPaused, sbSnapshotSource := SnapshotLocal\<rparr>)"

text \<open>From the answer of the worker on: the measurements, the record, the marks.\<close>

definition after_checkpoint ::
    "('m, 'w) sched_cfg \<Rightarrow> string \<Rightarrow> bool \<Rightarrow> sandbox \<Rightarrow> worker \<Rightarrow> checkpoint_opts \<Rightarrow> gotime \<Rightarrow> 64 word \<Rightarrow>
     ('m, 'w) scheduler \<Rightarrow> sandbox result \<times> ('m, 'w) scheduler" where
  "after_checkpoint cfg sid upload sb w opts cpStart cpBytes s =
     (let mode = (if upload then ''suspend'' else ''pause'');
          (lat, s) = time_Since cfg cpStart s;
          s = on_metrics (RecordCheckpointLatency mode lat) s;
          (cost, s) = time_Since cfg cpStart s;
          (t1, s) = time_Now cfg s;
          (dur, s) = time_Since cfg cpStart s;
          (t2, s) = time_Now cfg s;
          s = on_signals (RecordCheckpoint sid
                (zero_snapshot\<lparr>snLastCheckpointBytes := cpBytes,
                   snLastPreemptCostSec := dur_Seconds cost, snLastCheckpointAt := t1,
                   snLastCheckpointDur := dur\<rparr>) t2) s;
          (now, s) = time_Now cfg s;
          sb = checkpointed (coImagePath opts) (coObjectKey opts) upload now sb
      in case on_store (stPutSandbox (cfStore cfg) sb) s of
           (Some e, s) \<Rightarrow> (Inl e, s)
         | (None, s) \<Rightarrow>
             let s = on_metrics (MarkSlotFreed sid (wkID w) now) s;
                 s = (if upload then on_signals (MarkSuspended sid now) s else s);
                 s = logDecision \<lparr>dcPolicy = PolicyName cfg, dcAction = mode, dcSandboxID = sid,
                       dcWorkerID = wkID w, dcVictimID = '''', dcReason = ''''\<rparr> s;
                 s = on_metrics (RecordDecision mode ''ok'' '''') s
             in (Inr sb, s))"

definition pauseOrSuspend ::
    "('m, 'w) sched_cfg \<Rightarrow> string \<Rightarrow> bool \<Rightarrow> ('m, 'w) scheduler \<Rightarrow>
     sandbox result \<times> ('m, 'w) scheduler" where
  "pauseOrSuspend cfg sid upload s =
     (case stGetSandbox (cfStore cfg) sid (sdStore s) of
        Inl e \<Rightarrow> (Inl e, s)
      | Inr sb \<Rightarrow>
          if sbState sb \<noteq> SandboxRunning then (Inl (want_error sid (sbState sb) ''running''), s)
          else case stGetWorker (cfStore cfg) (sbWorkerID sb) (sdStore s) of
            Inl e \<Rightarrow> (Inl e, s)
          | Inr w \<Rightarrow>
              let opts = \<lparr>coImagePath = sched_localPath cfg (wkID w) sid,
                          coObjectKey = (if upload then ObjectKeyFor sid else '''')\<rparr>;
                  (cpStart, s) = time_Now cfg s
              in case on_workers (wcCheckpoint (cfWorkers cfg) (wkAddress w) sid opts) s of
                   (Inl e, s) \<Rightarrow> (Inl e, s)
                 | (Inr cpBytes, s) \<Rightarrow> after_checkpoint cfg sid upload sb w opts cpStart cpBytes s)"

definition Pause ::
    "('m, 'w) sched_cfg \<Rightarrow> string \<Rightarrow> ('m, 'w) scheduler \<Rightarrow> sandbox result \<times> ('m, 'w) scheduler" where
  "Pause cfg sid = pauseOrSuspend cfg sid False"

definition Suspend ::
    "('m, 'w) sched_cfg \<Rightarrow> string \<Rightarrow> ('m, 'w) scheduler \<Rightarrow> sandbox result \<times> ('m, 'w) scheduler" where
  "Suspend cfg sid = pauseOrSuspend cfg sid True"

definition suspendLocked ::
    "('m, 'w) sched_cfg \<Rightarrow> string \<Rightarrow> ('m, 'w) scheduler \<Rightarrow> sandbox result \<times> ('m, 'w) scheduler" where
  "suspendLocked cfg sid = pauseOrSuspend cfg sid True"

section \<open>The golden snapshot\<close>

definition policy_call_Place ::
    "('m, 'w) sched_cfg \<Rightarrow> place_request \<Rightarrow> ('m, 'w) scheduler \<Rightarrow>
     place_result result \<times> ('m, 'w) scheduler" where
  "policy_call_Place cfg req s =
     (let (r, s) = rng_draw cfg s; (now, s) = time_Now cfg s
      in (policy_Place (cfPolicy cfg) r now req, s))"

text \<open>The eviction that makes room for the golden sandbox.\<close>

definition golden_evict ::
    "('m, 'w) sched_cfg \<Rightarrow> place_result \<Rightarrow> ('m, 'w) scheduler \<Rightarrow>
     go_error option \<times> ('m, 'w) scheduler" where
  "golden_evict cfg res s =
     (if plVictimID res = '''' then (None, s)
      else
        let (evictStart, s) = time_Now cfg s;
            ((phase, lock), s) = victimPhaseLock cfg (plVictimID res) s;
            s = on_signals (OnEvict (plVictimID res)) s
        in case suspendLocked cfg (plVictimID res) s of
             (Inl e, s) \<Rightarrow>
               (Some (Wrap ''ensure golden evict: '' e ''''),
                on_metrics (RecordDecision ''evict'' ''error'' (err_Error e)) s)
           | (Inr _, s) \<Rightarrow>
               let s = on_metrics (RecordEviction (plReason res) phase lock) s;
                   (cost, s) = time_Since cfg evictStart s
               in (None, on_metrics (RecordPreemptCost cost) s))"

text \<open>Boot the golden sandbox on the worker, checkpoint it into the object store, free the worker.\<close>

definition golden_build ::
    "('m, 'w) sched_cfg \<Rightarrow> worker \<Rightarrow> ('m, 'w) scheduler \<Rightarrow> string result \<times> ('m, 'w) scheduler" where
  "golden_build cfg w s =
     (let (u, s) = uuid_NewString cfg s;
          gid = ''golden-'' @ u;
          (t0, s) = time_Now cfg s;
          s = on_metrics (Metrics_MarkRunning gid (wkID w) t0) s
      in case on_workers (wcBoot (cfWorkers cfg) (wkAddress w) gid) s of
           (Some e, s) \<Rightarrow>
             let (t1, s) = time_Now cfg s
             in (Inl (Wrap ''golden boot: '' e ''''), on_metrics (MarkSlotFreed gid (wkID w) t1) s)
         | (None, s) \<Rightarrow>
             let opts = \<lparr>coImagePath = sched_localPath cfg (wkID w) gid, coObjectKey = goldenPrefix\<rparr>;
                 (cpStart, s) = time_Now cfg s
             in case on_workers (wcCheckpoint (cfWorkers cfg) (wkAddress w) gid opts) s of
                  (Inl e, s) \<Rightarrow>
                    let s = snd (on_workers (wcDelete (cfWorkers cfg) (wkAddress w) gid) s);
                        (t1, s) = time_Now cfg s
                    in (Inl (Wrap ''golden suspend: '' e ''''),
                        on_metrics (MarkSlotFreed gid (wkID w) t1) s)
                | (Inr _, s) \<Rightarrow>
                    let (lat, s) = time_Since cfg cpStart s;
                        s = on_metrics (RecordCheckpointLatency ''suspend'' lat) s;
                        (t1, s) = time_Now cfg s;
                        s = on_metrics (MarkSlotFreed gid (wkID w) t1) s
                    in case on_store (stPutGolden (cfStore cfg) goldenPrefix) s of
                         (Some e, s) \<Rightarrow> (Inl e, s)
                       | (None, s) \<Rightarrow> (Inr goldenPrefix, s))"

definition golden_place ::
    "('m, 'w) sched_cfg \<Rightarrow> ('m, 'w) scheduler \<Rightarrow> string result \<times> ('m, 'w) scheduler" where
  "golden_place cfg s =
     (case healthyWorkers cfg s of
        (Inl e, s) \<Rightarrow> (Inl e, s)
      | (Inr workers, s) \<Rightarrow>
          (case running cfg s of
             Inl e \<Rightarrow> (Inl e, s)
           | Inr run \<Rightarrow>
               let (decStart, s) = time_Now cfg s;
                   (sandboxSig, workerSig) = signalViews decStart s;
                   (res, s) = policy_call_Place cfg
                     \<lparr>prSandboxID = ''golden'', prWorkers = workers, prRunning = run,
                      prSandboxSignals = sandboxSig, prWorkerSignals = workerSig\<rparr> s;
                   (lat, s) = time_Since cfg decStart s;
                   s = on_metrics (RecordDecisionLatency lat) s
               in case res of
                    Inl e \<Rightarrow> (Inl (Wrap ''ensure golden place: '' e ''''),
                             on_metrics (RecordDecision ''place'' ''error'' (err_Error e)) s)
                  | Inr res \<Rightarrow>
                      (case golden_evict cfg res s of
                         (Some e, s) \<Rightarrow> (Inl e, s)
                       | (None, s) \<Rightarrow>
                           let action = (if plVictimID res \<noteq> '''' then ''evict'' else ''place'');
                               s = on_metrics (RecordDecision action ''ok'' (plReason res)) s
                           in case stGetWorker (cfStore cfg) (plWorkerID res) (sdStore s) of
                                Inl e \<Rightarrow> (Inl e, s)
                              | Inr w \<Rightarrow> golden_build cfg w s)))"

text \<open>
  The first test of \<open>EnsureGolden\<close> and the one under \<open>goldenMu\<close> are the same test on the same state
  here, as the whole call is one step.
\<close>

definition EnsureGolden ::
    "('m, 'w) sched_cfg \<Rightarrow> ('m, 'w) scheduler \<Rightarrow> string result \<times> ('m, 'w) scheduler" where
  "EnsureGolden cfg s =
     (case stGetGolden (cfStore cfg) (sdStore s) of
        Inr p \<Rightarrow> if p \<noteq> '''' then (Inr p, s) else golden_place cfg s
      | Inl _ \<Rightarrow> golden_place cfg s)"

section \<open>Delete, Exec, Get, List\<close>

definition Delete ::
    "('m, 'w) sched_cfg \<Rightarrow> string \<Rightarrow> ('m, 'w) scheduler \<Rightarrow> go_error option \<times> ('m, 'w) scheduler" where
  "Delete cfg sid s =
     (case stGetSandbox (cfStore cfg) sid (sdStore s) of
        Inl e \<Rightarrow> (Some e, s)
      | Inr sb \<Rightarrow>
          let s = (if sbState sb = SandboxRunning \<and> sbWorkerID sb \<noteq> '''' then
                     let s = (case stGetWorker (cfStore cfg) (sbWorkerID sb) (sdStore s) of
                                Inl _ \<Rightarrow> s
                              | Inr w \<Rightarrow> snd (on_workers (wcDelete (cfWorkers cfg) (wkAddress w) sid) s));
                         (now, s) = time_Now cfg s
                     in on_metrics (MarkSlotFreed sid (sbWorkerID sb) now) s
                   else s)
          in on_store (stDeleteSandbox (cfStore cfg) sid) s)"

definition Exec ::
    "('m, 'w) sched_cfg \<Rightarrow> string \<Rightarrow> string list \<Rightarrow> ('m, 'w) scheduler \<Rightarrow>
     string result \<times> ('m, 'w) scheduler" where
  "Exec cfg sid argv s =
     (case stGetSandbox (cfStore cfg) sid (sdStore s) of
        Inl e \<Rightarrow> (Inl e, s)
      | Inr sb \<Rightarrow>
          if sbState sb \<noteq> SandboxRunning then (Inl (want_error sid (sbState sb) ''running''), s)
          else case stGetWorker (cfStore cfg) (sbWorkerID sb) (sdStore s) of
            Inl e \<Rightarrow> (Inl e, s)
          | Inr w \<Rightarrow> on_workers (wcExec (cfWorkers cfg) (wkAddress w) sid argv) s)"

definition Get :: "('m, 'w) sched_cfg \<Rightarrow> string \<Rightarrow> ('m, 'w) scheduler \<Rightarrow> sandbox result" where
  "Get cfg sid s = stGetSandbox (cfStore cfg) sid (sdStore s)"

definition List_all :: "('m, 'w) sched_cfg \<Rightarrow> ('m, 'w) scheduler \<Rightarrow> sandbox list result" where
  "List_all cfg s = stListSandboxes (cfStore cfg) (sdStore s)"

section \<open>Candidates of a resume\<close>

text \<open>
  The sandbox's last worker when it is a candidate with a free slot and still has the image. Both
  arms of the source's \<open>if\<close>, for a local and for an external snapshot, are this test.
\<close>

definition sticky_with_image ::
    "('m, 'w) sched_cfg \<Rightarrow> sandbox \<Rightarrow> worker list \<Rightarrow> ('m, 'w) scheduler \<Rightarrow>
     worker option \<times> ('m, 'w) scheduler" where
  "sticky_with_image cfg sb workers s =
     (case workerByID workers (sbWorkerID sb) of
        None \<Rightarrow> (None, s)
      | Some sticky \<Rightarrow>
          if FreeSlots sticky > 0 then
            (case on_workers (wcLocalSnapshotExists (cfWorkers cfg) (wkAddress sticky)
                    (sbLocalSnapshotPath sb)) s of
               (Inl _, s) \<Rightarrow> (None, s)
             | (Inr exists, s) \<Rightarrow> (if exists then Some sticky else None, s))
          else (None, s))"

definition resumeCandidates ::
    "('m, 'w) sched_cfg \<Rightarrow> sandbox \<Rightarrow> ('m, 'w) scheduler \<Rightarrow>
     (worker list \<times> sandbox list) result \<times> ('m, 'w) scheduler" where
  "resumeCandidates cfg sb s =
     (case healthyWorkers cfg s of
        (Inl e, s) \<Rightarrow> (Inl e, s)
      | (Inr workers, s) \<Rightarrow>
          let workers = applyRestoreReserves workers (sbID sb) s
          in case running cfg s of
               Inl e \<Rightarrow> (Inl e, s)
             | Inr run \<Rightarrow>
                 if sbState sb = SandboxPaused then
                   (case workerByID workers (sbWorkerID sb) of
                      None \<Rightarrow> (Inl (Errorf (''paused sandbox requires sticky worker '' @ sbWorkerID sb)), s)
                    | Some sticky \<Rightarrow> (Inr ([sticky], filterRunningOn run (sbWorkerID sb)), s))
                 else if sbWorkerID sb \<noteq> ''''
                         \<and> sbSnapshotSource sb \<in> {SnapshotLocal, SnapshotExternal} then
                   (case sticky_with_image cfg sb workers s of
                      (Some sticky, s) \<Rightarrow> (Inr ([sticky], filterRunningOn run (sbWorkerID sb)), s)
                    | (None, s) \<Rightarrow> (Inr (workers, run), s))
                 else (Inr (workers, run), s))"

end
