(* ===== verification/SchedResume.thy ===== *)
theory SchedResume
  imports SchedLifecycle
begin

text \<open>
  \<open>Scheduler.Resume\<close> as a machine. A call of \<open>Resume\<close> gives up its locks and waits at several points,
  so it is a sequence of steps between which other calls may run: one test of \<open>awaitKnockerTurn\<close>, the
  closure under \<open>knockMu\<close>, the request to the worker, and the commit of the restored sandbox. The
  program counter \<open>resume_pc\<close> holds the local variables that are live at its point.

  A wait on \<open>time.After\<close> or \<open>ctx.Done\<close> is a step with a flag that says which of the two came.
\<close>

section \<open>Locals\<close>

record resume_call =
  ruID :: string
  ruSb :: sandbox
  ruPrevWorkerID :: string
  ruStart :: gotime
  ruWait :: duration
  ruDeadline :: gotime
  ruLastErr :: "go_error option"
  ruEntered :: bool
  ruDecStart :: gotime

record admission =
  adRes :: place_result
  adWorker :: worker
  adObjectKey :: string
  adLocalPath :: string
  adLocalOnly :: bool
  adUsedGolden :: bool

datatype resume_pc =
    AtTop resume_call
  | AtAwait resume_call sandbox
  | AtAwaitSleep resume_call sandbox
  | AtKnock resume_call
  | AtRefused resume_call
  | AtSleep resume_call
  | AtRestore resume_call admission
  | AtCommit resume_call admission string
  | Returned string "sandbox result"

section \<open>The parts of the loop body\<close>

text \<open>\<open>if cur, err := s.store.GetSandbox(ctx, id); err == nil { sb = cur; s.addResumeWaiter(sb) }\<close>.\<close>

definition reread ::
    "('m, 'w) sched_cfg \<Rightarrow> string \<Rightarrow> sandbox \<Rightarrow> ('m, 'w) scheduler \<Rightarrow> sandbox \<times> ('m, 'w) scheduler" where
  "reread cfg sid sb s =
     (case stGetSandbox (cfStore cfg) sid (sdStore s) of
        Inl _ \<Rightarrow> (sb, s)
      | Inr cur \<Rightarrow> (cur, addResumeWaiter cfg cur s))"

definition resume_begin ::
    "('m, 'w) sched_cfg \<Rightarrow> string \<Rightarrow> ('m, 'w) scheduler \<Rightarrow> resume_pc \<times> ('m, 'w) scheduler" where
  "resume_begin cfg sid s =
     (let (resumeStart, s) = time_Now cfg s
      in case stGetSandbox (cfStore cfg) sid (sdStore s) of
           Inl e \<Rightarrow> (Returned sid (Inl e), s)
         | Inr sb \<Rightarrow>
             if sbState sb \<noteq> SandboxSuspended \<and> sbState sb \<noteq> SandboxPaused
             then (Returned sid (Inl (want_error sid (sbState sb) ''suspended|paused'')), s)
             else
               let s = addResumeWaiter cfg sb s;
                   wait = semanticWaitDuration (cfEnv cfg);
                   (now, s) = time_Now cfg s;
                   (decStart, s) = time_Now cfg s
               in (AtTop \<lparr>ruID = sid, ruSb = sb, ruPrevWorkerID = sbWorkerID sb,
                          ruStart = resumeStart, ruWait = wait, ruDeadline = time_Add now wait,
                          ruLastErr = None, ruEntered = False, ruDecStart = decStart\<rparr>, s))"

text \<open>A return from \<open>Resume\<close> after the lobby was joined runs the deferred \<open>removeResumeWaiter\<close>.\<close>

definition resume_return ::
    "resume_call \<Rightarrow> sandbox result \<Rightarrow> ('m, 'w) scheduler \<Rightarrow> resume_pc \<times> ('m, 'w) scheduler" where
  "resume_return c r s = (Returned (ruID c) r, removeResumeWaiter (ruID c) s)"

definition waited :: "go_error \<Rightarrow> duration \<Rightarrow> go_error" where
  "waited e d = Wrap '''' e ('' (waited '' @ dur_String d @ '')'')"

text \<open>One turn of the loop in \<open>awaitKnockerTurn\<close> up to its \<open>select\<close>, with what \<open>Resume\<close> does on a return.\<close>

definition await_test ::
    "('m, 'w) sched_cfg \<Rightarrow> resume_call \<Rightarrow> sandbox \<Rightarrow> ('m, 'w) scheduler \<Rightarrow>
     resume_pc \<times> ('m, 'w) scheduler" where
  "await_test cfg c sb s =
     (case ensureKnockerTurn cfg sb s of
        (None, s) \<Rightarrow> (AtKnock c, s)
      | (Some e, s) \<Rightarrow>
          if \<not> errors_Is e ErrNotBestWaiter
          then resume_return c (Inl e) (on_metrics (RecordDecision ''resume'' ''error'' (err_Error e)) s)
          else
            let (now, s) = time_Now cfg s
            in if now > ruDeadline c
               then let e = waited ErrNotBestWaiter (semanticWaitDuration (cfEnv cfg))
                    in resume_return c (Inl e)
                         (on_metrics (RecordDecision ''resume'' ''error'' (err_Error e)) s)
               else (AtAwaitSleep c sb, s))"

text \<open>The \<open>select\<close> of \<open>awaitKnockerTurn\<close> and the re-read after it.\<close>

definition await_wake ::
    "('m, 'w) sched_cfg \<Rightarrow> bool \<Rightarrow> resume_call \<Rightarrow> sandbox \<Rightarrow> ('m, 'w) scheduler \<Rightarrow>
     resume_pc \<times> ('m, 'w) scheduler" where
  "await_wake cfg ctxDone c sb s =
     (if ctxDone
      then resume_return c (Inl CtxDone)
             (on_metrics (RecordDecision ''resume'' ''error'' (err_Error CtxDone)) s)
      else case reread cfg (sbID sb) sb s of (sb, s) \<Rightarrow> (AtAwait c sb, s))"

section \<open>The closure under knockMu\<close>

definition policy_call_Resume ::
    "('m, 'w) sched_cfg \<Rightarrow> resume_request \<Rightarrow> ('m, 'w) scheduler \<Rightarrow>
     place_result result \<times> ('m, 'w) scheduler" where
  "policy_call_Resume cfg req s =
     (let (r, s) = rng_draw cfg s; (now, s) = time_Now cfg s; (now', s) = time_Now cfg s
      in (policy_Resume (cfPolicy cfg) r now now' req, s))"

definition resume_evict ::
    "('m, 'w) sched_cfg \<Rightarrow> place_result \<Rightarrow> ('m, 'w) scheduler \<Rightarrow>
     go_error option \<times> ('m, 'w) scheduler" where
  "resume_evict cfg res s =
     (if plVictimID res = '''' then (None, s)
      else
        let (evictStart, s) = time_Now cfg s;
            ((phase, lock), s) = victimPhaseLock cfg (plVictimID res) s;
            s = on_signals (OnEvict (plVictimID res)) s
        in case suspendLocked cfg (plVictimID res) s of
             (Inl e, s) \<Rightarrow>
               (Some (Wrap (''evict '' @ plVictimID res @ '': '') e ''''),
                on_metrics (RecordDecision ''evict'' ''error'' (err_Error e)) s)
           | (Inr _, s) \<Rightarrow>
               let s = on_metrics (RecordEviction (plReason res) phase lock) s;
                   (cost, s) = time_Since cfg evictStart s;
                   s = on_metrics (RecordPreemptCost cost) s
               in (None, on_metrics (RecordDecision ''evict'' ''ok'' (plReason res)) s))"

text \<open>
  Where the state comes from: the local image of a pause, the object of a suspend, or the golden
  snapshot. The result is the object key, the local path, \<open>localOnly\<close> and \<open>usedGolden\<close>.
\<close>

definition resume_source ::
    "('m, 'w) sched_cfg \<Rightarrow> string \<Rightarrow> sandbox \<Rightarrow> worker \<Rightarrow> ('m, 'w) scheduler \<Rightarrow>
     (string \<times> string \<times> bool \<times> bool) result \<times> ('m, 'w) scheduler" where
  "resume_source cfg sid sb w s =
     (if sbState sb = SandboxPaused \<or> sbSnapshotSource sb = SnapshotLocal then
        let path = (if sbLocalSnapshotPath sb = '''' then sched_localPath cfg (wkID w) sid
                    else sbLocalSnapshotPath sb)
        in (Inr ('''', path, True, False), s)
      else if sbSnapshotSource sb = SnapshotExternal \<and> sbObjectKey sb \<noteq> '''' then
        let path = (if sbLocalSnapshotPath sb = '''' \<or> wkID w \<noteq> sbWorkerID sb
                    then sched_localPath cfg (wkID w) sid else sbLocalSnapshotPath sb)
        in (Inr (sbObjectKey sb, path, False, False), s)
      else case EnsureGolden cfg s of
        (Inl e, s) \<Rightarrow> (Inl e, s)
      | (Inr g, s) \<Rightarrow> (Inr (g, sched_localPath cfg (wkID w) sid, False, True), s))"

text \<open>From the policy's answer to the reservation.\<close>

definition knock_admit ::
    "('m, 'w) sched_cfg \<Rightarrow> resume_call \<Rightarrow> place_result \<Rightarrow> ('m, 'w) scheduler \<Rightarrow>
     admission result \<times> ('m, 'w) scheduler" where
  "knock_admit cfg c res s =
     (let s = (if ruEntered c
               then on_metrics (RecordSemanticStarvationWait StarvationResolved) s else s);
          (lat, s) = time_Since cfg (ruDecStart c) s;
          s = on_metrics (RecordDecisionLatency lat) s
      in case resume_evict cfg res s of
           (Some e, s) \<Rightarrow> (Inl e, s)
         | (None, s) \<Rightarrow>
             (case stGetWorker (cfStore cfg) (plWorkerID res) (sdStore s) of
                Inl e \<Rightarrow> (Inl e, s)
              | Inr w \<Rightarrow>
                  (case resume_source cfg (ruID c) (ruSb c) w s of
                     (Inl e, s) \<Rightarrow> (Inl e, s)
                   | (Inr (key, path, localOnly, usedGolden), s) \<Rightarrow>
                       (Inr \<lparr>adRes = res, adWorker = w, adObjectKey = key, adLocalPath = path,
                             adLocalOnly = localOnly, adUsedGolden = usedGolden\<rparr>,
                        reserveRestore (wkID w) (ruID c) s))))"

definition knock_decide ::
    "('m, 'w) sched_cfg \<Rightarrow> resume_call \<Rightarrow> ('m, 'w) scheduler \<Rightarrow>
     admission result \<times> ('m, 'w) scheduler" where
  "knock_decide cfg c s =
     (case ensureKnockerTurn cfg (ruSb c) s of
        (Some e, s) \<Rightarrow> (Inl e, s)
      | (None, s) \<Rightarrow>
          (case resumeCandidates cfg (ruSb c) s of
             (Inl e, s) \<Rightarrow> (Inl e, s)
           | (Inr (workers, run), s) \<Rightarrow>
               let (now, s) = time_Now cfg s;
                   (sandboxSig, workerSig) = signalViews now s;
                   (waiting, since) = listResumeWaitState s;
                   (res, s) = policy_call_Resume cfg
                     \<lparr>rrSandbox = ruSb c, rrWorkers = workers, rrRunning = run,
                      rrSandboxSignals = sandboxSig, rrWorkerSignals = workerSig,
                      rrWaiting = waiting, rrWaitingSince = Some since\<rparr> s
               in case res of
                    Inl e \<Rightarrow> (Inl e, s)
                  | Inr res \<Rightarrow> knock_admit cfg c res s))"

text \<open>The whole closure: the sandbox is read again under the lock, then the decision is taken.\<close>

definition knock ::
    "('m, 'w) sched_cfg \<Rightarrow> resume_call \<Rightarrow> ('m, 'w) scheduler \<Rightarrow> resume_pc \<times> ('m, 'w) scheduler" where
  "knock cfg c s =
     (let (sb, s) = reread cfg (ruID c) (ruSb c) s; c = c\<lparr>ruSb := sb\<rparr>
      in case knock_decide cfg c s of
           (Inl e, s) \<Rightarrow> (AtRefused (c\<lparr>ruLastErr := Some e\<rparr>), s)
         | (Inr adm, s) \<Rightarrow> (AtRestore (c\<lparr>ruLastErr := None\<rparr>) adm, s))"

section \<open>After the closure\<close>

text \<open>
  \<open>if !admitted\<close>: wait and retry, or return. The error is \<open>lastErr\<close>, which the closure always sets
  when it does not admit.
\<close>

definition refused ::
    "('m, 'w) sched_cfg \<Rightarrow> resume_call \<Rightarrow> ('m, 'w) scheduler \<Rightarrow> resume_pc \<times> ('m, 'w) scheduler" where
  "refused cfg c s =
     (let e = (case ruLastErr c of None \<Rightarrow> Errorf ''resume: not admitted'' | Some e \<Rightarrow> e);
          c = c\<lparr>ruLastErr := Some e\<rparr>
      in if errors_Is e ErrNotBestWaiter then (AtSleep c, s)
         else if \<not> resumeRetryable (Some e) \<or> ruWait c \<le> 0
         then resume_return c (Inl e) (on_metrics (RecordDecision ''resume'' ''error'' (err_Error e)) s)
         else
           let enter = (errors_Is e ErrAllSemanticLocked \<and> \<not> ruEntered c);
               c = (if enter then c\<lparr>ruEntered := True\<rparr> else c);
               s = (if enter then on_metrics (RecordSemanticStarvationWait StarvationEnter) s else s);
               (now, s) = time_Now cfg s
           in if now > ruDeadline c then
                let s = (if ruEntered c
                         then on_metrics (RecordSemanticStarvationWait StarvationTimeout) s else s);
                    out = waited e (ruWait c)
                in resume_return c (Inl out)
                     (on_metrics (RecordDecision ''resume'' ''error'' (err_Error out)) s)
              else (AtSleep c, s))"

definition sleep_wake ::
    "bool \<Rightarrow> resume_call \<Rightarrow> ('m, 'w) scheduler \<Rightarrow> resume_pc \<times> ('m, 'w) scheduler" where
  "sleep_wake ctxDone c s = (if ctxDone then resume_return c (Inl CtxDone) s else (AtTop c, s))"

definition resume_path :: "resume_call \<Rightarrow> admission \<Rightarrow> string" where
  "resume_path c a =
     ClassifyResumePath (ruPrevWorkerID c) (wkID (adWorker a)) (adLocalOnly a) (adObjectKey a)
       (adUsedGolden a)"

definition path_action :: "string \<Rightarrow> string" where
  "path_action path =
     (if path = PathStickyLocal then ''sticky''
      else if path = PathGoldenCold then ''place'' else ''migrate'')"

text \<open>The request to the worker, outside \<open>knockMu\<close>.\<close>

definition do_restore ::
    "('m, 'w) sched_cfg \<Rightarrow> resume_call \<Rightarrow> admission \<Rightarrow> ('m, 'w) scheduler \<Rightarrow>
     resume_pc \<times> ('m, 'w) scheduler" where
  "do_restore cfg c a s =
     (let path = resume_path c a;
          s = on_metrics (RecordDecision (path_action path) ''ok'' (plReason (adRes a))) s;
          (d, s) = time_Since cfg (ruStart c) s;
          s = on_metrics (RecordResumeWait d) s;
          opts = \<lparr>roImagePath = adLocalPath a, roObjectKey = adObjectKey a\<rparr>;
          (restoreStart, s) = time_Now cfg s
      in case on_workers (wcRestore (cfWorkers cfg) (wkAddress (adWorker a)) (ruID c) opts) s of
           (Some e, s) \<Rightarrow>
             resume_return c (Inl e) (clearRestoreReserve (wkID (adWorker a)) (ruID c) s)
         | (None, s) \<Rightarrow>
             let (lat, s) = time_Since cfg restoreStart s;
                 s = on_metrics (RecordRestoreLatency path lat) s;
                 (t1, s) = time_Now cfg s;
                 (dur, s) = time_Since cfg restoreStart s;
                 (t2, s) = time_Now cfg s;
                 s = on_signals (RecordRestore (ruID c) t1 dur t2) s
             in (AtCommit c a path, s))"

definition do_commit ::
    "('m, 'w) sched_cfg \<Rightarrow> resume_call \<Rightarrow> admission \<Rightarrow> string \<Rightarrow> ('m, 'w) scheduler \<Rightarrow>
     resume_pc \<times> ('m, 'w) scheduler" where
  "do_commit cfg c a path s =
     (let sid = ruID c; wid = wkID (adWorker a);
          (now, s) = time_Now cfg s;
          sb = (ruSb c)\<lparr>sbState := SandboxRunning, sbWorkerID := wid,
                 sbLocalSnapshotPath := adLocalPath a, sbUpdatedAt := now\<rparr>
      in case on_store (stPutSandbox (cfStore cfg) sb) s of
           (Some e, s) \<Rightarrow> resume_return c (Inl e) (clearRestoreReserve wid sid s)
         | (None, s) \<Rightarrow>
             let s = clearRestoreReserve wid sid s;
                 s = on_metrics (Metrics_MarkRunning sid wid now) s;
                 s = on_signals (MarkRunning sid now) s;
                 s = on_metrics (RecordResumePath path) s;
                 (lat, s) = time_Since cfg (ruStart c) s;
                 s = on_metrics (RecordResumeLatency path lat) s;
                 s = logDecision \<lparr>dcPolicy = PolicyName cfg, dcAction = ''resume'', dcSandboxID = sid,
                       dcWorkerID = wid, dcVictimID = plVictimID (adRes a),
                       dcReason = plReason (adRes a)\<rparr> s
             in resume_return c (Inr sb) s)"

section \<open>The machine\<close>

fun resume_step ::
    "('m, 'w) sched_cfg \<Rightarrow> bool \<Rightarrow> resume_pc \<Rightarrow> ('m, 'w) scheduler \<Rightarrow>
     resume_pc \<times> ('m, 'w) scheduler" where
  "resume_step cfg ctxDone (AtTop c) s =
     (case reread cfg (ruID c) (ruSb c) s of (sb, s) \<Rightarrow> (AtAwait (c\<lparr>ruSb := sb\<rparr>) sb, s))"
| "resume_step cfg ctxDone (AtAwait c sb) s = await_test cfg c sb s"
| "resume_step cfg ctxDone (AtAwaitSleep c sb) s = await_wake cfg ctxDone c sb s"
| "resume_step cfg ctxDone (AtKnock c) s = knock cfg c s"
| "resume_step cfg ctxDone (AtRefused c) s = refused cfg c s"
| "resume_step cfg ctxDone (AtSleep c) s = sleep_wake ctxDone c s"
| "resume_step cfg ctxDone (AtRestore c a) s = do_restore cfg c a s"
| "resume_step cfg ctxDone (AtCommit c a path) s = do_commit cfg c a path s"
| "resume_step cfg ctxDone (Returned sid r) s = (Returned sid r, s)"

text \<open>A call that is never cancelled and runs alone, for at most \<open>n\<close> steps.\<close>

fun resume_run ::
    "('m, 'w) sched_cfg \<Rightarrow> nat \<Rightarrow> resume_pc \<times> ('m, 'w) scheduler \<Rightarrow> resume_pc \<times> ('m, 'w) scheduler" where
  "resume_run cfg 0 ps = ps"
| "resume_run cfg (Suc n) ps = resume_run cfg n (resume_step cfg False (fst ps) (snd ps))"

definition Resume ::
    "('m, 'w) sched_cfg \<Rightarrow> nat \<Rightarrow> string \<Rightarrow> ('m, 'w) scheduler \<Rightarrow>
     sandbox result option \<times> ('m, 'w) scheduler" where
  "Resume cfg fuel sid s =
     (case resume_run cfg fuel (resume_begin cfg sid s) of
        (Returned _ r, s) \<Rightarrow> (Some r, s)
      | (_, s) \<Rightarrow> (None, s))"

end
