(* ===== verification/SchedEnv.thy ===== *)
theory SchedEnv
  imports SchedResume
begin

text \<open>
  The scheduler over a metadata store and a worker pool that keep their contracts: what each operation
  may do to the stored sandboxes, the addresses of the workers and the slots. The relation \<open>evolves\<close>
  is the part all operations but the restore and the commit of a resume share; it composes, so the
  long operations follow from their parts.
\<close>

section \<open>Frame facts\<close>

text \<open>The part of the state that the invariants look at.\<close>

definition core :: "('m, 'w) scheduler \<Rightarrow> 'm \<times> 'w \<times> (string, string) gomap" where
  "core s = (sdStore s, sdWorld s, sdRestoreReserve s)"

lemma core_sel: "core s' = core s \<longleftrightarrow>
    sdStore s' = sdStore s \<and> sdWorld s' = sdWorld s \<and> sdRestoreReserve s' = sdRestoreReserve s"
  by (simp add: core_def)

lemma frame_sel [simp]:
  "sdStore (tick s) = sdStore s" "sdWorld (tick s) = sdWorld s"
  "sdRestoreReserve (tick s) = sdRestoreReserve s"
  "sdStore (on_metrics f s) = sdStore s" "sdWorld (on_metrics f s) = sdWorld s"
  "sdRestoreReserve (on_metrics f s) = sdRestoreReserve s"
  "sdStore (on_signals g s) = sdStore s" "sdWorld (on_signals g s) = sdWorld s"
  "sdRestoreReserve (on_signals g s) = sdRestoreReserve s"
  "sdStore (logDecision d s) = sdStore s" "sdWorld (logDecision d s) = sdWorld s"
  "sdRestoreReserve (logDecision d s) = sdRestoreReserve s"
  "sdStore (removeResumeWaiter sid s) = sdStore s" "sdWorld (removeResumeWaiter sid s) = sdWorld s"
  "sdRestoreReserve (removeResumeWaiter sid s) = sdRestoreReserve s"
  "sdStore (addResumeWaiter cfg sb s) = sdStore s" "sdWorld (addResumeWaiter cfg sb s) = sdWorld s"
  "sdRestoreReserve (addResumeWaiter cfg sb s) = sdRestoreReserve s"
  "sdStore (reserveRestore wid sid s) = sdStore s" "sdWorld (reserveRestore wid sid s) = sdWorld s"
  "sdStore (clearRestoreReserve wid sid s) = sdStore s"
  "sdWorld (clearRestoreReserve wid sid s) = sdWorld s"
  by (simp_all add: tick_def on_metrics_def on_signals_def logDecision_def removeResumeWaiter_def
      addResumeWaiter_def reserveRestore_def clearRestoreReserve_def time_Now_def split: option.split)

lemma core_frame [simp]:
  "core (tick s) = core s" "core (on_metrics f s) = core s" "core (on_signals g s) = core s"
  "core (logDecision d s) = core s" "core (removeResumeWaiter sid s) = core s"
  "core (addResumeWaiter cfg sb s) = core s"
  by (simp_all add: core_def)

lemmas reading_defs = time_Now_def time_Since_def rng_draw_def uuid_NewString_def

lemma victimPhaseLock_core [simp]: "core (snd (victimPhaseLock cfg v s)) = core s"
  by (simp add: victimPhaseLock_def time_Now_def split: option.split)

lemma ensureKnockerTurn_core [simp]: "core (snd (ensureKnockerTurn cfg sb s)) = core s"
  by (cases "cfPolicy cfg") (simp_all add: ensureKnockerTurn_def reading_defs Let_def split_def)

lemma reread_core [simp]: "core (snd (reread cfg sid sb s)) = core s"
  by (simp add: reread_def split: sum.split)

lemma policy_call_core [simp]:
  "core (snd (policy_call_Place cfg preq s)) = core s"
  "core (snd (policy_call_Resume cfg rreq s)) = core s"
  by (simp_all add: policy_call_Place_def policy_call_Resume_def reading_defs)

text \<open>
  The names that no sandbox of a client has: the empty one and those of golden sandboxes. UUIDs
  consist of hexadecimal digits and dashes.
\<close>

definition foreign_name :: "string \<Rightarrow> bool" where
  "foreign_name sid \<longleftrightarrow> sid = '''' \<or> prefix ''golden-'' sid"

definition is_running :: "sandbox \<Rightarrow> bool" where
  "is_running sb \<longleftrightarrow> sbState sb = SandboxRunning"

section \<open>The parts and their contracts\<close>

locale sched_env =
  metadata_store "cfStore cfg" mok sandboxes workers golden +
  worker_pool "cfWorkers cfg" wok slot
  for cfg :: "('m, 'w) sched_cfg" and mok sandboxes workers golden wok slot
begin

definition good :: "('m, 'w) scheduler \<Rightarrow> bool" where
  "good s \<longleftrightarrow> mok (sdStore s) \<and> wok (sdWorld s)"

definition sbs :: "('m, 'w) scheduler \<Rightarrow> string \<Rightarrow> sandbox option" where
  "sbs s = sandboxes (sdStore s)"

definition addr :: "('m, 'w) scheduler \<Rightarrow> string \<Rightarrow> string option" where
  "addr s wid = map_option wkAddress (workers (sdStore s) wid)"

definition slots :: "('m, 'w) scheduler \<Rightarrow> string \<Rightarrow> string option" where
  "slots s = slot (sdWorld s)"

text \<open>
  Nothing starts to run, no address changes, and a slot stays with the sandbox that holds it unless
  that sandbox has stopped running meanwhile or is a golden one.
\<close>

definition evolves :: "('m, 'w) scheduler \<Rightarrow> ('m, 'w) scheduler \<Rightarrow> bool" where
  "evolves s s' \<longleftrightarrow> good s' \<and> addr s' = addr s \<and> dom (sbs s') \<subseteq> dom (sbs s)
     \<and> (\<forall>sid sb. sbs s' sid = Some sb \<longrightarrow> is_running sb \<longrightarrow> sbs s sid = Some sb)
     \<and> (\<forall>a sid. slots s a = Some sid \<longrightarrow> \<not> foreign_name sid \<longrightarrow>
          (\<forall>sb. sbs s sid = Some sb \<longrightarrow> is_running sb \<longrightarrow> sbs s' sid = Some sb) \<longrightarrow>
          slots s' a = Some sid)"

lemma evolvesD:
  assumes "evolves s s'"
  shows "good s'" "addr s' = addr s" "dom (sbs s') \<subseteq> dom (sbs s)"
    "sbs s' sid = Some sb \<Longrightarrow> is_running sb \<Longrightarrow> sbs s sid = Some sb"
    "slots s a = Some sid \<Longrightarrow> \<not> foreign_name sid \<Longrightarrow>
     (\<And>sb. sbs s sid = Some sb \<Longrightarrow> is_running sb \<Longrightarrow> sbs s' sid = Some sb) \<Longrightarrow> slots s' a = Some sid"
  using assms unfolding evolves_def by blast+

lemma evolves_refl: "good s \<Longrightarrow> evolves s s"
  by (simp add: evolves_def)

lemma evolves_trans:
  assumes "evolves s s1" "evolves s1 s2"
  shows "evolves s s2"
proof -
  have run: "sbs s sid = Some sb" if "sbs s2 sid = Some sb" "is_running sb" for sid sb
    using assms that unfolding evolves_def by blast
  have "slots s2 a = Some sid"
    if a: "slots s a = Some sid" "\<not> foreign_name sid"
      and keep: "\<forall>sb. sbs s sid = Some sb \<longrightarrow> is_running sb \<longrightarrow> sbs s2 sid = Some sb" for a sid
  proof -
    have "\<forall>sb. sbs s sid = Some sb \<longrightarrow> is_running sb \<longrightarrow> sbs s1 sid = Some sb"
      using keep assms(2) unfolding evolves_def by blast
    then have "slots s1 a = Some sid" using a assms(1) unfolding evolves_def by blast
    moreover have "\<forall>sb. sbs s1 sid = Some sb \<longrightarrow> is_running sb \<longrightarrow> sbs s2 sid = Some sb"
      using keep assms(1) unfolding evolves_def by blast
    ultimately show ?thesis using a(2) assms(2) unfolding evolves_def by blast
  qed
  moreover have "good s2" "addr s2 = addr s" "dom (sbs s2) \<subseteq> dom (sbs s)"
    using evolvesD(1-3) [OF assms(1)] evolvesD(1-3) [OF assms(2)]
    by (metis subset_trans)+
  ultimately show ?thesis using run unfolding evolves_def by blast
qed

lemma core_views:
  assumes "core s' = core s"
  shows "good s' = good s" "sbs s' = sbs s" "addr s' = addr s" "slots s' = slots s"
    "sdRestoreReserve s' = sdRestoreReserve s"
  using assms by (simp_all add: core_sel good_def sbs_def addr_def slots_def fun_eq_iff)

lemma evolves_core: "good s \<Longrightarrow> core s' = core s \<Longrightarrow> evolves s s'"
  using evolves_refl [of s] core_views [of s' s] unfolding evolves_def by metis

lemma evolves_core_left: "evolves s s' \<Longrightarrow> core s = core t \<Longrightarrow> evolves t s'"
  using core_views [of s t] unfolding evolves_def by metis

lemma evolves_core_right: "evolves s s' \<Longrightarrow> core t = core s' \<Longrightarrow> evolves s t"
  using core_views [of t s'] unfolding evolves_def by metis

lemma evolves_good: "evolves s s' \<Longrightarrow> good s'"
  by (simp add: evolves_def)

section \<open>Writes and calls\<close>

lemma on_store_put_sandbox:
  assumes "good s" "on_store (stPutSandbox (cfStore cfg) sb) s = (e, s')"
  shows "e = None \<and> good s' \<and> sbs s' = (sbs s)(sbID sb \<mapsto> sb) \<and> addr s' = addr s
    \<and> slots s' = slots s \<and> sdRestoreReserve s' = sdRestoreReserve s"
proof -
  obtain m' where m': "stPutSandbox (cfStore cfg) sb (sdStore s) = (None, m')" "mok m'"
    "sandboxes m' = (sandboxes (sdStore s))(sbID sb \<mapsto> sb)" "workers m' = workers (sdStore s)"
    using put_sandbox [of "sdStore s" sb] assms(1) by (auto simp: good_def)
  then show ?thesis using assms
    by (auto simp: on_store_def good_def sbs_def addr_def slots_def fun_eq_iff)
qed

lemma on_store_del_sandbox:
  assumes "good s" "on_store (stDeleteSandbox (cfStore cfg) sid) s = (e, s')"
  shows "e = None \<and> good s' \<and> sbs s' = (sbs s)(sid := None) \<and> addr s' = addr s
    \<and> slots s' = slots s \<and> sdRestoreReserve s' = sdRestoreReserve s"
proof -
  obtain m' where m': "stDeleteSandbox (cfStore cfg) sid (sdStore s) = (None, m')" "mok m'"
    "sandboxes m' = (sandboxes (sdStore s))(sid := None)" "workers m' = workers (sdStore s)"
    using del_sandbox [of "sdStore s" sid] assms(1) by (auto simp: good_def)
  then show ?thesis using assms
    by (auto simp: on_store_def good_def sbs_def addr_def slots_def fun_eq_iff)
qed

lemma on_store_put_worker:
  assumes "good s" "on_store (stPutWorker (cfStore cfg) w) s = (e, s')"
  shows "good s' \<and> sbs s' = sbs s \<and> addr s' = (addr s)(wkID w \<mapsto> wkAddress w)
    \<and> workers (sdStore s') = (workers (sdStore s))(wkID w \<mapsto> w)
    \<and> slots s' = slots s \<and> sdRestoreReserve s' = sdRestoreReserve s"
proof -
  obtain m' where m': "stPutWorker (cfStore cfg) w (sdStore s) = (None, m')" "mok m'"
    "workers m' = (workers (sdStore s))(wkID w \<mapsto> w)" "sandboxes m' = sandboxes (sdStore s)"
    using put_worker [of "sdStore s" w] assms(1) by (auto simp: good_def)
  then show ?thesis using assms
    by (auto simp: on_store_def good_def sbs_def addr_def slots_def fun_eq_iff)
qed

lemma on_store_put_golden:
  assumes "good s" "on_store (stPutGolden (cfStore cfg) g) s = (e, s')" "g \<noteq> ''''"
  shows "e = None \<and> good s' \<and> sbs s' = sbs s \<and> addr s' = addr s \<and> slots s' = slots s
    \<and> golden (sdStore s') = g \<and> sdRestoreReserve s' = sdRestoreReserve s"
proof -
  obtain m' where m': "stPutGolden (cfStore cfg) g (sdStore s) = (None, m')" "mok m'"
    "golden m' = g" "sandboxes m' = sandboxes (sdStore s)" "workers m' = workers (sdStore s)"
    using put_golden [of "sdStore s" g] assms(1,3) by (auto simp: good_def)
  then show ?thesis using assms
    by (auto simp: on_store_def good_def sbs_def addr_def slots_def fun_eq_iff)
qed

lemma on_workers_views:
  assumes "on_workers f s = (r, s')" "f (sdWorld s) = (r, w')" "wok w'" "good s"
  shows "good s'" "sbs s' = sbs s" "addr s' = addr s" "slots s' = slot w'"
    "workers (sdStore s') = workers (sdStore s)" "sdRestoreReserve s' = sdRestoreReserve s"
  using assms by (auto simp: on_workers_def good_def sbs_def addr_def slots_def fun_eq_iff)

lemma on_workers_result: "on_workers f s = (r, s') \<Longrightarrow> f (sdWorld s) = (r, sdWorld s')"
  by (auto simp: on_workers_def split: prod.splits)

lemma same_slots_evolves:
  "good s' \<Longrightarrow> sbs s' = sbs s \<Longrightarrow> addr s' = addr s \<Longrightarrow> slots s' = slots s \<Longrightarrow> evolves s s'"
  by (simp add: evolves_def)

lemma exec_evolves:
  assumes "good s" "on_workers (wcExec (cfWorkers cfg) a sid argv) s = (r, s')"
  shows "evolves s s' \<and> sdRestoreReserve s' = sdRestoreReserve s"
proof -
  note r = on_workers_result [OF assms(2)]
  have w: "wok (sdWorld s')" "slot (sdWorld s') = slots s"
    using exec [OF _ r] assms(1) by (simp_all add: good_def slots_def)
  show ?thesis
    using on_workers_views [OF assms(2) r w(1) assms(1)] w by (auto intro: same_slots_evolves)
qed

lemma local_snapshot_evolves:
  assumes "good s" "on_workers (wcLocalSnapshotExists (cfWorkers cfg) a path) s = (r, s')"
  shows "evolves s s' \<and> slots s' = slots s \<and> sbs s' = sbs s
    \<and> workers (sdStore s') = workers (sdStore s) \<and> sdRestoreReserve s' = sdRestoreReserve s"
proof -
  note r = on_workers_result [OF assms(2)]
  have w: "wok (sdWorld s')" "slot (sdWorld s') = slots s"
    using local_snapshot [OF _ r] assms(1) by (simp_all add: good_def slots_def)
  show ?thesis
    using on_workers_views [OF assms(2) r w(1) assms(1)] w by (auto intro: same_slots_evolves)
qed

end

end
