(* ===== verification/SchedInvariants.thy ===== *)
theory SchedInvariants
  imports SchedEnv
begin

text \<open>
  What each operation of the scheduler does to the stored sandboxes and the slots, over parts that
  keep their contracts: the exact effect of a pause or suspend, and \<open>evolves\<close> for the rest.
\<close>

context sched_env
begin

section \<open>Worker refresh\<close>

text \<open>A candidate as \<open>healthyWorkers\<close> returns it: stored, healthy, its slot count the true one.\<close>

definition fresh_worker :: "('m, 'w) scheduler \<Rightarrow> worker \<Rightarrow> bool" where
  "fresh_worker s w \<longleftrightarrow> workers (sdStore s) (wkID w) = Some w \<and> wkHealthy w \<and> wkMaxSlots w = 1
     \<and> wkUsedSlots w = (if slots s (wkAddress w) = None then 0 else 1)"

lemma refresh_one:
  assumes "good s" "workers (sdStore s) (wkID w) = Some w"
    and st: "on_workers (wcStatus (cfWorkers cfg) (wkAddress w)) s = (r, s1)"
    and put: "on_store (stPutWorker (cfStore cfg) w') s1 = (e, s2)"
    and "wkID w' = wkID w" "wkAddress w' = wkAddress w"
  shows "good s2 \<and> sbs s2 = sbs s \<and> addr s2 = addr s \<and> slots s2 = slots s
    \<and> sdRestoreReserve s2 = sdRestoreReserve s
    \<and> workers (sdStore s2) = (workers (sdStore s))(wkID w \<mapsto> w')
    \<and> (\<forall>x. r = Inr x \<longrightarrow> stUsedSlots x = (if slots s (wkAddress w) = None then 0 else 1))"
proof -
  note r = on_workers_result [OF st]
  have w: "wok (sdWorld s1)" "slot (sdWorld s1) = slots s"
    "\<forall>x. r = Inr x \<longrightarrow> stUsedSlots x = (if slots s (wkAddress w) = None then 0 else 1)"
    using status [OF _ r] assms(1) by (simp_all add: good_def slots_def)
  note s1 = on_workers_views [OF st r w(1) assms(1)]
  have "(addr s)(wkID w \<mapsto> wkAddress w) = addr s"
    using assms(2) by (auto simp: addr_def)
  then show ?thesis
    using on_store_put_worker [OF s1(1) put] s1 w assms(5,6) by simp
qed

lemma refresh_workers_effect:
  assumes "good s" "distinct (map wkID ws)" "\<forall>w\<in>set ws. workers (sdStore s) (wkID w) = Some w"
    and "refresh_workers cfg ws s = (out, s')"
  shows "good s' \<and> sbs s' = sbs s \<and> addr s' = addr s \<and> slots s' = slots s
    \<and> sdRestoreReserve s' = sdRestoreReserve s
    \<and> (\<forall>wid. wid \<notin> wkID ` set ws \<longrightarrow> workers (sdStore s') wid = workers (sdStore s) wid)
    \<and> distinct (map wkID out) \<and> wkID ` set out \<subseteq> wkID ` set ws
    \<and> (\<forall>w\<in>set out. fresh_worker s' w)"
  using assms
proof (induction ws arbitrary: s out)
  case Nil
  then show ?case by simp
next
  case (Cons w ws)
  obtain r s1 where st: "on_workers (wcStatus (cfWorkers cfg) (wkAddress w)) s = (r, s1)"
    by (cases "on_workers (wcStatus (cfWorkers cfg) (wkAddress w)) s")
  define w' where "w' = (case r of Inl _ \<Rightarrow> w\<lparr>wkHealthy := False, wkUsedSlots := 0\<rparr>
    | Inr x \<Rightarrow> w\<lparr>wkHealthy := stHealthy x, wkUsedSlots := stUsedSlots x, wkMaxSlots := 1\<rparr>)"
  obtain e s2 where put: "on_store (stPutWorker (cfStore cfg) w') s1 = (e, s2)"
    by (cases "on_store (stPutWorker (cfStore cfg) w') s1")
  obtain out2 s3 where rest3: "refresh_workers cfg ws s2 = (out2, s3)"
    by (cases "refresh_workers cfg ws s2")
  have "s3 = s' \<and> out = (case r of Inl _ \<Rightarrow> out2 | Inr _ \<Rightarrow> if wkHealthy w' then w' # out2 else out2)"
    using Cons.prems(4) put rest3 by (cases r) (auto simp: st w'_def)
  then have rest: "refresh_workers cfg ws s2 = (out2, s')"
    and out: "out = (case r of Inl _ \<Rightarrow> out2 | Inr _ \<Rightarrow> if wkHealthy w' then w' # out2 else out2)"
    using rest3 by simp_all
  have w': "wkID w' = wkID w" "wkAddress w' = wkAddress w"
    by (simp_all add: w'_def split: sum.split)
  have "workers (sdStore s) (wkID w) = Some w" using Cons.prems(3) by simp
  note one = refresh_one [OF Cons.prems(1) this st put w']
  have new: "wkID w \<notin> wkID ` set ws" using Cons.prems(2) by simp
  have wk2: "workers (sdStore s2) = (workers (sdStore s))(wkID w \<mapsto> w')" using one by blast
  have "\<forall>u\<in>set ws. workers (sdStore s2) (wkID u) = Some u"
  proof
    fix u assume u: "u \<in> set ws"
    then have "wkID u \<noteq> wkID w" using new by (metis image_eqI)
    then show "workers (sdStore s2) (wkID u) = Some u" using Cons.prems(3) u by (simp add: wk2)
  qed
  moreover have "distinct (map wkID ws)" using Cons.prems(2) by simp
  ultimately have IH: "good s' \<and> sbs s' = sbs s2 \<and> addr s' = addr s2 \<and> slots s' = slots s2
    \<and> sdRestoreReserve s' = sdRestoreReserve s2
    \<and> (\<forall>wid. wid \<notin> wkID ` set ws \<longrightarrow> workers (sdStore s') wid = workers (sdStore s2) wid)
    \<and> distinct (map wkID out2) \<and> wkID ` set out2 \<subseteq> wkID ` set ws
    \<and> (\<forall>w\<in>set out2. fresh_worker s' w)"
    using Cons.IH [of s2 out2] one rest by blast
  have stored: "workers (sdStore s') (wkID w') = Some w'" using IH wk2 new w' by simp
  have "fresh_worker s' w'" if "r = Inr x" "wkHealthy w'" for x
    using stored that one IH w' by (simp add: fresh_worker_def w'_def)
  then have "\<forall>u\<in>set out. fresh_worker s' u"
    using IH out by (auto split: sum.splits if_splits)
  moreover have "distinct (map wkID out)" "wkID ` set out \<subseteq> wkID ` set (w # ws)"
    using IH out new w' by (auto split: sum.splits if_splits)
  ultimately show ?case using IH one by simp
qed

lemma healthyWorkers_effect:
  assumes "good s" "healthyWorkers cfg s = (r, s')"
  shows "good s' \<and> sbs s' = sbs s \<and> addr s' = addr s \<and> slots s' = slots s
    \<and> sdRestoreReserve s' = sdRestoreReserve s
    \<and> (\<forall>out. r = Inr out \<longrightarrow> distinct (map wkID out) \<and> (\<forall>w\<in>set out. fresh_worker s' w))"
proof -
  have m: "mok (sdStore s)" using assms(1) by (simp add: good_def)
  obtain l where l: "stListWorkers (cfStore cfg) (sdStore s) = Inr l" "distinct (map wkID l)"
    using list_workers [OF m] by blast
  have stored: "\<forall>w\<in>set l. workers (sdStore s) (wkID w) = Some w"
    using listed_worker_iff [OF m l(1)] by blast
  obtain out where "refresh_workers cfg l s = (out, s')" "r = Inr out"
    using assms(2) l(1) by (auto simp: healthyWorkers_def split: prod.splits)
  with refresh_workers_effect [OF assms(1) l(2) stored this(1)] show ?thesis by simp
qed

lemma healthyWorkers_evolves:
  assumes "good s" "healthyWorkers cfg s = (r, s')"
  shows "evolves s s'"
  using healthyWorkers_effect [OF assms] by (intro same_slots_evolves) simp_all

lemma running_effect:
  assumes "good s" "running cfg s = Inr run"
  shows "sb \<in> set run \<longleftrightarrow> sbs s (sbID sb) = Some sb \<and> is_running sb" and "distinct (map sbID run)"
proof -
  have m: "mok (sdStore s)" using assms(1) by (simp add: good_def)
  obtain l where l: "stListSandboxes (cfStore cfg) (sdStore s) = Inr l"
    "run = filter (\<lambda>sb. sbState sb = SandboxRunning) l"
    using assms(2) by (auto simp: running_def split: sum.splits)
  then show "sb \<in> set run \<longleftrightarrow> sbs s (sbID sb) = Some sb \<and> is_running sb"
    using listed_iff [OF m l(1)] by (auto simp: sbs_def is_running_def)
  show "distinct (map sbID run)"
    using listed_distinct [OF m l(1)] l(2) by (simp add: distinct_map_filter)
qed

section \<open>Pause, suspend, eviction\<close>

lemma get_running:
  assumes "good s" "stGetSandbox (cfStore cfg) sid (sdStore s) = Inr sb"
  shows "sbs s sid = Some sb" "sbID sb = sid"
  using assms get_sandbox sandbox_key by (auto simp: good_def sbs_def)

lemma get_worker_addr:
  assumes "good s" "stGetWorker (cfStore cfg) wid (sdStore s) = Inr w"
  shows "addr s wid = Some (wkAddress w)" "wkID w = wid"
  using assms get_worker worker_key by (auto simp: good_def addr_def)

lemma checkpointed_simps [simp]:
  "sbID (checkpointed path key up now sb) = sbID sb"
  "sbWorkerID (checkpointed path key up now sb) = sbWorkerID sb"
  "sbState (checkpointed path key up now sb) = (if up then SandboxSuspended else SandboxPaused)"
  "sbLocalSnapshotPath (checkpointed path key up now sb) = path"
  "sbSnapshotSource (checkpointed path key up now sb) = (if up then SnapshotExternal else SnapshotLocal)"
  "sbObjectKey (checkpointed path key up now sb) = (if up then key else sbObjectKey sb)"
  "sbCreatedAt (checkpointed path key up now sb) = sbCreatedAt sb"
  by (simp_all add: checkpointed_def Let_def)

lemma after_checkpoint_effect:
  assumes "good s" "after_checkpoint cfg sid up sb w opts t0 b s = (r, s')"
  shows "good s' \<and> addr s' = addr s \<and> slots s' = slots s \<and> sdRestoreReserve s' = sdRestoreReserve s
    \<and> (\<exists>now. r = Inr (checkpointed (coImagePath opts) (coObjectKey opts) up now sb)
         \<and> sbs s' = (sbs s)(sbID sb \<mapsto> checkpointed (coImagePath opts) (coObjectKey opts) up now sb))"
proof -
  let ?mode = "if up then ''suspend'' else ''pause''"
  let ?since = "\<lambda>i. time_Sub (cfNow cfg (sdTick s + i)) t0"
  define s1 where "s1 = on_signals (RecordCheckpoint sid
        (zero_snapshot\<lparr>snLastCheckpointBytes := b, snLastPreemptCostSec := dur_Seconds (?since 1),
           snLastCheckpointAt := cfNow cfg (sdTick s + 2), snLastCheckpointDur := ?since 3\<rparr>)
        (cfNow cfg (sdTick s + 4)))
      ((on_metrics (RecordCheckpointLatency ?mode (?since 0)) (tick s))\<lparr>sdTick := sdTick s + 5\<rparr>)"
  define now where "now = cfNow cfg (sdTick s + 5)"
  define sb' where "sb' = checkpointed (coImagePath opts) (coObjectKey opts) up now sb"
  obtain e s2 where put: "on_store (stPutSandbox (cfStore cfg) sb') (tick s1) = (e, s2)"
    by (cases "on_store (stPutSandbox (cfStore cfg) sb') (tick s1)")
  have "core (tick s1) = core s" by (simp add: s1_def core_def)
  note v = core_views [OF this]
  then have e: "e = None" "good s2" "sbs s2 = (sbs s)(sbID sb \<mapsto> sb')" "addr s2 = addr s"
    "slots s2 = slots s" "sdRestoreReserve s2 = sdRestoreReserve s"
    using on_store_put_sandbox [OF _ put] assms(1) by (simp_all add: sb'_def)
  have "r = Inr sb' \<and> core s' = core s2"
    using assms(2) put e(1)
    by (cases up) (auto simp: after_checkpoint_def reading_defs tick_def on_metrics_def
        on_signals_def Let_def s1_def now_def sb'_def core_def logDecision_def numeral_eq_Suc)
  then show ?thesis using core_views [of s' s2] e by (auto simp: sb'_def)
qed

lemma checkpoint_call_effect:
  assumes "good s" "on_workers (wcCheckpoint (cfWorkers cfg) a sid opts) s = (q, s')"
  shows "good s' \<and> sbs s' = sbs s \<and> addr s' = addr s \<and> sdRestoreReserve s' = sdRestoreReserve s
    \<and> slots s' = (slots s)(a := (case q of Inl _ \<Rightarrow> slots s a | Inr _ \<Rightarrow> freed sid (slots s a)))"
proof -
  note r = on_workers_result [OF assms(2)]
  have w: "wok (sdWorld s')" "slot (sdWorld s') =
      (slots s)(a := (case q of Inl _ \<Rightarrow> slots s a | Inr _ \<Rightarrow> freed sid (slots s a)))"
    using checkpoint [OF _ r] assms(1) unfolding good_def slots_def by blast+
  show ?thesis using on_workers_views [OF assms(2) r w(1) assms(1)] w by simp
qed

lemma pauseOrSuspend_effect:
  assumes "good s" "pauseOrSuspend cfg sid up s = (r, s')"
  shows "good s' \<and> addr s' = addr s \<and> sdRestoreReserve s' = sdRestoreReserve s
    \<and> (case r of
         Inl _ \<Rightarrow> sbs s' = sbs s \<and> slots s' = slots s
       | Inr sb' \<Rightarrow> \<exists>sb a now. sbs s sid = Some sb \<and> is_running sb \<and> addr s (sbWorkerID sb) = Some a
           \<and> sb' = checkpointed (sched_localPath cfg (sbWorkerID sb) sid)
               (if up then ObjectKeyFor sid else '''') up now sb
           \<and> sbs s' = (sbs s)(sid \<mapsto> sb')
           \<and> slots s' = (slots s)(a := freed sid (slots s a)))"
proof (cases "stGetSandbox (cfStore cfg) sid (sdStore s)")
  case (Inl e)
  then have "r = Inl e \<and> s' = s" using assms(2) by (simp add: pauseOrSuspend_def)
  then show ?thesis using assms(1) by simp
next
  case (Inr sb)
  note sb = get_running [OF assms(1) Inr]
  show ?thesis
  proof (cases "sbState sb = SandboxRunning \<and> (\<exists>w. stGetWorker (cfStore cfg) (sbWorkerID sb) (sdStore s) = Inr w)")
    case False
    then have "\<exists>e. r = Inl e \<and> s' = s" using assms(2) Inr
      by (cases "stGetWorker (cfStore cfg) (sbWorkerID sb) (sdStore s)")
        (auto simp: pauseOrSuspend_def split: if_splits)
    then show ?thesis using assms(1) by auto
  next
    case True
    then obtain w where run: "sbState sb = SandboxRunning"
      and w: "stGetWorker (cfStore cfg) (sbWorkerID sb) (sdStore s) = Inr w" by blast
    note a = get_worker_addr [OF assms(1) w]
    define opts where "opts = \<lparr>coImagePath = sched_localPath cfg (wkID w) sid,
      coObjectKey = (if up then ObjectKeyFor sid else '''')\<rparr>"
    obtain q s1 where call: "on_workers (wcCheckpoint (cfWorkers cfg) (wkAddress w) sid opts) (tick s) = (q, s1)"
      by (cases "on_workers (wcCheckpoint (cfWorkers cfg) (wkAddress w) sid opts) (tick s)")
    have tk: "core (tick s) = core s" by simp
    note v = core_views [OF tk]
    have gt: "good (tick s)" using v assms(1) by simp
    note s1 = checkpoint_call_effect [OF gt call, unfolded v]
    have body: "pauseOrSuspend cfg sid up s = (case q of Inl e \<Rightarrow> (Inl e, s1)
      | Inr b \<Rightarrow> after_checkpoint cfg sid up sb w opts (cfNow cfg (sdTick s)) b s1)"
      using Inr run w call
      by (cases up; cases q) (simp_all add: pauseOrSuspend_def time_Now_def opts_def)
    show ?thesis
    proof (cases q)
      case (Inl e)
      then have "r = Inl e" "s1 = s'" using assms(2) body by simp_all
      then show ?thesis using s1 Inl by simp
    next
      case (Inr b)
      then have "after_checkpoint cfg sid up sb w opts (cfNow cfg (sdTick s)) b s1 = (r, s')"
        using assms(2) body by simp
      from after_checkpoint_effect [OF conjunct1 [OF s1] this] show ?thesis
        using s1 a sb run Inr by (auto simp: opts_def is_running_def)
    qed
  qed
qed

lemma freed_other: "slots s a = Some x \<Longrightarrow> x \<noteq> sid \<Longrightarrow> ((slots s)(b := freed sid (slots s b))) a = Some x"
  by (auto simp: freed_def)

lemma pauseOrSuspend_evolves:
  assumes "good s" "pauseOrSuspend cfg sid up s = (r, s')"
  shows "evolves s s'"
proof (cases r)
  case (Inl e)
  then show ?thesis using pauseOrSuspend_effect [OF assms] by (intro same_slots_evolves) simp_all
next
  case (Inr sb')
  with pauseOrSuspend_effect [OF assms] obtain sb a now where
    eff: "sbs s sid = Some sb" "is_running sb" "good s'" "addr s' = addr s"
      "sbs s' = (sbs s)(sid \<mapsto> sb')" "slots s' = (slots s)(a := freed sid (slots s a))"
    and sb': "sb' = checkpointed (sched_localPath cfg (sbWorkerID sb) sid)
               (if up then ObjectKeyFor sid else '''') up now sb"
    by auto
  have stopped: "\<not> is_running sb'" by (simp add: sb' is_running_def)
  show ?thesis unfolding evolves_def
  proof (intro conjI allI impI)
    show "dom (sbs s') \<subseteq> dom (sbs s)" using eff by auto
    show "sbs s sid' = Some x" if "sbs s' sid' = Some x" "is_running x" for sid' x
      using that eff stopped by (auto split: if_splits)
    show "slots s' b = Some x"
      if "slots s b = Some x" "\<forall>sb. sbs s x = Some sb \<longrightarrow> is_running sb \<longrightarrow> sbs s' x = Some sb" for b x
    proof -
      have "x \<noteq> sid" using that(2) eff stopped by auto
      then show ?thesis using freed_other [OF that(1)] eff(6) by simp
    qed
  qed (use eff in simp_all)
qed

section \<open>Delete and Create\<close>

lemma delete_call_effect:
  assumes "good s" "on_workers (wcDelete (cfWorkers cfg) a sid) s = (e, s')"
  shows "good s' \<and> sbs s' = sbs s \<and> addr s' = addr s \<and> sdRestoreReserve s' = sdRestoreReserve s
    \<and> (slots s' = slots s \<or> slots s' = (slots s)(a := freed sid (slots s a)))"
proof -
  note r = on_workers_result [OF assms(2)]
  have w: "wok (sdWorld s')" "slot (sdWorld s') = slots s
      \<or> slot (sdWorld s') = (slots s)(a := freed sid (slots s a))"
    using delete [OF _ r] assms(1) by (auto simp: good_def slots_def)
  show ?thesis using on_workers_views [OF assms(2) r w(1) assms(1)] w by auto
qed

lemma Delete_evolves:
  assumes "good s" "Delete cfg sid s = (e, s')"
  shows "evolves s s' \<and> sdRestoreReserve s' = sdRestoreReserve s
    \<and> (sbs s' = sbs s \<or> sbs s' = (sbs s)(sid := None))"
proof (cases "stGetSandbox (cfStore cfg) sid (sdStore s)")
  case (Inl err)
  then show ?thesis using assms evolves_refl by (auto simp: Delete_def)
next
  case (Inr sb)
  define s1 where "s1 = (if sbState sb = SandboxRunning \<and> sbWorkerID sb \<noteq> '''' then
      let s = (case stGetWorker (cfStore cfg) (sbWorkerID sb) (sdStore s) of
                 Inl _ \<Rightarrow> s
               | Inr w \<Rightarrow> snd (on_workers (wcDelete (cfWorkers cfg) (wkAddress w) sid) s));
          (now, s) = time_Now cfg s
      in on_metrics (MarkSlotFreed sid (sbWorkerID sb) now) s
    else s)"
  have del: "on_store (stDeleteSandbox (cfStore cfg) sid) s1 = (e, s')"
    using assms(2) Inr by (simp add: Delete_def s1_def Let_def)
  have "good s1 \<and> sbs s1 = sbs s \<and> addr s1 = addr s \<and> sdRestoreReserve s1 = sdRestoreReserve s
    \<and> (slots s1 = slots s \<or> (\<exists>a. slots s1 = (slots s)(a := freed sid (slots s a))))"
  proof (cases "sbState sb = SandboxRunning \<and> sbWorkerID sb \<noteq> ''''
      \<and> (\<exists>w. stGetWorker (cfStore cfg) (sbWorkerID sb) (sdStore s) = Inr w)")
    case True
    then obtain w where w: "stGetWorker (cfStore cfg) (sbWorkerID sb) (sdStore s) = Inr w" by blast
    obtain x t where t: "on_workers (wcDelete (cfWorkers cfg) (wkAddress w) sid) s = (x, t)"
      by (cases "on_workers (wcDelete (cfWorkers cfg) (wkAddress w) sid) s")
    have "core s1 = core t" using True w t by (simp add: s1_def time_Now_def)
    then show ?thesis using delete_call_effect [OF assms(1) t] core_views [of s1 t] by auto
  next
    case False
    then have "core s1 = core s" by (auto simp: s1_def time_Now_def split: sum.splits)
    then show ?thesis using core_views [of s1 s] assms(1) by simp
  qed
  then have s1: "good s1" "sbs s1 = sbs s" "addr s1 = addr s" "sdRestoreReserve s1 = sdRestoreReserve s"
    and sl: "slots s1 = slots s \<or> (\<exists>a. slots s1 = (slots s)(a := freed sid (slots s a)))" by simp_all
  note d = on_store_del_sandbox [OF s1(1) del]
  have known: "sbs s sid = Some sb" using get_running [OF assms(1) Inr] by simp
  have "evolves s s'" unfolding evolves_def
  proof (intro conjI allI impI)
    show "slots s' b = Some x"
      if "slots s b = Some x" "\<forall>sb. sbs s x = Some sb \<longrightarrow> is_running sb \<longrightarrow> sbs s' x = Some sb" for b x
    proof (cases "x = sid \<and> is_running sb")
      case True
      then show ?thesis using that(2) known d s1 by auto
    next
      case False
      have "slots s1 = slots s" if "\<not> is_running sb"
        using that by (simp add: s1_def is_running_def)
      then show ?thesis using False sl that(1) d freed_other [OF that(1)] by (cases "x = sid") auto
    qed
  qed (use d s1 in \<open>auto split: if_splits\<close>)
  then show ?thesis using d s1 by simp
qed

lemma Create_effect:
  assumes "good s" "Create cfg s = (r, s')"
  shows "good s' \<and> addr s' = addr s \<and> slots s' = slots s \<and> sdRestoreReserve s' = sdRestoreReserve s
    \<and> (\<exists>n sb. r = Inr sb \<and> sbID sb = cfUUID cfg n \<and> sbState sb = SandboxSuspended
         \<and> sbs s' = (sbs s)(sbID sb \<mapsto> sb))"
proof -
  define sb where "sb = zero_sandbox\<lparr>sbID := cfUUID cfg (Suc (sdTick s)), sbState := SandboxSuspended,
    sbCreatedAt := cfNow cfg (sdTick s), sbUpdatedAt := cfNow cfg (sdTick s)\<rparr>"
  obtain e s1 where put: "on_store (stPutSandbox (cfStore cfg) sb) (tick (tick s)) = (e, s1)"
    by (cases "on_store (stPutSandbox (cfStore cfg) sb) (tick (tick s))")
  have "core (tick (tick s)) = core s" by simp
  note v = core_views [OF this]
  note p = on_store_put_sandbox [OF _ put]
  have p: "e = None \<and> good s1 \<and> sbs s1 = (sbs s)(sbID sb \<mapsto> sb) \<and> addr s1 = addr s
    \<and> slots s1 = slots s \<and> sdRestoreReserve s1 = sdRestoreReserve s"
    using p v assms(1) by simp
  have "r = Inr sb" "core s' = core s1"
    using assms(2) put p by (auto simp: Create_def reading_defs sb_def tick_def split: prod.splits)
  then show ?thesis using p core_views [of s' s1]
    by (auto simp: sb_def zero_sandbox_def intro!: exI [of _ "Suc (sdTick s)"])
qed

end

end
