(* ===== verification/SchedKnock.thy ===== *)
theory SchedKnock
  imports SchedInvariants
begin

text \<open>
  The long operations of the scheduler - the golden build, the eviction, the decision under
  \<open>knockMu\<close> - and the steps of a resume, as changes of the stored sandboxes, the slots and the
  reservations.
\<close>

context sched_env
begin

section \<open>Composition\<close>

definition calm :: "('m, 'w) scheduler \<Rightarrow> ('m, 'w) scheduler \<Rightarrow> bool" where
  "calm s s' \<longleftrightarrow> evolves s s' \<and> sdRestoreReserve s' = sdRestoreReserve s"

lemma calm_refl: "good s \<Longrightarrow> calm s s"
  by (simp add: calm_def evolves_refl)

lemma calm_good: "calm s s' \<Longrightarrow> good s'"
  unfolding calm_def using evolves_good by blast

lemma calm_trans: "calm s s1 \<Longrightarrow> calm s1 s2 \<Longrightarrow> calm s s2"
  unfolding calm_def using evolves_trans by metis

lemma calm_core: "good s \<Longrightarrow> core s' = core s \<Longrightarrow> calm s s'"
  unfolding calm_def using evolves_core core_views(5) by metis

lemma calm_then: "calm s s1 \<Longrightarrow> core s2 = core s1 \<Longrightarrow> calm s s2"
  using calm_trans calm_core calm_good by blast

lemma calm_from: "calm s1 s2 \<Longrightarrow> core s1 = core s \<Longrightarrow> calm s s2"
  unfolding calm_def using evolves_core_left core_views(5) by metis

lemma good_core: "good s \<Longrightarrow> core s' = core s \<Longrightarrow> good s'"
  using core_views(1) by blast

lemma calm_put_golden:
  assumes "good s" "on_store (stPutGolden (cfStore cfg) g) s = (e, s')" "g \<noteq> ''''"
  shows "calm s s'"
  using on_store_put_golden [OF assms] by (simp add: calm_def same_slots_evolves)

lemma calm_healthyWorkers: "good s \<Longrightarrow> healthyWorkers cfg s = (r, s') \<Longrightarrow> calm s s'"
  unfolding calm_def using healthyWorkers_evolves healthyWorkers_effect by blast

lemma calm_pauseOrSuspend: "good s \<Longrightarrow> pauseOrSuspend cfg sid up s = (r, s') \<Longrightarrow> calm s s'"
  unfolding calm_def using pauseOrSuspend_evolves pauseOrSuspend_effect by blast

lemma calm_Delete: "good s \<Longrightarrow> Delete cfg sid s = (e, s') \<Longrightarrow> calm s s'"
  unfolding calm_def using Delete_evolves by blast

lemma calm_slots:
  assumes "good s'" "sbs s' = sbs s" "addr s' = addr s" "sdRestoreReserve s' = sdRestoreReserve s"
    and "\<And>a sid. slots s a = Some sid \<Longrightarrow> \<not> foreign_name sid \<Longrightarrow> slots s' a = Some sid"
  shows "calm s s'"
  using assms by (simp add: calm_def evolves_def)

section \<open>Calls for a golden sandbox\<close>

lemma calm_boot_golden:
  assumes "good s" "on_workers (wcBoot (cfWorkers cfg) a gid) s = (e, s')" "foreign_name gid"
  shows "calm s s'"
proof -
  note r = on_workers_result [OF assms(2)]
  obtain x where w: "wok (sdWorld s')" "slot (sdWorld s') = (slots s)(a := x)"
    "claim_outcome gid (slots s a) (e = None) x"
    using boot [OF _ r] assms(1) unfolding good_def slots_def by blast
  note v = on_workers_views [OF assms(2) r w(1) assms(1)]
  show ?thesis
  proof (rule calm_slots [OF v(1-3,6)])
    fix b sid assume "slots s b = Some sid" "\<not> foreign_name sid"
    then show "slots s' b = Some sid"
      using assms(3) w(2,3) v(4) by (auto simp: claim_outcome_def split: if_splits)
  qed
qed

lemma calm_checkpoint_golden:
  assumes "good s" "on_workers (wcCheckpoint (cfWorkers cfg) a gid opts) s = (q, s')" "foreign_name gid"
  shows "calm s s'"
proof -
  note c = checkpoint_call_effect [OF assms(1,2)]
  show ?thesis
  proof (rule calm_slots)
    fix b sid assume "slots s b = Some sid" "\<not> foreign_name sid"
    then show "slots s' b = Some sid"
      using assms(3) c by (auto simp: freed_def split: sum.splits)
  qed (use c in simp_all)
qed

lemma calm_delete_golden:
  assumes "good s" "on_workers (wcDelete (cfWorkers cfg) a gid) s = (e, s')" "foreign_name gid"
  shows "calm s s'"
proof -
  note c = delete_call_effect [OF assms(1,2)]
  show ?thesis
  proof (rule calm_slots)
    fix b sid assume "slots s b = Some sid" "\<not> foreign_name sid"
    then show "slots s' b = Some sid"
      using assms(3) c by (auto simp: freed_def)
  qed (use c in simp_all)
qed

lemma golden_build_calm:
  assumes "good s" "golden_build cfg w s = (r, s')"
  shows "calm s s'"
proof -
  define gid where "gid = ''golden-'' @ cfUUID cfg (sdTick s)"
  have g: "foreign_name gid" by (simp add: foreign_name_def gid_def)
  define s0 where "s0 = on_metrics (Metrics_MarkRunning gid (wkID w) (cfNow cfg (sdTick (tick s)))) (tick (tick s))"
  have c0: "core s0 = core s" by (simp add: s0_def)
  note g0 = good_core [OF assms(1) c0]
  obtain e s1 where b: "on_workers (wcBoot (cfWorkers cfg) (wkAddress w) gid) s0 = (e, s1)"
    by (cases "on_workers (wcBoot (cfWorkers cfg) (wkAddress w) gid) s0")
  have c1: "calm s s1" by (rule calm_from [OF calm_boot_golden [OF g0 b g] c0])
  show ?thesis
  proof (cases e)
    case (Some err)
    then have "core s' = core s1" using assms(2) b
      by (auto simp: golden_build_def reading_defs s0_def gid_def)
    then show ?thesis by (rule calm_then [OF c1])
  next
    case None
    define opts where "opts = \<lparr>coImagePath = sched_localPath cfg (wkID w) gid, coObjectKey = goldenPrefix\<rparr>"
    obtain q s2 where ck: "on_workers (wcCheckpoint (cfWorkers cfg) (wkAddress w) gid opts) (tick s1) = (q, s2)"
      by (cases "on_workers (wcCheckpoint (cfWorkers cfg) (wkAddress w) gid opts) (tick s1)")
    have t1: "good (tick s1)" using good_core [OF calm_good [OF c1]] by simp
    have c2: "calm s s2"
      by (rule calm_trans [OF c1 calm_from [OF calm_checkpoint_golden [OF t1 ck g]]]) simp
    show ?thesis
    proof (cases q)
      case (Inl err)
      obtain x s3 where d: "on_workers (wcDelete (cfWorkers cfg) (wkAddress w) gid) s2 = (x, s3)"
        by (cases "on_workers (wcDelete (cfWorkers cfg) (wkAddress w) gid) s2")
      have "core s' = core s3"
        using assms(2) b None ck Inl d
        by (simp add: golden_build_def reading_defs s0_def gid_def opts_def) auto
      then show ?thesis
        by (rule calm_then [OF calm_trans [OF c2 calm_delete_golden [OF calm_good [OF c2] d g]]])
    next
      case (Inr cp)
      define s3 where "s3 = on_metrics (MarkSlotFreed gid (wkID w) (cfNow cfg (sdTick (tick s2))))
        (tick (on_metrics (RecordCheckpointLatency ''suspend''
           (time_Sub (cfNow cfg (sdTick s2)) (cfNow cfg (sdTick s1)))) (tick s2)))"
      obtain x s4 where p: "on_store (stPutGolden (cfStore cfg) goldenPrefix) s3 = (x, s4)"
        by (cases "on_store (stPutGolden (cfStore cfg) goldenPrefix) s3")
      have c3: "core s3 = core s2" by (simp add: s3_def)
      have tk: "sdTick (on_metrics f t) = sdTick t" for f and t :: "('m, 'w) scheduler"
        by (simp add: on_metrics_def)
      have "s' = s4"
        using assms(2) b None ck Inr p
        by (simp add: golden_build_def reading_defs s0_def gid_def opts_def s3_def tk
            split: option.splits)
      then show ?thesis
        using calm_trans [OF calm_then [OF c2 c3]
            calm_put_golden [OF good_core [OF calm_good [OF c2] c3] p goldenPrefix_nonempty]] by simp
    qed
  qed
qed

lemma core_of_snd: "f s = (r, s') \<Longrightarrow> core (snd (f s)) = core s \<Longrightarrow> core s' = core s"
  by simp

lemma golden_evict_calm:
  assumes "good s" "golden_evict cfg res s = (e, s')"
  shows "calm s s'"
proof (cases "plVictimID res = ''''")
  case True
  then show ?thesis using assms by (simp add: golden_evict_def calm_refl)
next
  case False
  obtain pl s1 where v: "victimPhaseLock cfg (plVictimID res) (tick s) = (pl, s1)"
    by (cases "victimPhaseLock cfg (plVictimID res) (tick s)")
  define s2 where "s2 = on_signals (OnEvict (plVictimID res)) s1"
  have c: "core s2 = core s" using core_of_snd [of "victimPhaseLock cfg (plVictimID res)", OF v]
    by (simp add: s2_def)
  obtain r s3 where sus: "suspendLocked cfg (plVictimID res) s2 = (r, s3)"
    by (cases "suspendLocked cfg (plVictimID res) s2")
  have "calm s s3"
    by (rule calm_from [OF calm_pauseOrSuspend [OF good_core [OF assms(1) c] sus [unfolded suspendLocked_def]] c])
  moreover have "core s' = core s3"
    using assms(2) False v sus
    by (cases pl; cases r) (auto simp: golden_evict_def reading_defs s2_def Let_def)
  ultimately show ?thesis by (rule calm_then)
qed

lemma golden_place_calm:
  assumes "good s" "golden_place cfg s = (r, s')"
  shows "calm s s'"
proof -
  obtain hw s1 where h: "healthyWorkers cfg s = (hw, s1)" by (cases "healthyWorkers cfg s")
  note c1 = calm_healthyWorkers [OF assms(1) h]
  show ?thesis
  proof (cases "(\<exists>e. hw = Inl e) \<or> (\<exists>e. running cfg s1 = Inl e)")
    case True
    then have "s' = s1" using assms(2) h by (auto simp: golden_place_def split: sum.splits)
    then show ?thesis using c1 by simp
  next
    case False
    then obtain ws run where ws: "hw = Inr ws" and run: "running cfg s1 = Inr run"
      by (cases hw; cases "running cfg s1") auto
    define req where "req = \<lparr>prSandboxID = ''golden'', prWorkers = ws, prRunning = run,
      prSandboxSignals = fst (signalViews (cfNow cfg (sdTick s1)) (tick s1)),
      prWorkerSignals = snd (signalViews (cfNow cfg (sdTick s1)) (tick s1))\<rparr>"
    obtain res s2 where pol: "policy_call_Place cfg req (tick s1) = (res, s2)"
      by (cases "policy_call_Place cfg req (tick s1)")
    define s3 where "s3 = on_metrics (RecordDecisionLatency
      (time_Sub (cfNow cfg (sdTick s2)) (cfNow cfg (sdTick s1)))) (tick s2)"
    have "core s3 = core s1"
      using core_of_snd [of "policy_call_Place cfg req", OF pol] by (simp add: s3_def)
    then have c3: "calm s s3" by (rule calm_then [OF c1])
    show ?thesis
    proof (cases res)
      case (Inl e)
      then have "core s' = core s3" using assms(2) h ws run pol
        by (simp add: golden_place_def reading_defs req_def s3_def split_def) auto
      then show ?thesis by (rule calm_then [OF c3])
    next
      case (Inr pl)
      obtain e s4 where ev: "golden_evict cfg pl s3 = (e, s4)" by (cases "golden_evict cfg pl s3")
      have c4: "calm s s4" by (rule calm_trans [OF c3 golden_evict_calm [OF calm_good [OF c3] ev]])
      define s5 where "s5 = on_metrics (RecordDecision (if plVictimID pl \<noteq> '''' then ''evict'' else ''place'')
        ''ok'' (plReason pl)) s4"
      have body: "(r, s') = (case e of Some e \<Rightarrow> (Inl e, s4)
        | None \<Rightarrow> (case stGetWorker (cfStore cfg) (plWorkerID pl) (sdStore s5) of
            Inl e \<Rightarrow> (Inl e, s5) | Inr w \<Rightarrow> golden_build cfg w s5))"
        using assms(2) h ws run pol Inr ev
        by (cases e) (auto simp: golden_place_def reading_defs req_def s3_def s5_def split_def Let_def
            split: sum.splits)
      have c5: "calm s s5" by (rule calm_then [OF c4]) (simp add: s5_def)
      show ?thesis
        using body c4 c5 calm_trans [OF c5 golden_build_calm [OF calm_good [OF c5]]]
        by (auto split: option.splits sum.splits dest: sym)
    qed
  qed
qed

lemma EnsureGolden_calm:
  assumes "good s" "EnsureGolden cfg s = (r, s')"
  shows "calm s s'"
  using assms golden_place_calm calm_refl
  by (auto simp: EnsureGolden_def split: sum.splits if_splits)

end

context sched_env
begin

section \<open>The parts of a resume\<close>

lemma resume_evict_calm:
  assumes "good s" "resume_evict cfg res s = (e, s')"
  shows "calm s s'"
proof (cases "plVictimID res = ''''")
  case True
  then show ?thesis using assms by (simp add: resume_evict_def calm_refl)
next
  case False
  obtain pl s1 where v: "victimPhaseLock cfg (plVictimID res) (tick s) = (pl, s1)"
    by (cases "victimPhaseLock cfg (plVictimID res) (tick s)")
  define s2 where "s2 = on_signals (OnEvict (plVictimID res)) s1"
  have c: "core s2 = core s" using core_of_snd [of "victimPhaseLock cfg (plVictimID res)", OF v]
    by (simp add: s2_def)
  obtain r s3 where sus: "suspendLocked cfg (plVictimID res) s2 = (r, s3)"
    by (cases "suspendLocked cfg (plVictimID res) s2")
  have "calm s s3"
    by (rule calm_from [OF calm_pauseOrSuspend [OF good_core [OF assms(1) c] sus [unfolded suspendLocked_def]] c])
  moreover have "core s' = core s3"
    using assms(2) False v sus
    by (cases pl; cases r) (auto simp: resume_evict_def reading_defs s2_def Let_def)
  ultimately show ?thesis by (rule calm_then)
qed

lemma sticky_with_image_calm:
  assumes "good s" "sticky_with_image cfg sb ws s = (r, s')"
  shows "calm s s'"
  using assms local_snapshot_evolves [OF assms(1)] calm_refl
  by (fastforce simp: sticky_with_image_def calm_def split: option.splits if_splits prod.splits sum.splits)

lemma resumeCandidates_calm:
  assumes "good s" "resumeCandidates cfg sb s = (r, s')"
  shows "calm s s'"
proof -
  obtain hw s1 where h: "healthyWorkers cfg s = (hw, s1)" by (cases "healthyWorkers cfg s")
  note c1 = calm_healthyWorkers [OF assms(1) h]
  show ?thesis
  proof (cases "\<exists>ws. hw = Inr ws \<and> sticky_with_image cfg sb (applyRestoreReserves ws (sbID sb) s1) s1
      = (fst (sticky_with_image cfg sb (applyRestoreReserves ws (sbID sb) s1) s1), s') ")
    case True
    then show ?thesis
      using calm_trans [OF c1] sticky_with_image_calm [OF calm_good [OF c1]] by blast
  next
    case False
    then have "s' = s1" using assms(2) h
      by (auto simp: resumeCandidates_def Let_def split: sum.splits option.splits if_splits prod.splits)
    then show ?thesis using c1 by simp
  qed
qed

lemma resume_source_calm:
  assumes "good s" "resume_source cfg sid sb w s = (r, s')"
  shows "calm s s'"
  using assms EnsureGolden_calm [OF assms(1)] calm_refl [OF assms(1)]
  by (fastforce simp: resume_source_def Let_def split: if_splits prod.splits sum.splits)

text \<open>A refusal leaves the reservations alone; an admission adds one for the worker it names.\<close>

definition knocked ::
    "string \<Rightarrow> ('m, 'w) scheduler \<Rightarrow> admission result \<Rightarrow> ('m, 'w) scheduler \<Rightarrow> bool" where
  "knocked sid s r s' \<longleftrightarrow> (case r of
       Inl _ \<Rightarrow> calm s s'
     | Inr adm \<Rightarrow> \<exists>s1. calm s s1 \<and> s' = reserveRestore (wkID (adWorker adm)) sid s1
         \<and> addr s1 (wkID (adWorker adm)) = Some (wkAddress (adWorker adm)))"

lemma knocked_after: "calm s s1 \<Longrightarrow> knocked sid s1 r s2 \<Longrightarrow> knocked sid s r s2"
  using calm_trans [of s s1] by (cases r) (auto simp: knocked_def)

lemma knocked_Inl: "calm s s' \<Longrightarrow> knocked sid s (Inl e) s'"
  by (simp add: knocked_def)

lemma knock_admit_knocked:
  assumes "good s" "knock_admit cfg c res s = (r, s')"
  shows "knocked (ruID c) s r s'"
proof -
  define s1 where "s1 = (if ruEntered c
    then on_metrics (RecordSemanticStarvationWait StarvationResolved) s else s)"
  define s2 where "s2 = on_metrics (RecordDecisionLatency
    (time_Sub (cfNow cfg (sdTick s1)) (ruDecStart c))) (tick s1)"
  have c: "core s2 = core s" by (simp add: s2_def s1_def)
  obtain e s3 where ev: "resume_evict cfg res s2 = (e, s3)" by (cases "resume_evict cfg res s2")
  have c3: "calm s s3"
    by (rule calm_from [OF resume_evict_calm [OF good_core [OF assms(1) c] ev] c])
  show ?thesis
  proof (cases "e = None \<and> (\<exists>w. stGetWorker (cfStore cfg) (plWorkerID res) (sdStore s3) = Inr w)")
    case False
    then have "s' = s3 \<and> (\<exists>x. r = Inl x)" using assms(2) ev
      by (cases e; cases "stGetWorker (cfStore cfg) (plWorkerID res) (sdStore s3)")
        (auto simp: knock_admit_def reading_defs s1_def s2_def Let_def)
    then show ?thesis using c3 by (auto simp: knocked_Inl)
  next
    case True
    then obtain w where w: "stGetWorker (cfStore cfg) (plWorkerID res) (sdStore s3) = Inr w"
      and "e = None" by blast
    obtain src s4 where src: "resume_source cfg (ruID c) (ruSb c) w s3 = (src, s4)"
      by (cases "resume_source cfg (ruID c) (ruSb c) w s3")
    note c4 = resume_source_calm [OF calm_good [OF c3] src]
    have "knocked (ruID c) s3 r s'"
    proof (cases src)
      case (Inl x)
      then have "r = Inl x" "s' = s4" using assms(2) ev src w \<open>e = None\<close>
        by (auto simp: knock_admit_def reading_defs s1_def s2_def Let_def)
      then show ?thesis using c4 by (simp add: knocked_Inl)
    next
      case (Inr x)
      obtain key path lo ug where "x = (key, path, lo, ug)" by (cases x)
      then have r: "r = Inr \<lparr>adRes = res, adWorker = w, adObjectKey = key, adLocalPath = path,
          adLocalOnly = lo, adUsedGolden = ug\<rparr>" and s': "s' = reserveRestore (wkID w) (ruID c) s4"
        using assms(2) ev src w \<open>e = None\<close> Inr
        by (auto simp: knock_admit_def reading_defs s1_def s2_def Let_def)
      have "addr s4 = addr s3" using c4 unfolding calm_def evolves_def by blast
      then have "addr s4 (wkID w) = Some (wkAddress w)"
        using get_worker_addr [OF calm_good [OF c3] w] by simp
      then show ?thesis using c4 r s' by (auto simp: knocked_def)
    qed
    then show ?thesis by (rule knocked_after [OF c3])
  qed
qed

end

context sched_env
begin

lemma knock_decide_knocked:
  assumes "good s" "knock_decide cfg c s = (r, s')"
  shows "knocked (ruID c) s r s'"
proof -
  obtain e s1 where en: "ensureKnockerTurn cfg (ruSb c) s = (e, s1)"
    by (cases "ensureKnockerTurn cfg (ruSb c) s")
  have c1: "calm s s1"
    using core_of_snd [of "ensureKnockerTurn cfg (ruSb c)", OF en] assms(1) by (simp add: calm_core)
  obtain cands s2 where rc: "resumeCandidates cfg (ruSb c) s1 = (cands, s2)"
    by (cases "resumeCandidates cfg (ruSb c) s1")
  have c2: "calm s s2" by (rule calm_trans [OF c1 resumeCandidates_calm [OF calm_good [OF c1] rc]])
  show ?thesis
  proof (cases "e = None \<and> (\<exists>ws run. cands = Inr (ws, run))")
    case False
    then have "\<exists>x. r = Inl x \<and> s' \<in> {s1, s2}" using assms(2) en rc
      by (cases e; cases cands) (auto simp: knock_decide_def)
    then show ?thesis using c1 c2 by (auto simp: knocked_Inl)
  next
    case True
    then obtain ws run where cands: "cands = Inr (ws, run)" and "e = None" by blast
    define req where "req = \<lparr>rrSandbox = ruSb c, rrWorkers = ws, rrRunning = run,
      rrSandboxSignals = fst (signalViews (cfNow cfg (sdTick s2)) (tick s2)),
      rrWorkerSignals = snd (signalViews (cfNow cfg (sdTick s2)) (tick s2)),
      rrWaiting = fst (listResumeWaitState (tick s2)),
      rrWaitingSince = Some (snd (listResumeWaitState (tick s2)))\<rparr>"
    obtain res s3 where pol: "policy_call_Resume cfg req (tick s2) = (res, s3)"
      by (cases "policy_call_Resume cfg req (tick s2)")
    have "core s3 = core s2" using core_of_snd [of "policy_call_Resume cfg req", OF pol] by simp
    then have c3: "calm s s3" by (rule calm_then [OF c2])
    have "(r, s') = (case res of Inl x \<Rightarrow> (Inl x, s3) | Inr pl \<Rightarrow> knock_admit cfg c pl s3)"
      using assms(2) en rc cands \<open>e = None\<close> pol
      by (cases res) (simp_all add: knock_decide_def reading_defs req_def split_def Let_def)
    then show ?thesis
      using c3 knocked_after [OF c3 knock_admit_knocked [OF calm_good [OF c3]]]
      by (cases res) (auto simp: knocked_Inl dest: sym)
  qed
qed

text \<open>The program counter after each point keeps the call's id; a sandbox it holds is the stored one.\<close>

lemma reread_result:
  assumes "good s" "reread cfg sid sb s = (sb', s')"
  shows "core s' = core s" "sb' = sb \<or> sbs s sid = Some sb'" "sbID sb = sid \<Longrightarrow> sbID sb' = sid"
  using assms get_running [OF assms(1)] by (auto simp: reread_def split: sum.splits)

lemma knock_result:
  assumes "good s" "knock cfg c s = (pc, s')" "sbID (ruSb c) = ruID c"
  shows "(\<exists>c'. pc = AtRefused c' \<and> ruID c' = ruID c \<and> sbID (ruSb c') = ruID c \<and> calm s s')
    \<or> (\<exists>c' adm. pc = AtRestore c' adm \<and> ruID c' = ruID c \<and> sbID (ruSb c') = ruID c
         \<and> knocked (ruID c) s (Inr adm) s')"
proof -
  obtain sb s1 where rr: "reread cfg (ruID c) (ruSb c) s = (sb, s1)"
    by (cases "reread cfg (ruID c) (ruSb c) s")
  note r = reread_result [OF assms(1) rr]
  define c1 where "c1 = c\<lparr>ruSb := sb\<rparr>"
  obtain d s2 where kd: "knock_decide cfg c1 s1 = (d, s2)" by (cases "knock_decide cfg c1 s1")
  have "knocked (ruID c) s1 d s2"
    using knock_decide_knocked [OF good_core [OF assms(1) r(1)] kd] by (simp add: c1_def)
  then have k: "knocked (ruID c) s d s2" by (rule knocked_after [OF calm_core [OF assms(1) r(1)]])
  show ?thesis
  proof (cases d)
    case (Inl e)
    then have "pc = AtRefused (c1\<lparr>ruLastErr := Some e\<rparr>)" "s' = s2"
      using assms(2) rr kd by (simp_all add: knock_def c1_def)
    then show ?thesis using k Inl r(3) assms(3) by (simp add: c1_def knocked_def)
  next
    case (Inr adm)
    then have "pc = AtRestore (c1\<lparr>ruLastErr := None\<rparr>) adm" "s' = s2"
      using assms(2) rr kd by (simp_all add: knock_def c1_def)
    then show ?thesis using k Inr r(3) assms(3) by (simp add: c1_def)
  qed
qed

lemma do_restore_result:
  assumes "good s" "do_restore cfg c a s = (pc, s')"
  shows "good s' \<and> sbs s' = sbs s \<and> addr s' = addr s
    \<and> (\<exists>x. slots s' = (slots s)(wkAddress (adWorker a) := x)
         \<and> claim_outcome (ruID c) (slots s (wkAddress (adWorker a))) (\<exists>p. pc = AtCommit c a p) x)
    \<and> (if \<exists>p. pc = AtCommit c a p then sdRestoreReserve s' = sdRestoreReserve s
       else (\<exists>e. pc = Returned (ruID c) (Inl e))
         \<and> sdRestoreReserve s' =
            sdRestoreReserve (clearRestoreReserve (wkID (adWorker a)) (ruID c) s))"
proof -
  let ?a = "wkAddress (adWorker a)"
  define opts where "opts = \<lparr>roImagePath = adLocalPath a, roObjectKey = adObjectKey a\<rparr>"
  define s0 where "s0 = on_metrics (RecordDecision (path_action (resume_path c a)) ''ok''
    (plReason (adRes a))) s"
  define s1 where "s1 = tick (on_metrics (RecordResumeWait (time_Sub (cfNow cfg (sdTick s0)) (ruStart c)))
    (tick s0))"
  have c: "core s1 = core s" by (simp add: s1_def s0_def)
  note v = core_views [OF c]
  obtain e s2 where call: "on_workers (wcRestore (cfWorkers cfg) ?a (ruID c) opts) s1 = (e, s2)"
    by (cases "on_workers (wcRestore (cfWorkers cfg) ?a (ruID c) opts) s1")
  note r = on_workers_result [OF call]
  have g1: "good s1" using v assms(1) by simp
  obtain x where w: "wok (sdWorld s2)" "slot (sdWorld s2) = (slots s)(?a := x)"
    "claim_outcome (ruID c) (slots s ?a) (e = None) x"
    using restore [OF _ r] g1 v(4) unfolding good_def slots_def by metis
  note o = on_workers_views [OF call r w(1) g1]
  show ?thesis
  proof (cases e)
    case (Some err)
    define s3 where "s3 = clearRestoreReserve (wkID (adWorker a)) (ruID c) s2"
    have res: "pc = Returned (ruID c) (Inl err) \<and> s' = removeResumeWaiter (ruID c) s3"
      using assms(2) call Some
      by (auto simp: do_restore_def reading_defs Let_def s0_def s1_def opts_def resume_return_def s3_def)
    have "good s3 = good s2 \<and> sbs s3 = sbs s2 \<and> addr s3 = addr s2 \<and> slots s3 = slots s2"
      by (simp add: s3_def good_def sbs_def addr_def slots_def fun_eq_iff)
    moreover have "core s' = core s3" using res by simp
    moreover have "sdRestoreReserve s3 =
        sdRestoreReserve (clearRestoreReserve (wkID (adWorker a)) (ruID c) s)"
      using o(6) v(5) by (simp add: s3_def clearRestoreReserve_def)
    ultimately show ?thesis
      using o v w Some res core_views [of s' s3] by auto
  next
    case None
    then have "(\<exists>p. pc = AtCommit c a p) \<and> core s' = core s2"
      using assms(2) call
      by (auto simp: do_restore_def reading_defs Let_def s0_def s1_def opts_def)
    then show ?thesis using o v w None core_views [of s' s2] by auto
  qed
qed

lemma do_commit_result:
  assumes "good s" "do_commit cfg c a path s = (pc, s')" "sbID (ruSb c) = ruID c"
  shows "good s' \<and> addr s' = addr s \<and> slots s' = slots s
    \<and> sdRestoreReserve s' = sdRestoreReserve (clearRestoreReserve (wkID (adWorker a)) (ruID c) s)
    \<and> (\<exists>sb. pc = Returned (ruID c) (Inr sb) \<and> sbs s' = (sbs s)(ruID c \<mapsto> sb)
         \<and> sbID sb = ruID c \<and> sbState sb = SandboxRunning \<and> sbWorkerID sb = wkID (adWorker a))"
proof -
  define sb where "sb = (ruSb c)\<lparr>sbState := SandboxRunning, sbWorkerID := wkID (adWorker a),
    sbLocalSnapshotPath := adLocalPath a, sbUpdatedAt := cfNow cfg (sdTick s)\<rparr>"
  obtain e s1 where put: "on_store (stPutSandbox (cfStore cfg) sb) (tick s) = (e, s1)"
    by (cases "on_store (stPutSandbox (cfStore cfg) sb) (tick s)")
  have "core (tick s) = core s" by simp
  note v = core_views [OF this]
  have p: "e = None \<and> good s1 \<and> sbs s1 = (sbs s)(ruID c \<mapsto> sb) \<and> addr s1 = addr s
      \<and> slots s1 = slots s \<and> sdRestoreReserve s1 = sdRestoreReserve s"
    using on_store_put_sandbox [OF _ put] v assms(1,3) by (simp add: sb_def)
  define s2 where "s2 = clearRestoreReserve (wkID (adWorker a)) (ruID c) s1"
  have s2: "good s2 = good s1 \<and> sbs s2 = sbs s1 \<and> addr s2 = addr s1 \<and> slots s2 = slots s1"
    by (simp add: s2_def good_def sbs_def addr_def slots_def fun_eq_iff)
  have "pc = Returned (ruID c) (Inr sb) \<and> core s' = core s2"
    using assms(2) put p
    by (auto simp: do_commit_def reading_defs Let_def sb_def s2_def resume_return_def)
  moreover have "sdRestoreReserve s2 =
      sdRestoreReserve (clearRestoreReserve (wkID (adWorker a)) (ruID c) s)"
    using p by (simp add: s2_def clearRestoreReserve_def)
  ultimately show ?thesis using p s2 core_views [of s' s2] assms(3) by (auto simp: sb_def)
qed

end

end
