(* ===== verification/SchedSystem.thy ===== *)
theory SchedSystem
  imports SchedKnock
begin

text \<open>
  The whole system: the scheduler with its store and its workers, and the \<open>Resume\<close> calls in flight,
  which interleave step by step with each other and with the other operations. The invariant ties the
  stored records to the slots of the workers.
\<close>

section \<open>Points of a call\<close>

fun pc_id :: "resume_pc \<Rightarrow> string" where
  "pc_id (AtTop c) = ruID c"
| "pc_id (AtAwait c sb) = ruID c"
| "pc_id (AtAwaitSleep c sb) = ruID c"
| "pc_id (AtKnock c) = ruID c"
| "pc_id (AtRefused c) = ruID c"
| "pc_id (AtSleep c) = ruID c"
| "pc_id (AtRestore c a) = ruID c"
| "pc_id (AtCommit c a path) = ruID c"
| "pc_id (Returned sid r) = sid"

fun in_flight :: "resume_pc \<Rightarrow> bool" where
  "in_flight (Returned sid r) = False"
| "in_flight pc = True"

text \<open>A sandbox that a call holds is the one it was called for.\<close>

fun pc_ok :: "resume_pc \<Rightarrow> bool" where
  "pc_ok (AtTop c) = (sbID (ruSb c) = ruID c)"
| "pc_ok (AtAwait c sb) = (sbID (ruSb c) = ruID c \<and> sbID sb = ruID c)"
| "pc_ok (AtAwaitSleep c sb) = (sbID (ruSb c) = ruID c \<and> sbID sb = ruID c)"
| "pc_ok (AtKnock c) = (sbID (ruSb c) = ruID c)"
| "pc_ok (AtRefused c) = (sbID (ruSb c) = ruID c)"
| "pc_ok (AtSleep c) = (sbID (ruSb c) = ruID c)"
| "pc_ok (AtRestore c a) = (sbID (ruSb c) = ruID c)"
| "pc_ok (AtCommit c a path) = (sbID (ruSb c) = ruID c)"
| "pc_ok (Returned sid r) = True"

text \<open>The worker that a call has been admitted to and has not settled with yet.\<close>

fun admitted :: "resume_pc \<Rightarrow> worker option" where
  "admitted (AtRestore c a) = Some (adWorker a)"
| "admitted (AtCommit c a path) = Some (adWorker a)"
| "admitted pc = None"

fun restored :: "resume_pc \<Rightarrow> worker option" where
  "restored (AtCommit c a path) = Some (adWorker a)"
| "restored pc = None"

lemma restored_admitted: "restored pc = Some w \<Longrightarrow> admitted pc = Some w"
  by (cases pc) auto

lemma admitted_in_flight: "admitted pc = Some w \<Longrightarrow> in_flight pc"
  by (cases pc) auto

context sched_env
begin

text \<open>The steps that touch neither the store nor the workers.\<close>

lemma resume_begin_result:
  assumes "good s" "resume_begin cfg sid s = (pc, s')"
  shows "core s' = core s \<and> pc_id pc = sid \<and> pc_ok pc \<and> admitted pc = None
    \<and> (in_flight pc \<longrightarrow> (\<exists>sb. sbs s sid = Some sb \<and> \<not> is_running sb))"
  using assms(2) get_running [OF assms(1)]
  by (auto simp: resume_begin_def reading_defs Let_def is_running_def split: sum.splits if_splits)

lemma await_test_result:
  assumes "await_test cfg c sb s = (pc, s')" "sbID (ruSb c) = ruID c" "sbID sb = ruID c"
  shows "core s' = core s \<and> pc_id pc = ruID c \<and> pc_ok pc \<and> admitted pc = None"
proof -
  obtain e s1 where en: "ensureKnockerTurn cfg sb s = (e, s1)" by (cases "ensureKnockerTurn cfg sb s")
  have "core s1 = core s" using core_of_snd [of "ensureKnockerTurn cfg sb", OF en] by simp
  then show ?thesis using assms en
    by (auto simp: await_test_def resume_return_def reading_defs Let_def split: option.splits if_splits)
qed

lemma refused_result:
  assumes "refused cfg c s = (pc, s')" "sbID (ruSb c) = ruID c"
  shows "core s' = core s \<and> pc_id pc = ruID c \<and> pc_ok pc \<and> admitted pc = None"
proof -
  define e where "e = (case ruLastErr c of None \<Rightarrow> Errorf ''resume: not admitted'' | Some e \<Rightarrow> e)"
  define enter where "enter \<longleftrightarrow> errors_Is e ErrAllSemanticLocked \<and> \<not> ruEntered c"
  define c1 where "c1 = (if enter then c\<lparr>ruLastErr := Some e, ruEntered := True\<rparr>
    else c\<lparr>ruLastErr := Some e\<rparr>)"
  define s1 where "s1 = (if enter
    then on_metrics (RecordSemanticStarvationWait StarvationEnter) s else s)"
  define s2 where "s2 = (if ruEntered c1
    then on_metrics (RecordSemanticStarvationWait StarvationTimeout) (tick s1) else tick s1)"
  define out where "out = waited e (ruWait c)"
  have c: "core s1 = core s" "core s2 = core s" "ruID c1 = ruID c" "ruSb c1 = ruSb c"
    by (simp_all add: s1_def s2_def c1_def)
  have "refused cfg c s =
      (if errors_Is e ErrNotBestWaiter then (AtSleep (c\<lparr>ruLastErr := Some e\<rparr>), s)
       else if \<not> resumeRetryable (Some e) \<or> ruWait c \<le> 0
       then resume_return (c\<lparr>ruLastErr := Some e\<rparr>) (Inl e)
              (on_metrics (RecordDecision ''resume'' ''error'' (err_Error e)) s)
       else if cfNow cfg (sdTick s1) > ruDeadline c then resume_return c1 (Inl out)
              (on_metrics (RecordDecision ''resume'' ''error'' (err_Error out)) s2)
       else (AtSleep c1, tick s1))"
    unfolding refused_def e_def [symmetric] reading_defs
    by (cases enter; cases "ruEntered c")
      (simp_all add: Let_def enter_def s1_def s2_def c1_def out_def)
  then show ?thesis using assms c
    by (simp add: resume_return_def split: if_splits)
qed

lemma quiet_step:
  assumes "good s" "resume_step cfg d pc s = (pc', s')" "pc_ok pc"
    and "\<nexists>c. pc = AtKnock c" "admitted pc = None"
  shows "core s' = core s \<and> pc_id pc' = pc_id pc \<and> pc_ok pc' \<and> admitted pc' = None
    \<and> (in_flight pc' \<longrightarrow> in_flight pc)"
proof (cases pc)
  case (AtTop c)
  obtain sb s1 where rr: "reread cfg (ruID c) (ruSb c) s = (sb, s1)"
    by (cases "reread cfg (ruID c) (ruSb c) s")
  have "pc' = AtAwait (c\<lparr>ruSb := sb\<rparr>) sb" "s' = s1" using AtTop assms(2) rr by simp_all
  then show ?thesis using AtTop assms(3) reread_result(1,3) [OF assms(1) rr] by simp
next
  case (AtAwait c sb)
  then show ?thesis using assms(2,3) await_test_result [of c sb s pc' s'] by simp
next
  case (AtAwaitSleep c sb)
  obtain sb' s1 where rr: "reread cfg (sbID sb) sb s = (sb', s1)"
    by (cases "reread cfg (sbID sb) sb s")
  show ?thesis
  proof (cases d)
    case True
    then show ?thesis using AtAwaitSleep assms(2,3) by (auto simp: await_wake_def resume_return_def)
  next
    case False
    then have "pc' = AtAwait c sb'" "s' = s1"
      using AtAwaitSleep assms(2) rr by (simp_all add: await_wake_def)
    then show ?thesis using AtAwaitSleep assms(3) reread_result(1,3) [OF assms(1) rr] by simp
  qed
next
  case (AtRefused c)
  then show ?thesis using assms(2,3) refused_result [of c s pc' s'] by simp
next
  case (AtSleep c)
  then show ?thesis using assms(2,3) by (auto simp: sleep_wake_def resume_return_def split: if_splits)
qed (use assms in auto)

end

section \<open>Steps of the system\<close>

type_synonym ('m, 'w) system = "('m, 'w) scheduler \<times> (string \<Rightarrow> resume_pc option)"

text \<open>
  The calls are indexed by their sandbox: at most one \<open>Resume\<close> of a sandbox is in flight. The other
  operations come at any time. A worker is registered with the address it has for good.
\<close>

inductive sys_step :: "('m, 'w) sched_cfg \<Rightarrow> ('m, 'w) system \<Rightarrow> ('m, 'w) system \<Rightarrow> bool"
  for cfg :: "('m, 'w) sched_cfg" where
  create: "Create cfg s = (r, s') \<Longrightarrow> sys_step cfg (s, cs) (s', cs)"
| pause: "Pause cfg sid s = (r, s') \<Longrightarrow> sys_step cfg (s, cs) (s', cs)"
| suspend: "Suspend cfg sid s = (r, s') \<Longrightarrow> sys_step cfg (s, cs) (s', cs)"
| del: "Delete cfg sid s = (e, s') \<Longrightarrow> sys_step cfg (s, cs) (s', cs)"
| exec: "Exec cfg sid argv s = (x, s') \<Longrightarrow> sys_step cfg (s, cs) (s', cs)"
| golden: "EnsureGolden cfg s = (g, s') \<Longrightarrow> sys_step cfg (s, cs) (s', cs)"
| signal: "sys_step cfg (s, cs) (on_signals f s, cs)"
| clock: "sys_step cfg (s, cs) (tick s, cs)"
| register: "on_store (stPutWorker (cfStore cfg) w) s = (e, s') \<Longrightarrow>
    \<forall>v. stGetWorker (cfStore cfg) (wkID w) (sdStore s) = Inr v \<longrightarrow> wkAddress v = wkAddress w \<Longrightarrow>
    sys_step cfg (s, cs) (s', cs)"
| start: "\<forall>pc. cs sid = Some pc \<longrightarrow> \<not> in_flight pc \<Longrightarrow> resume_begin cfg sid s = (pc', s') \<Longrightarrow>
    sys_step cfg (s, cs) (s', cs(sid \<mapsto> pc'))"
| step: "cs sid = Some pc \<Longrightarrow> resume_step cfg d pc s = (pc', s') \<Longrightarrow>
    sys_step cfg (s, cs) (s', cs(sid \<mapsto> pc'))"

inductive_cases sys_stepE: "sys_step cfg (s, cs) (s', cs')"

abbreviation sys_reachable ::
    "('m, 'w) sched_cfg \<Rightarrow> ('m, 'w) system \<Rightarrow> ('m, 'w) system \<Rightarrow> bool" where
  "sys_reachable cfg \<equiv> (sys_step cfg)\<^sup>*\<^sup>*"

section \<open>The invariant\<close>

context sched_env
begin

text \<open>
  A running sandbox has a worker with a known address, and holds that worker's slot. The set is for
  sandboxes that an operation in flight has already taken off their worker; it is empty where every
  operation is one step.
\<close>

definition store_but :: "string set \<Rightarrow> ('m, 'w) scheduler \<Rightarrow> bool" where
  "store_but X s \<longleftrightarrow> good s \<and> (\<forall>sid. foreign_name sid \<longrightarrow> sbs s sid = None)
     \<and> (\<forall>sid sb. sbs s sid = Some sb \<longrightarrow> is_running sb \<longrightarrow> sid \<notin> X \<longrightarrow>
          (\<exists>a. addr s (sbWorkerID sb) = Some a \<and> slots s a = Some sid))"

abbreviation store_ok :: "('m, 'w) scheduler \<Rightarrow> bool" where
  "store_ok \<equiv> store_but {}"

definition stopped :: "('m, 'w) scheduler \<Rightarrow> string \<Rightarrow> bool" where
  "stopped s sid \<longleftrightarrow> (\<forall>sb. sbs s sid = Some sb \<longrightarrow> \<not> is_running sb)"

text \<open>
  A call in flight is for a sandbox that does not run; a worker it is admitted to is known, and once
  the worker has restored the sandbox, its slot is held for it.
\<close>

definition call_ok :: "('m, 'w) scheduler \<Rightarrow> string \<Rightarrow> resume_pc \<Rightarrow> bool" where
  "call_ok s sid pc \<longleftrightarrow> pc_id pc = sid \<and> pc_ok pc
     \<and> (in_flight pc \<longrightarrow> \<not> foreign_name sid \<and> stopped s sid)
     \<and> (\<forall>w. admitted pc = Some w \<longrightarrow> addr s (wkID w) = Some (wkAddress w))
     \<and> (\<forall>w. restored pc = Some w \<longrightarrow> slots s (wkAddress w) = Some sid)"

definition agree_but :: "string set \<Rightarrow> ('m, 'w) system \<Rightarrow> bool" where
  "agree_but X sys \<longleftrightarrow> store_but X (fst sys)
     \<and> (\<forall>sid pc. snd sys sid = Some pc \<longrightarrow> call_ok (fst sys) sid pc)"

abbreviation agree :: "('m, 'w) system \<Rightarrow> bool" where
  "agree \<equiv> agree_but {}"

lemma store_butD:
  assumes "store_but X s" "sbs s sid = Some sb" "is_running sb" "sid \<notin> X"
  shows "\<exists>a. addr s (sbWorkerID sb) = Some a \<and> slots s a = Some sid"
  using assms unfolding store_but_def by blast

lemma store_okD:
  assumes "store_ok s" "sbs s sid = Some sb" "is_running sb"
  shows "\<exists>a. addr s (sbWorkerID sb) = Some a \<and> slots s a = Some sid"
  using store_butD [OF assms] by simp

lemma agreeI:
  "store_but X s \<Longrightarrow> (\<And>sid pc. cs sid = Some pc \<Longrightarrow> call_ok s sid pc) \<Longrightarrow> agree_but X (s, cs)"
  by (simp add: agree_but_def)

lemma agreeD:
  assumes "agree_but X (s, cs)"
  shows "store_but X s" "good s" "cs sid = Some pc \<Longrightarrow> call_ok s sid pc"
  using assms by (simp_all add: agree_but_def store_but_def)

lemma call_okD:
  assumes "call_ok s sid pc"
  shows "pc_id pc = sid" "pc_ok pc" "in_flight pc \<Longrightarrow> \<not> foreign_name sid" "in_flight pc \<Longrightarrow> stopped s sid"
    "admitted pc = Some w \<Longrightarrow> addr s (wkID w) = Some (wkAddress w)"
    "restored pc = Some w \<Longrightarrow> slots s (wkAddress w) = Some sid"
  using assms by (simp_all add: call_ok_def)

section \<open>What preserves it\<close>

lemma store_ok_evolves:
  assumes "store_but X s" "evolves s s'"
  shows "store_but X s'"
  unfolding store_but_def
proof (intro conjI allI impI)
  note e = evolvesD [OF assms(2)]
  show "good s'" by (rule e(1))
  show "sbs s' sid = None" if "foreign_name sid" for sid
    using that assms(1) e(3) unfolding store_but_def by blast
  show "\<exists>a. addr s' (sbWorkerID sb) = Some a \<and> slots s' a = Some sid"
    if sb: "sbs s' sid = Some sb" "is_running sb" "sid \<notin> X" for sid sb
  proof -
    have old: "sbs s sid = Some sb" using e(4) sb by blast
    then obtain a where a: "addr s (sbWorkerID sb) = Some a" "slots s a = Some sid"
      using store_butD [OF assms(1) old sb(2,3)] by blast
    have "\<not> foreign_name sid" using old assms(1) unfolding store_but_def by force
    then have "slots s' a = Some sid" using e(5) [OF a(2)] old sb by force
    then show ?thesis using a(1) e(2) by auto
  qed
qed

lemma stopped_evolves: "evolves s s' \<Longrightarrow> stopped s sid \<Longrightarrow> stopped s' sid"
  unfolding evolves_def stopped_def by blast

lemma call_ok_evolves:
  assumes "call_ok s sid pc" "evolves s s'"
  shows "call_ok s' sid pc"
proof -
  note e = evolvesD [OF assms(2)] and c = call_okD [OF assms(1)]
  have "slots s' (wkAddress w) = Some sid" if "restored pc = Some w" for w
  proof -
    have "in_flight pc" using that restored_admitted admitted_in_flight by blast
    then show ?thesis
      using e(5) [OF c(6) [OF that]] c(3,4) unfolding stopped_def by blast
  qed
  then show ?thesis using c e(2) stopped_evolves [OF assms(2)] by (auto simp: call_ok_def)
qed

lemma agree_evolves: "agree_but X (s, cs) \<Longrightarrow> evolves s s' \<Longrightarrow> agree_but X (s', cs)"
  unfolding agree_but_def fst_conv snd_conv using store_ok_evolves call_ok_evolves by blast

lemma agree_call: "agree_but X (s, cs) \<Longrightarrow> call_ok s sid pc \<Longrightarrow> agree_but X (s, cs(sid \<mapsto> pc))"
  by (simp add: agree_but_def)

lemma agree_calm_core: "agree_but X (s, cs) \<Longrightarrow> core s' = core s \<Longrightarrow> agree_but X (s', cs)"
  using agree_evolves evolves_core agreeD(2) by blast

text \<open>A registration adds addresses and changes none.\<close>

lemma agree_register:
  assumes "agree_but X (s, cs)" "on_store (stPutWorker (cfStore cfg) w) s = (e, s')"
    and known: "\<forall>v. stGetWorker (cfStore cfg) (wkID w) (sdStore s) = Inr v \<longrightarrow> wkAddress v = wkAddress w"
  shows "agree_but X (s', cs)"
proof -
  note p = on_store_put_worker [OF agreeD(2) [OF assms(1)] assms(2)]
  have mok: "mok (sdStore s)" using agreeD(2) [OF assms(1)] by (simp add: good_def)
  have "addr s \<subseteq>\<^sub>m addr s'"
    using known get_worker [OF mok] p
    by (auto simp: map_le_def addr_def dom_def)
  then have keep: "addr s wid = Some a \<Longrightarrow> addr s' wid = Some a" for wid a
    by (force simp: map_le_def dom_def)
  have "store_but X s'" unfolding store_but_def
    using agreeD(1) [OF assms(1)] p keep unfolding store_but_def by fastforce
  moreover have "call_ok s' sid pc" if "cs sid = Some pc" for sid pc
    using agreeD(3) [OF assms(1) that] p keep unfolding call_ok_def stopped_def by auto
  ultimately show ?thesis by (rule agreeI)
qed

lemma agree_create:
  assumes "agree_but X (s, cs)" "Create cfg s = (r, s')" "\<And>n. \<not> foreign_name (cfUUID cfg n)"
  shows "agree_but X (s', cs)"
proof -
  obtain n sb where c: "good s'" "addr s' = addr s" "slots s' = slots s"
    "sbID sb = cfUUID cfg n" "sbState sb = SandboxSuspended" "sbs s' = (sbs s)(sbID sb \<mapsto> sb)"
    using Create_effect [OF agreeD(2) [OF assms(1)] assms(2)] by blast
  have "\<not> is_running sb" by (simp add: c(5) is_running_def)
  then have "store_but X s'"
    using agreeD(1) [OF assms(1)] c assms(3) unfolding store_but_def by auto
  moreover have "call_ok s' sid pc" if "cs sid = Some pc" for sid pc
    using agreeD(3) [OF assms(1) that] c \<open>\<not> is_running sb\<close>
    unfolding call_ok_def stopped_def by auto
  ultimately show ?thesis by (rule agreeI)
qed

end

section \<open>Every step preserves it\<close>

context sched_env
begin

lemma agree_start:
  assumes "agree_but X (s, cs)" "resume_begin cfg sid s = (pc', s')"
  shows "agree_but X (s', cs(sid \<mapsto> pc'))"
proof -
  note b = resume_begin_result [OF agreeD(2) [OF assms(1)] assms(2)]
  have c: "core s' = core s" using b by simp
  note v = core_views [OF c]
  have "restored pc' = None" using b restored_admitted [of pc'] by (cases "restored pc'") auto
  moreover have "\<not> foreign_name sid" "stopped s sid" if fl: "in_flight pc'"
  proof -
    obtain sb where "sbs s sid = Some sb" "\<not> is_running sb" using fl b by blast
    then show "\<not> foreign_name sid" "stopped s sid"
      using agreeD(1) [OF assms(1)] unfolding store_but_def stopped_def by auto
  qed
  ultimately have "call_ok s' sid pc'" using b v by (simp add: call_ok_def stopped_def)
  then show ?thesis using agree_call agree_calm_core [OF assms(1) c] by blast
qed

lemma agree_knock:
  assumes "agree_but X (s, cs)" "cs sid = Some (AtKnock c)" "knock cfg c s = (pc', s')"
  shows "agree_but X (s', cs(sid \<mapsto> pc'))"
proof -
  note ok = agreeD(3) [OF assms(1,2)]
  then have id_sb: "ruID c = sid" "sbID (ruSb c) = ruID c" by (simp_all add: call_ok_def)
  from knock_result [OF agreeD(2) [OF assms(1)] assms(3) id_sb(2)] show ?thesis
  proof (elim disjE exE conjE)
    fix c' assume pc': "pc' = AtRefused c'" "ruID c' = ruID c" "sbID (ruSb c') = ruID c"
      and calm: "calm s s'"
    then have ev: "evolves s s'" by (simp add: calm_def)
    have "call_ok s' sid pc'"
      using call_ok_evolves [OF ok ev] pc' id_sb by (simp add: call_ok_def)
    then show ?thesis using agree_call agree_evolves [OF assms(1) ev] by blast
  next
    fix c' adm assume pc': "pc' = AtRestore c' adm" "ruID c' = ruID c" "sbID (ruSb c') = ruID c"
      and k: "knocked (ruID c) s (Inr adm) s'"
    obtain s1 where s1: "evolves s s1" "s' = reserveRestore (wkID (adWorker adm)) (ruID c) s1"
      "addr s1 (wkID (adWorker adm)) = Some (wkAddress (adWorker adm))"
      using k unfolding knocked_def calm_def sum.case by blast
    have v: "good s' = good s1" "sbs s' = sbs s1" "addr s' = addr s1" "slots s' = slots s1"
      by (simp_all add: s1(2) good_def sbs_def addr_def slots_def fun_eq_iff)
    have "evolves s s'" using s1(1) v unfolding evolves_def by metis
    moreover have "call_ok s' sid pc'"
      using call_ok_evolves [OF ok s1(1)] pc' id_sb s1(3) v by (simp add: call_ok_def stopped_def)
    ultimately show ?thesis using agree_call agree_evolves [OF assms(1)] by blast
  qed
qed

lemma Exec_evolves:
  assumes "good s" "Exec cfg sid argv s = (x, s')"
  shows "evolves s s'"
  using assms(2) exec_evolves [OF assms(1)] evolves_refl [OF assms(1)]
  by (auto simp: Exec_def split: sum.splits if_splits)

lemma claim_other: "claim_outcome sid (Some other) c x \<Longrightarrow> other \<noteq> sid \<Longrightarrow> x = Some other"
  by (auto simp: claim_outcome_def split: if_splits)

text \<open>A restore for a stopped sandbox takes no slot from another one.\<close>

lemma agree_restore:
  assumes "agree_but X (s, cs)" "cs sid = Some (AtRestore c a)" "do_restore cfg c a s = (pc', s')"
  shows "agree_but X (s', cs(sid \<mapsto> pc'))"
proof -
  let ?a = "wkAddress (adWorker a)"
  note ok = agreeD(3) [OF assms(1,2)]
  have c: "ruID c = sid" "sbID (ruSb c) = sid" "\<not> foreign_name sid" "stopped s sid"
    "addr s (wkID (adWorker a)) = Some ?a"
    using ok by (simp_all add: call_ok_def)
  note r = do_restore_result [OF agreeD(2) [OF assms(1)] assms(3), unfolded c(1)]
  obtain x where x: "slots s' = (slots s)(?a := x)"
    "claim_outcome sid (slots s ?a) (\<exists>p. pc' = AtCommit c a p) x" using r by blast
  have keep: "slots s' b = Some other" if "slots s b = Some other" "other \<noteq> sid" for b other
    using that x claim_other [of sid other] by (cases "b = ?a") auto
  have eff: "good s'" "sbs s' = sbs s" "addr s' = addr s" using r by simp_all
  have "store_but X s'" unfolding store_but_def
  proof (intro conjI allI impI)
    show "\<exists>b. addr s' (sbWorkerID sb) = Some b \<and> slots s' b = Some o'"
      if run: "sbs s' o' = Some sb" "is_running sb" "o' \<notin> X" for o' sb
    proof -
      have "o' \<noteq> sid" using run c(4) eff by (auto simp: stopped_def)
      moreover obtain b where "addr s (sbWorkerID sb) = Some b" "slots s b = Some o'"
        using store_butD [OF agreeD(1) [OF assms(1)], of o' sb] run unfolding eff(2) by blast
      ultimately show ?thesis using keep eff by auto
    qed
  qed (use agreeD(1) [OF assms(1)] eff in \<open>simp_all add: store_but_def\<close>)
  moreover have "call_ok s' o' pc" if "(cs(sid \<mapsto> pc')) o' = Some pc" for o' pc
  proof (cases "o' = sid")
    case False
    then have "call_ok s o' pc" using agreeD(3) [OF assms(1)] that by simp
    then show ?thesis using keep eff False unfolding call_ok_def stopped_def by auto
  next
    case True
    then have pc: "pc = pc'" using that by simp
    show ?thesis
    proof (cases "\<exists>p. pc' = AtCommit c a p")
      case True
      then have "x = Some sid" using x(2) by (simp add: claim_outcome_def)
      then show ?thesis using True pc \<open>o' = sid\<close> c eff x(1) by (auto simp: call_ok_def stopped_def)
    next
      case False
      then obtain e where "pc' = Returned sid (Inl e)" using r by (auto split: if_splits)
      then show ?thesis using pc \<open>o' = sid\<close> by (simp add: call_ok_def)
    qed
  qed
  ultimately show ?thesis by (rule agreeI)
qed

lemma agree_commit:
  assumes "agree_but X (s, cs)" "cs sid = Some (AtCommit c a path)" "do_commit cfg c a path s = (pc', s')"
  shows "agree_but X (s', cs(sid \<mapsto> pc'))"
proof -
  let ?a = "wkAddress (adWorker a)"
  have c: "ruID c = sid" "sbID (ruSb c) = ruID c" "\<not> foreign_name sid"
    "addr s (wkID (adWorker a)) = Some ?a" "slots s ?a = Some sid"
    using agreeD(3) [OF assms(1,2)] by (simp_all add: call_ok_def)
  from do_commit_result [OF agreeD(2) [OF assms(1)] assms(3) c(2)] obtain sb where
    r: "good s'" "addr s' = addr s" "slots s' = slots s" "pc' = Returned sid (Inr sb)"
      "sbs s' = (sbs s)(sid \<mapsto> sb)" "sbWorkerID sb = wkID (adWorker a)" unfolding c(1) by blast
  have "store_but X s'" using agreeD(1) [OF assms(1)] r c unfolding store_but_def by auto
  moreover have "call_ok s' o' pc" if "(cs(sid \<mapsto> pc')) o' = Some pc" for o' pc
  proof (cases "o' = sid")
    case True
    then have "pc = Returned sid (Inr sb)" using that r(4) by simp
    then show ?thesis using True by (simp add: call_ok_def)
  next
    case False
    then have "call_ok s o' pc" using agreeD(3) [OF assms(1)] that by simp
    then show ?thesis using r False unfolding call_ok_def stopped_def by auto
  qed
  ultimately show ?thesis by (rule agreeI)
qed

lemma agree_resume_step:
  assumes "agree_but X (s, cs)" "cs sid = Some pc" "resume_step cfg d pc s = (pc', s')"
  shows "agree_but X (s', cs(sid \<mapsto> pc'))"
proof (cases "(\<exists>c. pc = AtKnock c) \<or> admitted pc \<noteq> None")
  case True
  then show ?thesis
    using assms agree_knock [OF assms(1)] agree_restore [OF assms(1)] agree_commit [OF assms(1)]
    by (cases pc) auto
next
  case False
  note ok = agreeD(3) [OF assms(1,2)]
  have q: "core s' = core s \<and> pc_id pc' = pc_id pc \<and> pc_ok pc' \<and> admitted pc' = None
    \<and> (in_flight pc' \<longrightarrow> in_flight pc)"
    using quiet_step [OF agreeD(2) [OF assms(1)] assms(3) call_okD(2) [OF ok]] False by blast
  have "restored pc' = None" using q restored_admitted [of pc'] by (cases "restored pc'") auto
  then have "call_ok s' sid pc'"
    using q ok core_views [of s' s] by (auto simp: call_ok_def stopped_def)
  then show ?thesis using agree_call agree_calm_core [OF assms(1)] q by blast
qed

theorem agree_sys_step:
  assumes "sys_step cfg sys sys'" "agree_but X sys" "\<And>n. \<not> foreign_name (cfUUID cfg n)"
  shows "agree_but X sys'"
  using assms(1,2)
proof cases
  case (create s r s' cs)
  then show ?thesis using agree_create assms(2,3) by simp
next
  case (pause sid s r s' cs)
  then show ?thesis using agree_evolves pauseOrSuspend_evolves agreeD(2) assms(2)
    unfolding Pause_def by metis
next
  case (suspend sid s r s' cs)
  then show ?thesis using agree_evolves pauseOrSuspend_evolves agreeD(2) assms(2)
    unfolding Suspend_def by metis
next
  case (del sid s e s' cs)
  then show ?thesis using agree_evolves Delete_evolves agreeD(2) assms(2) by metis
next
  case (exec sid argv s x s' cs)
  then show ?thesis using agree_evolves Exec_evolves agreeD(2) assms(2) by metis
next
  case (golden s g s' cs)
  then show ?thesis using agree_evolves EnsureGolden_calm agreeD(2) assms(2)
    unfolding calm_def by metis
next
  case (signal s cs f)
  then show ?thesis using agree_calm_core assms(2) by (metis core_frame(3))
next
  case (clock s cs)
  then show ?thesis using agree_calm_core assms(2) by (metis core_frame(1))
next
  case (register w s e s' cs)
  then show ?thesis using agree_register assms(2) by simp
next
  case (start cs sid s pc' s')
  then show ?thesis using agree_start assms(2) by simp
next
  case (step cs sid pc d s pc' s')
  then show ?thesis using agree_resume_step assms(2) by simp
qed

lemma agree_reachable:
  assumes "(sys_step cfg)\<^sup>*\<^sup>* sys sys'" "agree_but X sys" "\<And>n. \<not> foreign_name (cfUUID cfg n)"
  shows "agree_but X sys'"
  using assms(1,2) by (induction rule: rtranclp_induct) (use agree_sys_step assms(3) in blast)+

end

section \<open>A call on its own\<close>

text \<open>A \<open>Resume\<close> that runs alone is a path of the system.\<close>

lemma resume_run_reachable:
  "resume_run cfg n (pc, s) = (pc', s') \<Longrightarrow>
   sys_reachable cfg (s, cs(sid \<mapsto> pc)) (s', cs(sid \<mapsto> pc'))"
proof (induction n arbitrary: pc s)
  case (Suc n)
  obtain pc1 s1 where step: "resume_step cfg False pc s = (pc1, s1)"
    by (cases "resume_step cfg False pc s")
  have "sys_step cfg (s, cs(sid \<mapsto> pc)) (s1, (cs(sid \<mapsto> pc))(sid \<mapsto> pc1))"
    by (rule sys_step.step [OF _ step]) simp
  moreover have "sys_reachable cfg (s1, cs(sid \<mapsto> pc1)) (s', cs(sid \<mapsto> pc'))"
    by (rule Suc.IH) (use Suc.prems step in simp)
  ultimately show ?case unfolding fun_upd_upd by (rule converse_rtranclp_into_rtranclp)
qed simp

lemma resume_reachable:
  assumes "resume_run cfg n (resume_begin cfg sid s) = (pc', s')" "cs sid = None"
  shows "sys_reachable cfg (s, cs) (s', cs(sid \<mapsto> pc'))"
proof -
  obtain pc s1 where b: "resume_begin cfg sid s = (pc, s1)" by (cases "resume_begin cfg sid s")
  have "sys_step cfg (s, cs) (s1, cs(sid \<mapsto> pc))"
    by (rule sys_step.start [OF _ b]) (simp add: assms(2))
  moreover have "sys_reachable cfg (s1, cs(sid \<mapsto> pc)) (s', cs(sid \<mapsto> pc'))"
    by (rule resume_run_reachable) (use assms(1) b in simp)
  ultimately show ?thesis by (rule converse_rtranclp_into_rtranclp)
qed

end
