(* ===== verification/SchedExclusive.thy ===== *)
theory SchedExclusive
  imports SchedSystem
begin

text \<open>
  What the reservations are for: from the decision under \<open>knockMu\<close> until the call has settled, the
  worker it was admitted to hosts no running sandbox and no other call is admitted to it.
\<close>

context sched_env
begin

section \<open>The candidates\<close>

text \<open>A worker offered with a free slot is empty and reserved for nobody else.\<close>

definition offered :: "('m, 'w) scheduler \<Rightarrow> string \<Rightarrow> worker \<Rightarrow> bool" where
  "offered s sid w \<longleftrightarrow> addr s (wkID w) = Some (wkAddress w)
     \<and> (0 < FreeSlots w \<longrightarrow> slots s (wkAddress w) = None
          \<and> mget (sdRestoreReserve s) (wkID w) \<in> {None, Some sid})"

definition stored_running :: "('m, 'w) scheduler \<Rightarrow> sandbox \<Rightarrow> bool" where
  "stored_running s sb \<longleftrightarrow> sbs s (sbID sb) = Some sb \<and> is_running sb"

lemma applied_offered:
  assumes "fresh_worker s w0"
    and "w \<in> set (applyRestoreReserves [w0] sid s)"
  shows "offered s sid w"
proof -
  have a: "addr s (wkID w0) = Some (wkAddress w0)"
    using assms(1) by (simp add: fresh_worker_def addr_def)
  have full: "0 < FreeSlots w0 \<longrightarrow> slots s (wkAddress w0) = None"
    using assms(1) FreeSlots_full [of w0] by (auto simp: fresh_worker_def split: if_splits)
  show ?thesis
  proof (cases "mget (sdRestoreReserve s) (wkID w0) \<in> {None, Some sid}")
    case True
    then have "w = w0" using assms(2)
      by (auto simp: applyRestoreReserves_def split: if_splits)
    then show ?thesis using a full True by (simp add: offered_def)
  next
    case False
    then obtain h where h: "mget (sdRestoreReserve s) (wkID w0) = Some h" "h \<noteq> sid" by auto
    then have "w = w0\<lparr>wkUsedSlots := 1\<rparr>" using assms
      by (auto simp: applyRestoreReserves_def fresh_worker_def split: if_splits)
    then show ?thesis using a FreeSlots_full [of w] assms(1)
      by (simp add: offered_def fresh_worker_def)
  qed
qed

lemma applyRestoreReserves_each:
  "w \<in> set (applyRestoreReserves ws sid s) \<Longrightarrow> \<exists>w0\<in>set ws. w \<in> set (applyRestoreReserves [w0] sid s)"
  by (auto simp: applyRestoreReserves_def split: if_splits)

lemma resumeCandidates_result:
  assumes "good s" "resumeCandidates cfg sb s = (Inr (ws, run), s')"
  shows "\<forall>w\<in>set ws. offered s' (sbID sb) w" "\<forall>sb\<in>set run. stored_running s' sb"
proof -
  obtain hw s1 where h: "healthyWorkers cfg s = (hw, s1)" by (cases "healthyWorkers cfg s")
  note e = healthyWorkers_effect [OF assms(1) h]
  have g1: "good s1" using e by simp
  obtain hl where hl: "hw = Inr hl" using assms(2) h
    by (cases hw) (auto simp: resumeCandidates_def)
  then have fresh: "\<forall>w\<in>set hl. fresh_worker s1 w" using e by simp
  define al where "al = applyRestoreReserves hl (sbID sb) s1"
  have off1: "\<forall>w\<in>set al. offered s1 (sbID sb) w"
    using applyRestoreReserves_each [of _ hl "sbID sb" s1] applied_offered fresh unfolding al_def by blast
  obtain rl where rl: "running cfg s1 = Inr rl" using assms(2) h hl
    by (cases "running cfg s1") (auto simp: resumeCandidates_def)
  obtain st s2 where st: "sticky_with_image cfg sb al s1 = (st, s2)"
    by (cases "sticky_with_image cfg sb al s1")
  have byid: "workerByID al wid = Some w \<Longrightarrow> w \<in> set al" for wid w
    by (auto simp: workerByID_def find_first)
  have stin: "st = Some w \<Longrightarrow> w \<in> set al" for w
    using st byid by (auto simp: sticky_with_image_def split: option.splits if_splits prod.splits sum.splits)
  have out: "set ws \<subseteq> set al \<and> set run \<subseteq> set rl \<and> (s' = s1 \<or> s' = s2)"
    using assms(2) h hl rl st stin byid
    by (auto simp: resumeCandidates_def al_def [symmetric] filterRunningOn_def split: if_splits option.splits)
  have s2: "sbs s2 = sbs s1 \<and> workers (sdStore s2) = workers (sdStore s1) \<and> slots s2 = slots s1
    \<and> sdRestoreReserve s2 = sdRestoreReserve s1"
    using st local_snapshot_evolves [OF g1]
    by (fastforce simp: sticky_with_image_def split: option.splits if_splits prod.splits sum.splits)
  then have same: "offered s' sid w = offered s1 sid w" "stored_running s' x = stored_running s1 x" for sid w x
    using out by (auto simp: offered_def stored_running_def addr_def)
  show "\<forall>w\<in>set ws. offered s' (sbID sb) w" using out off1 same by blast
  show "\<forall>sb\<in>set run. stored_running s' sb"
    using out same running_effect(1) [OF g1 rl] unfolding stored_running_def by blast
qed

end

context sched_env
begin

section \<open>The decision\<close>

lemma running_shrinks: "evolves s s' \<Longrightarrow> stored_running s' sb \<Longrightarrow> stored_running s sb"
  unfolding stored_running_def using evolvesD(4) by blast

lemma running_core: "core s' = core s \<Longrightarrow> stored_running s' sb = stored_running s sb"
  unfolding stored_running_def using core_views(2) by metis

lemma evicted_stops:
  assumes "good s" "resume_evict cfg res s = (None, s')" "plVictimID res \<noteq> ''''" "stored_running s' sb"
  shows "sbID sb \<noteq> plVictimID res"
proof -
  obtain pl s1 where v: "victimPhaseLock cfg (plVictimID res) (tick s) = (pl, s1)"
    by (cases "victimPhaseLock cfg (plVictimID res) (tick s)")
  define s2 where "s2 = on_signals (OnEvict (plVictimID res)) s1"
  have c: "core s2 = core s" using core_of_snd [of "victimPhaseLock cfg (plVictimID res)", OF v]
    by (simp add: s2_def)
  obtain r s3 where sus: "pauseOrSuspend cfg (plVictimID res) True s2 = (r, s3)"
    by (cases "pauseOrSuspend cfg (plVictimID res) True s2")
  have out: "(\<exists>x. r = Inr x) \<and> core s' = core s3"
    using assms(2,3) v sus
    by (cases pl; cases r) (auto simp: resume_evict_def suspendLocked_def reading_defs s2_def Let_def)
  then obtain x where "r = Inr x" by blast
  then have "\<exists>y. sbs s3 (plVictimID res) = Some y \<and> \<not> is_running y"
    using pauseOrSuspend_effect [OF good_core [OF assms(1) c] sus] by (auto simp: is_running_def)
  moreover have "stored_running s3 sb" using assms(4) out running_core [of s' s3 sb] by simp
  ultimately show ?thesis by (auto simp: stored_running_def)
qed

lemma knock_admit_choice:
  assumes "good s" "knock_admit cfg c res s = (Inr adm, s')"
  shows "wkID (adWorker adm) = plWorkerID res"
    and "stored_running s' sb \<Longrightarrow> stored_running s sb"
    and "stored_running s' sb \<Longrightarrow> plVictimID res \<noteq> '''' \<Longrightarrow> sbID sb \<noteq> plVictimID res"
proof -
  define s1 where "s1 = (if ruEntered c
    then on_metrics (RecordSemanticStarvationWait StarvationResolved) s else s)"
  define s2 where "s2 = on_metrics (RecordDecisionLatency
    (time_Sub (cfNow cfg (sdTick s1)) (ruDecStart c))) (tick s1)"
  have c: "core s2 = core s" by (simp add: s2_def s1_def)
  have g2: "good s2" by (rule good_core [OF assms(1) c])
  obtain e s3 where ev: "resume_evict cfg res s2 = (e, s3)" by (cases "resume_evict cfg res s2")
  have none: "e = None" using assms(2) ev
    by (cases e) (auto simp: knock_admit_def reading_defs s1_def s2_def Let_def)
  obtain w where w: "stGetWorker (cfStore cfg) (plWorkerID res) (sdStore s3) = Inr w"
    using assms(2) ev none by (cases "stGetWorker (cfStore cfg) (plWorkerID res) (sdStore s3)")
      (auto simp: knock_admit_def reading_defs s1_def s2_def Let_def)
  obtain src s4 where src: "resume_source cfg (ruID c) (ruSb c) w s3 = (src, s4)"
    by (cases "resume_source cfg (ruID c) (ruSb c) w s3")
  have out: "adWorker adm = w \<and> s' = reserveRestore (wkID w) (ruID c) s4"
    using assms(2) ev none w src
    by (cases src) (auto simp: knock_admit_def reading_defs s1_def s2_def Let_def split: prod.splits)
  have c3: "calm s2 s3" by (rule resume_evict_calm [OF g2 ev])
  show "wkID (adWorker adm) = plWorkerID res" using out get_worker_addr(2) [OF calm_good [OF c3] w] by simp
  have before: "stored_running s3 sb" if "stored_running s' sb" for sb
    using that out running_shrinks resume_source_calm [OF calm_good [OF c3] src]
    unfolding calm_def by (auto simp: stored_running_def sbs_def)
  show "stored_running s sb" if "stored_running s' sb"
    using before [OF that] running_shrinks [of s2 s3 sb] c3 running_core [OF c] by (simp add: calm_def)
  show "sbID sb \<noteq> plVictimID res" if "stored_running s' sb" "plVictimID res \<noteq> ''''"
    using evicted_stops [OF g2 ev [unfolded none] that(2) before [OF that(1)]] .
qed

text \<open>A reservation is for a worker without a running sandbox.\<close>

definition reserve_ok :: "('m, 'w) scheduler \<Rightarrow> bool" where
  "reserve_ok s \<longleftrightarrow> (\<forall>wid sid sb. mget (sdRestoreReserve s) wid = Some sid \<longrightarrow>
     stored_running s sb \<longrightarrow> sbWorkerID sb \<noteq> wid)"

lemma reserve_ok_calm: "reserve_ok s \<Longrightarrow> calm s s' \<Longrightarrow> reserve_ok s'"
  unfolding reserve_ok_def calm_def using running_shrinks by metis

lemma knock_decide_choice:
  assumes "store_ok s" "reserve_ok s" "sbID (ruSb c) = ruID c"
    and "knock_decide cfg c s = (Inr adm, s')"
  shows "mget (sdRestoreReserve s) (wkID (adWorker adm)) \<in> {None, Some (ruID c)}"
    and "stored_running s' sb \<Longrightarrow> sbWorkerID sb \<noteq> wkID (adWorker adm)"
proof -
  have good: "good s" using assms(1) by (simp add: store_but_def)
  obtain e s1 where en: "ensureKnockerTurn cfg (ruSb c) s = (e, s1)"
    by (cases "ensureKnockerTurn cfg (ruSb c) s")
  have c1: "calm s s1"
    using core_of_snd [of "ensureKnockerTurn cfg (ruSb c)", OF en] good by (simp add: calm_core)
  have none: "e = None" using assms(4) en by (cases e) (auto simp: knock_decide_def)
  obtain cands s2 where rc: "resumeCandidates cfg (ruSb c) s1 = (cands, s2)"
    by (cases "resumeCandidates cfg (ruSb c) s1")
  obtain ws run where cands: "cands = Inr (ws, run)"
    using assms(4) en rc none by (cases cands) (auto simp: knock_decide_def)
  have c2: "calm s s2" by (rule calm_trans [OF c1 resumeCandidates_calm [OF calm_good [OF c1] rc]])
  note cand = resumeCandidates_result [OF calm_good [OF c1] rc [unfolded cands], unfolded assms(3)]
  define req where "req = \<lparr>rrSandbox = ruSb c, rrWorkers = ws, rrRunning = run,
    rrSandboxSignals = fst (signalViews (cfNow cfg (sdTick s2)) (tick s2)),
    rrWorkerSignals = snd (signalViews (cfNow cfg (sdTick s2)) (tick s2)),
    rrWaiting = fst (listResumeWaitState (tick s2)),
    rrWaitingSince = Some (snd (listResumeWaitState (tick s2)))\<rparr>"
  obtain res s3 where pol: "policy_call_Resume cfg req (tick s2) = (res, s3)"
    by (cases "policy_call_Resume cfg req (tick s2)")
  have body: "(Inr adm, s') = (case res of Inl x \<Rightarrow> (Inl x, s3) | Inr pl \<Rightarrow> knock_admit cfg c pl s3)"
    using assms(4) en rc cands none pol
    by (cases res) (simp_all add: knock_decide_def reading_defs req_def split_def Let_def)
  then obtain pl where pl: "res = Inr pl" and admit: "knock_admit cfg c pl s3 = (Inr adm, s')"
    by (cases res) (auto dest: sym)
  obtain r n n' where chosen: "policy_Resume (cfPolicy cfg) r n n' req = Inr pl"
    using pol pl by (auto simp: policy_call_Resume_def reading_defs)
  have c3: "core s3 = core s2" using core_of_snd [of "policy_call_Resume cfg req", OF pol] by simp
  have g3: "good s3" by (rule good_core [OF calm_good [OF c2] c3])
  note ch = knock_admit_choice [OF g3 admit]
  have ok2: "store_ok s2" using store_ok_evolves [OF assms(1)] c2 by (simp add: calm_def)
  have res2: "sdRestoreReserve s2 = sdRestoreReserve s" using c2 by (simp add: calm_def)
  have now: "stored_running s2 sb" if "stored_running s' sb" for sb
    using ch(2) [OF that] running_core [OF c3] by simp
  have holds: "\<exists>a. addr s2 (sbWorkerID sb) = Some a \<and> slots s2 a = Some (sbID sb)"
    if "stored_running s2 sb" for sb
    using store_okD [OF ok2] that unfolding stored_running_def by blast
  have ids: "identified (rrRunning req)"
    using cand(2) ok2 by (auto simp: identified_def req_def stored_running_def store_but_def foreign_name_def)
  have idle: "\<exists>w. offered s2 (ruID c) w \<and> 0 < FreeSlots w \<and> wkID w = plWorkerID pl"
    if "plVictimID pl = ''''"
  proof -
    from any_policy.resume_idle [OF chosen that ids]
    obtain w where w: "idle_for (placeFromResume req) w" "wkID w = plWorkerID pl" by blast
    have "w \<in> set ws" using w(1) by (simp add: idle_for_def placeFromResume_def req_def)
    then show ?thesis using idle_for_free [OF w(1)] cand(1) w(2) by blast
  qed
  show "mget (sdRestoreReserve s) (wkID (adWorker adm)) \<in> {None, Some (ruID c)}"
  proof (cases "plVictimID pl = ''''")
    case True
    from idle [OF this] show ?thesis using ch(1) res2 by (auto simp: offered_def)
  next
    case False
    from any_policy.resume_evict [OF chosen False]
    obtain v where "v \<in> set run" "sbWorkerID v = plWorkerID pl" by (auto simp: req_def)
    then show ?thesis using cand(2) ch(1) reserve_ok_calm [OF assms(2) c2] res2
      by (auto simp: reserve_ok_def)
  qed
  show "sbWorkerID sb \<noteq> wkID (adWorker adm)" if sb: "stored_running s' sb"
  proof
    assume on: "sbWorkerID sb = wkID (adWorker adm)"
    then obtain a where a: "addr s2 (plWorkerID pl) = Some a" "slots s2 a = Some (sbID sb)"
      using holds [OF now [OF sb]] ch(1) by auto
    show False
    proof (cases "plVictimID pl = ''''")
      case True
      from idle [OF this] show False using a by (auto simp: offered_def)
    next
      case False
      from any_policy.resume_evict [OF chosen False]
      obtain v where v: "v \<in> set run" "sbID v = plVictimID pl" "sbWorkerID v = plWorkerID pl"
        by (auto simp: req_def)
      then have "slots s2 a = Some (sbID v)" using holds [of v] cand(2) a(1) by auto
      then show False using a(2) v(2) ch(3) [OF sb False] by simp
    qed
  qed
qed

end

context sched_env
begin

section \<open>The invariant\<close>

definition holds_reserve :: "('m, 'w) scheduler \<Rightarrow> string \<Rightarrow> resume_pc \<Rightarrow> bool" where
  "holds_reserve s sid pc \<longleftrightarrow>
     (\<forall>w. admitted pc = Some w \<longrightarrow> mget (sdRestoreReserve s) (wkID w) = Some sid)"

definition exclusive :: "('m, 'w) system \<Rightarrow> bool" where
  "exclusive sys \<longleftrightarrow> reserve_ok (fst sys)
     \<and> (\<forall>sid pc. snd sys sid = Some pc \<longrightarrow> holds_reserve (fst sys) sid pc)"

lemma exclusive_shrink:
  assumes "exclusive (s, cs)" "sdRestoreReserve s' = sdRestoreReserve s"
    and "\<And>sb. stored_running s' sb \<Longrightarrow> stored_running s sb"
  shows "exclusive (s', cs)"
  using assms unfolding exclusive_def reserve_ok_def holds_reserve_def fst_conv snd_conv by metis

lemma exclusive_calm: "exclusive (s, cs) \<Longrightarrow> calm s s' \<Longrightarrow> exclusive (s', cs)"
  using exclusive_shrink running_shrinks unfolding calm_def by blast

lemma exclusive_call:
  "exclusive (s, cs) \<Longrightarrow> holds_reserve s sid pc \<Longrightarrow> exclusive (s, cs(sid \<mapsto> pc))"
  by (simp add: exclusive_def)

lemma exclusiveD:
  assumes "exclusive (s, cs)"
  shows "reserve_ok s" "cs sid = Some pc \<Longrightarrow> holds_reserve s sid pc"
  using assms by (simp_all add: exclusive_def)

lemma not_admitted: "admitted pc = None \<Longrightarrow> holds_reserve s sid pc"
  by (simp add: holds_reserve_def)

lemma exclusive_admit:
  assumes "exclusive (s, cs)" "calm s s1" "s' = reserveRestore (wkID w) sid s1"
    and "mget (sdRestoreReserve s) (wkID w) \<in> {None, Some sid}"
    and "\<And>sb. stored_running s' sb \<Longrightarrow> sbWorkerID sb \<noteq> wkID w"
    and "admitted pc = Some w"
  shows "exclusive (s', cs(sid \<mapsto> pc))"
proof -
  have e1: "exclusive (s1, cs)" by (rule exclusive_calm [OF assms(1,2)])
  have r: "mget (sdRestoreReserve s') = (mget (sdRestoreReserve s1))(wkID w \<mapsto> sid)"
    by (simp add: assms(3) reserveRestore_def)
  have run: "stored_running s' = stored_running s1"
    by (simp add: fun_eq_iff stored_running_def sbs_def assms(3))
  have "reserve_ok s'"
    using exclusiveD(1) [OF e1] assms(5) r run unfolding reserve_ok_def by (metis map_upd_Some_unfold)
  moreover have "holds_reserve s' o' pc'" if "(cs(sid \<mapsto> pc)) o' = Some pc'" for o' pc'
  proof (cases "o' = sid")
    case True
    then show ?thesis using that r assms(6) by (auto simp: holds_reserve_def)
  next
    case False
    then have old: "holds_reserve s o' pc'" "holds_reserve s1 o' pc'"
      using exclusiveD(2) [OF assms(1)] exclusiveD(2) [OF e1] that by auto
    then show ?thesis using False assms(4) r by (auto simp: holds_reserve_def)
  qed
  ultimately show ?thesis by (simp add: exclusive_def)
qed

text \<open>A call that settles gives up its own reservation and no other.\<close>

lemma exclusive_settle:
  assumes "exclusive (s, cs)" "cs sid = Some pc" "admitted pc = Some w"
    and "sdRestoreReserve s' = sdRestoreReserve (clearRestoreReserve (wkID w) sid s)"
    and "\<And>sb. stored_running s' sb \<Longrightarrow> stored_running s sb \<or> sbWorkerID sb = wkID w"
    and "admitted pc' = None"
  shows "exclusive (s', cs(sid \<mapsto> pc'))"
proof -
  have own: "mget (sdRestoreReserve s) (wkID w) = Some sid"
    using exclusiveD(2) [OF assms(1,2)] assms(3) by (simp add: holds_reserve_def)
  then have r: "mget (sdRestoreReserve s') = (mget (sdRestoreReserve s))(wkID w := None)"
    using assms(4) by (simp add: clearRestoreReserve_def)
  have "reserve_ok s'"
    using exclusiveD(1) [OF assms(1)] assms(5) r unfolding reserve_ok_def
    by (metis fun_upd_apply option.distinct(1))
  moreover have "holds_reserve s' o' p" if "(cs(sid \<mapsto> pc')) o' = Some p" for o' p
  proof (cases "o' = sid")
    case True
    then show ?thesis using that assms(6) by (simp add: not_admitted)
  next
    case False
    then have old: "holds_reserve s o' p" using exclusiveD(2) [OF assms(1)] that by auto
    then show ?thesis using False own r by (auto simp: holds_reserve_def)
  qed
  ultimately show ?thesis by (simp add: exclusive_def)
qed

lemma exclusive_knock:
  assumes ag: "agree (s, cs)" and ex: "exclusive (s, cs)"
    and here: "cs sid = Some (AtKnock c)" "knock cfg c s = (pc', s')"
  shows "exclusive (s', cs(sid \<mapsto> pc'))"
proof -
  have id_sb: "ruID c = sid" "sbID (ruSb c) = sid"
    using agreeD(3) [OF ag here(1)] by (simp_all add: call_ok_def)
  obtain sb s1 where rr: "reread cfg sid (ruSb c) s = (sb, s1)"
    by (cases "reread cfg sid (ruSb c) s")
  note r = reread_result [OF agreeD(2) [OF ag] rr]
  define c1 where "c1 = c\<lparr>ruSb := sb\<rparr>"
  have id1: "ruID c1 = sid" "sbID (ruSb c1) = sid" using id_sb r(3) by (simp_all add: c1_def)
  have s1: "calm s s1" by (rule calm_core [OF agreeD(2) [OF ag] r(1)])
  have ex1: "exclusive (s1, cs)" by (rule exclusive_calm [OF ex s1])
  have ok1: "store_ok s1" using store_ok_evolves [OF agreeD(1) [OF ag]] s1 by (simp add: calm_def)
  obtain d s2 where kd: "knock_decide cfg c1 s1 = (d, s2)" by (cases "knock_decide cfg c1 s1")
  note k = knock_decide_knocked [OF calm_good [OF s1] kd, unfolded id1]
  show ?thesis
  proof (cases d)
    case (Inl e)
    then have "pc' = AtRefused (c1\<lparr>ruLastErr := Some e\<rparr>)" "s' = s2"
      using here(2) rr kd id_sb by (simp_all add: knock_def c1_def)
    moreover have "exclusive (s2, cs)" using exclusive_calm [OF ex1] k Inl by (simp add: knocked_def)
    ultimately show ?thesis using exclusive_call not_admitted by simp
  next
    case (Inr adm)
    then have out: "pc' = AtRestore (c1\<lparr>ruLastErr := None\<rparr>) adm" "s' = s2"
      using here(2) rr kd id_sb by (simp_all add: knock_def c1_def)
    obtain s3 where s3: "calm s1 s3" "s2 = reserveRestore (wkID (adWorker adm)) sid s3"
      using k Inr unfolding knocked_def by auto
    note ch = knock_decide_choice [OF ok1 exclusiveD(1) [OF ex1], of c1 adm s2, unfolded id1]
    show ?thesis unfolding out
      by (rule exclusive_admit [OF ex1 s3]) (use ch kd Inr in simp_all)
  qed
qed

lemma exclusive_resume_step:
  assumes ag: "agree (s, cs)" and ex: "exclusive (s, cs)"
    and here: "cs sid = Some pc" "resume_step cfg d pc s = (pc', s')"
  shows "exclusive (s', cs(sid \<mapsto> pc'))"
proof -
  note g = agreeD(2) [OF ag] and ok = agreeD(3) [OF ag here(1)]
  consider c where "pc = AtKnock c" | c a where "pc = AtRestore c a" | c a p where "pc = AtCommit c a p"
    | "\<nexists>c. pc = AtKnock c" "admitted pc = None" by (cases pc) auto
  then show ?thesis
  proof cases
    case 1
    then show ?thesis using exclusive_knock [OF ag ex] here by simp
  next
    case (2 c a)
    then have c: "ruID c = sid" using ok by (simp add: call_ok_def)
    note r = do_restore_result [OF g, of c a pc' s', unfolded c]
    have res: "do_restore cfg c a s = (pc', s')" using here(2) 2 by simp
    have run: "stored_running s' = stored_running s"
      using r [OF res] by (simp add: fun_eq_iff stored_running_def)
    show ?thesis
    proof (cases "\<exists>p. pc' = AtCommit c a p")
      case True
      then have "sdRestoreReserve s' = sdRestoreReserve s" using r [OF res] by simp
      then have "exclusive (s', cs)" by (rule exclusive_shrink [OF ex]) (simp add: run)
      moreover have "holds_reserve s' sid pc'"
        using exclusiveD(2) [OF ex here(1)] True 2 \<open>sdRestoreReserve s' = sdRestoreReserve s\<close>
        by (auto simp: holds_reserve_def)
      ultimately show ?thesis by (rule exclusive_call)
    next
      case False
      then obtain e where e: "pc' = Returned sid (Inl e)" "sdRestoreReserve s' =
          sdRestoreReserve (clearRestoreReserve (wkID (adWorker a)) sid s)" using r [OF res] by auto
      then show ?thesis
        by (intro exclusive_settle [OF ex here(1) _ e(2)]) (use 2 run e in simp_all)
    qed
  next
    case (3 c a p)
    then have c: "ruID c = sid" "sbID (ruSb c) = ruID c" using ok by (simp_all add: call_ok_def)
    have res: "do_commit cfg c a p s = (pc', s')" using here(2) 3 by simp
    from do_commit_result [OF g res c(2)] obtain sb where
      r: "sdRestoreReserve s' = sdRestoreReserve (clearRestoreReserve (wkID (adWorker a)) sid s)"
        "pc' = Returned sid (Inr sb)" "sbs s' = (sbs s)(sid \<mapsto> sb)" "sbWorkerID sb = wkID (adWorker a)"
      unfolding c(1) by blast
    then show ?thesis
      by (intro exclusive_settle [OF ex here(1) _ r(1)])
        (use 3 in \<open>auto simp: stored_running_def split: if_splits\<close>)
  next
    case 4
    then have q: "core s' = core s" "admitted pc' = None"
      using quiet_step [OF g here(2) call_okD(2) [OF ok]] by simp_all
    then show ?thesis
      using exclusive_call [OF exclusive_calm [OF ex calm_core [OF g]]] not_admitted by blast
  qed
qed

lemma Exec_calm: "good s \<Longrightarrow> Exec cfg sid argv s = (x, s') \<Longrightarrow> calm s s'"
  using exec_evolves [of s] calm_refl [of s]
  by (auto simp: Exec_def calm_def split: sum.splits if_splits)

lemma exclusive_sys_step:
  assumes "sys_step cfg sys sys'" "agree sys" "exclusive sys"
  shows "exclusive sys'"
  using assms(1,2,3)
proof cases
  case (create s r s' cs)
  then have g: "good s" using assms(2) agreeD by blast
  obtain sb where c: "sdRestoreReserve s' = sdRestoreReserve s" "sbState sb = SandboxSuspended"
    "sbs s' = (sbs s)(sbID sb \<mapsto> sb)" using Create_effect [OF g create(3)] by blast
  have "stored_running s x" if x: "stored_running s' x" for x
  proof (cases "sbID x = sbID sb")
    case True
    then have "x = sb" using x unfolding stored_running_def c(3) by simp
    then show ?thesis using x c(2) by (simp add: stored_running_def is_running_def)
  next
    case False
    then show ?thesis using x unfolding stored_running_def c(3) by simp
  qed
  then show ?thesis using exclusive_shrink [OF assms(3) [unfolded create(1)] c(1)] create(2) by blast
next
  case (register w s e s' cs)
  then have g: "good s" using assms(2) agreeD by blast
  have p: "sbs s' = sbs s" "sdRestoreReserve s' = sdRestoreReserve s"
    using on_store_put_worker [OF g register(3)] by simp_all
  have "stored_running s' = stored_running s" by (simp add: fun_eq_iff stored_running_def p(1))
  then show ?thesis unfolding register(2)
    by (intro exclusive_shrink [OF assms(3) [unfolded register(1)] p(2)]) simp
next
  case (start cs sid s pc' s')
  then have g: "good s" using assms(2) agreeD by blast
  note b = resume_begin_result [OF g start(4)]
  then show ?thesis unfolding start(2)
    using exclusive_call [OF exclusive_calm [OF _ calm_core [OF g]]] not_admitted start(1) assms(3)
    by blast
next
  case (step cs sid pc d s pc' s')
  then show ?thesis using exclusive_resume_step assms(2,3) by simp
next
  case (pause sid s r s' cs)
  then show ?thesis using exclusive_calm calm_pauseOrSuspend agreeD(2) assms(2,3)
    unfolding Pause_def by metis
next
  case (suspend sid s r s' cs)
  then show ?thesis using exclusive_calm calm_pauseOrSuspend agreeD(2) assms(2,3)
    unfolding Suspend_def by metis
next
  case (del sid s e s' cs)
  then show ?thesis using exclusive_calm calm_Delete agreeD(2) assms(2,3) by metis
next
  case (exec sid argv s x s' cs)
  then show ?thesis using exclusive_calm Exec_calm agreeD(2) assms(2,3) by metis
next
  case (golden s g s' cs)
  then show ?thesis using exclusive_calm EnsureGolden_calm agreeD(2) assms(2,3) by metis
next
  case (signal s cs f)
  then show ?thesis using exclusive_calm calm_core agreeD(2) assms(2,3) by (metis core_frame(3))
next
  case (clock s cs)
  then show ?thesis using exclusive_calm calm_core agreeD(2) assms(2,3) by (metis core_frame(1))
qed

lemma exclusive_reachable:
  assumes "(sys_step cfg)\<^sup>*\<^sup>* sys sys'" "agree sys" "exclusive sys" "\<And>n. \<not> foreign_name (cfUUID cfg n)"
  shows "exclusive sys'"
  using assms(1)
proof (induction rule: rtranclp_induct)
  case base
  then show ?case by (rule assms(3))
next
  case (step y z)
  have "agree y" by (rule agree_reachable [OF step(1) assms(2,4)])
  then show ?case by (rule exclusive_sys_step [OF step(2) _ step(3)])
qed

end

end
