(* ===== verification/Deployed.thy ===== *)
theory Deployed
  imports SchedExclusive
begin

text \<open>
  The scheduler on the store of \<open>internal/store/memory.go\<close> and on worker servers reached over HTTP: both
  keep the contracts the invariants were proved from, so the invariants hold of the deployed system.
\<close>

section \<open>The parts put together\<close>

definition deployed ::
    "'h host_api \<Rightarrow> (memory, 'h cluster) sched_cfg \<Rightarrow> (memory, 'h cluster) sched_cfg" where
  "deployed H cfg = cfg\<lparr>cfStore := Memory, cfWorkers := http_workers H\<rparr>"

interpretation deployed_env: sched_env "deployed H cfg" memory_ok "\<lambda>m. mget (mmSandboxes m)"
    "\<lambda>m. mget (mmWorkers m)" mmGolden cluster_ok cluster_slot
  for H :: "'h host_api" and cfg :: "(memory, 'h cluster) sched_cfg"
proof -
  have "cfStore (deployed H cfg) = Memory" "cfWorkers (deployed H cfg) = http_workers H"
    by (simp_all add: deployed_def)
  then show "sched_env (deployed H cfg) memory_ok (\<lambda>m. mget (mmSandboxes m))
      (\<lambda>m. mget (mmWorkers m)) mmGolden cluster_ok cluster_slot"
    by (simp add: sched_env_def memory.metadata_store_axioms http.worker_pool_axioms)
qed

text \<open>A state to start from: nothing runs, no restore is in flight.\<close>

definition fresh_start :: "(memory, 'h cluster) scheduler \<Rightarrow> bool" where
  "fresh_start s \<longleftrightarrow> memory_ok (sdStore s) \<and> cluster_ok (sdWorld s) \<and> sdRestoreReserve s = []
     \<and> list_all (\<lambda>(sid, sb). \<not> is_running sb \<and> \<not> foreign_name sid) (mmSandboxes (sdStore s))"

lemma fresh_stored:
  assumes "fresh_start s" "mget (mmSandboxes (sdStore s)) sid = Some sb"
  shows "\<not> is_running sb" "\<not> foreign_name sid"
  using assms by (auto simp: fresh_start_def list_all_iff dest: map_of_SomeD)

lemma fresh_invariants:
  assumes "fresh_start s"
  shows "deployed_env.agree (s, Map.empty)" "deployed_env.exclusive (s, Map.empty)"
proof -
  have "deployed_env.good s" using assms by (simp add: fresh_start_def deployed_env.good_def)
  moreover have "foreign_name sid \<Longrightarrow> mget (mmSandboxes (sdStore s)) sid = None" for sid
    using fresh_stored(2) [OF assms] by fastforce
  ultimately show "deployed_env.agree (s, Map.empty)"
    using fresh_stored(1) [OF assms]
    by (auto simp: deployed_env.agree_but_def deployed_env.store_but_def deployed_env.sbs_def)
  show "deployed_env.exclusive (s, Map.empty)"
    using assms by (simp add: deployed_env.exclusive_def deployed_env.reserve_ok_def fresh_start_def)
qed

lemma deployed_reachable:
  assumes "sys_reachable (deployed H cfg) (s0, Map.empty) (s, cs)" "fresh_start s0"
    and "\<And>n. \<not> foreign_name (cfUUID cfg n)"
  shows "deployed_env.agree (s, cs)" "deployed_env.exclusive (s, cs)"
proof -
  have u: "\<And>n. \<not> foreign_name (cfUUID (deployed H cfg) n)" using assms(3) by (simp add: deployed_def)
  show "deployed_env.agree (s, cs)"
    by (rule deployed_env.agree_reachable [OF assms(1) fresh_invariants(1) [OF assms(2)] u])
  show "deployed_env.exclusive (s, cs)"
    by (rule deployed_env.exclusive_reachable [OF assms(1) fresh_invariants [OF assms(2)] u])
qed

lemma Get_deployed:
  assumes "sys_reachable (deployed H cfg) (s0, Map.empty) (s, cs)" "fresh_start s0"
    and "\<And>n. \<not> foreign_name (cfUUID cfg n)"
  shows "(Get (deployed H cfg) sid s = Inr sb) = (mget (mmSandboxes (sdStore s)) sid = Some sb)"
  using deployed_env.get_sandbox [of "sdStore s"] deployed_env.agreeD(2) [OF deployed_reachable(1) [OF assms]]
  by (simp add: Get_def deployed_env.good_def)

section \<open>A small deployment\<close>

text \<open>
  One worker with an empty disk, a golden snapshot in the object store, one suspended sandbox that
  has never run, the fifo policy.
\<close>

definition demo_cfg :: "(memory, demo_host cluster) sched_cfg" where
  "demo_cfg = \<lparr>cfStore = Memory, cfPolicy = FIFO, cfWorkers = http_workers (demo_api True),
     cfSnapRoot = ''/'', cfNow = (\<lambda>n. int n), cfDraw = (\<lambda>n. n), cfUUID = (\<lambda>n. ''u''),
     cfEnv = (\<lambda>_. '''')\<rparr>"

definition demo_sandbox :: "string \<Rightarrow> sandbox" where
  "demo_sandbox sid = zero_sandbox\<lparr>sbID := sid, sbState := SandboxSuspended\<rparr>"

definition demo_start :: "(memory, demo_host cluster) scheduler" where
  "demo_start = sched_New
     \<lparr>mmSandboxes = [(''u'', demo_sandbox ''u'')], mmWorkers = [(''w'', worker0 ''w'' 1)], mmGolden = ''g''\<rparr>
     \<lparr>clNodes = [(''w'', New ''w'' (demo_host0\<lparr>dhObjects := [(''g'', [''f''])]\<rparr>) None None)],
      clNow = 1, clTransfer = 1\<rparr> None None"

lemma demo_deployed: "deployed (demo_api True) demo_cfg = demo_cfg"
  by (simp add: deployed_def demo_cfg_def)

lemma demo_fresh: "fresh_start demo_start"
  by (simp add: fresh_start_def demo_start_def sched_New_def memory_ok_def cluster_ok_def gomap_ok_def
      demo_sandbox_def worker0_def New_def slot_ok_def is_running_def foreign_name_def zero_sandbox_def)

lemma demo_uuid: "\<not> foreign_name (cfUUID demo_cfg n)"
  by (simp add: demo_cfg_def foreign_name_def)

lemmas demo_defs = demo_cfg_def demo_start_def demo_sandbox_def sched_New_def worker0_def New_def
  demo_host0_def zero_sandbox_def demo_api_def reading_defs tick_def on_metrics_def on_signals_def
  on_store_def on_workers_def logDecision_def memory_defs

lemmas resume_defs = resume_begin_def reread_def addResumeWaiter_def semanticWaitDuration_def
  await_test_def ensureKnockerTurn_def knock_def knock_decide_def resumeCandidates_def
  healthyWorkers_def running_def applyRestoreReserves_def knock_admit_def resume_evict_def
  resume_source_def EnsureGolden_def reserveRestore_def policy_call_Resume_def signalViews_def
  listResumeWaitState_def do_restore_def do_commit_def resume_return_def clearRestoreReserve_def
  removeResumeWaiter_def sched_localPath_def localPath_def snap_root_def filepath_Clean_def
  clean_step_def FIFO_Resume_def FIFO_Place_def tryStickyResume_def placeFromResume_def
  pickIdleWorker_def sortWorkersByLoad_def workerEligibleForPlace_def FreeSlots_def in_int64_def
  min_int64_def max_int64_def

lemmas worker_defs = http_workers_def Client_Status_def Client_Restore_def client_do_def
  sandbox_url_def routed_def plain_name_def err_of_def handleStatus_def handleRestore_def
  restore_run_def claim_def markActive_def mget_or_def

text \<open>The resume of that sandbox, from the call to its return, in six steps after the first.\<close>

lemma demo_resume:
  "case resume_run demo_cfg 6 (resume_begin demo_cfg ''u'' demo_start) of (pc, s) \<Rightarrow>
     (\<exists>sb. pc = Returned ''u'' (Inr sb) \<and> sbState sb = SandboxRunning \<and> sbWorkerID sb = ''w''
        \<and> mget (mmSandboxes (sdStore s)) ''u'' = Some sb)
     \<and> cluster_slot (sdWorld s) ''w'' = Some ''u''"
  by (simp add: demo_defs resume_defs worker_defs Let_def eval_nat_numeral cluster_slot_def ws_slot_def)

lemma demo_reached:
  obtains s sb where "sys_reachable demo_cfg (demo_start, Map.empty) (s, [''u'' \<mapsto> Returned ''u'' (Inr sb)])"
    "mget (mmSandboxes (sdStore s)) ''u'' = Some sb" "sbState sb = SandboxRunning" "sbWorkerID sb = ''w''"
proof -
  obtain pc s where run: "resume_run demo_cfg 6 (resume_begin demo_cfg ''u'' demo_start) = (pc, s)"
    by (cases "resume_run demo_cfg 6 (resume_begin demo_cfg ''u'' demo_start)")
  from demo_resume [unfolded this] obtain sb where
    "pc = Returned ''u'' (Inr sb)" "sbState sb = SandboxRunning" "sbWorkerID sb = ''w''"
    "mget (mmSandboxes (sdStore s)) ''u'' = Some sb" by auto
  with resume_reachable [OF run, of Map.empty] that show thesis by simp
qed

lemma demo_admission:
  "case resume_run demo_cfg 3 (resume_begin demo_cfg ''u'' demo_start) of (pc, s) \<Rightarrow>
     \<exists>w. admitted pc = Some w \<and> wkID w = ''w''"
  by (simp add: demo_defs resume_defs worker_defs Let_def eval_nat_numeral)

section \<open>Properties\<close>






text \<open>The sandbox of the small deployment once it runs.\<close>

definition demo_busy :: "(memory, demo_host cluster) scheduler" where
  "demo_busy = demo_start\<lparr>
     sdStore := (sdStore demo_start)\<lparr>mmSandboxes :=
       [(''u'', (demo_sandbox ''u'')\<lparr>sbState := SandboxRunning, sbWorkerID := ''w''\<rparr>)]\<rparr>,
     sdWorld := (sdWorld demo_start)\<lparr>clNodes := [(''w'', (New ''w'' demo_host0 None None)
       \<lparr>wsAlive := [(''u'', ())], wsHost := demo_host0\<lparr>dhRunning := [''u'']\<rparr>\<rparr>)]\<rparr>\<rparr>"


end
