(* ===== verification/Multiplexer.thy ===== *)
theory Multiplexer
  imports Deployed
begin

text \<open>
  What the control plane promises, without its machinery: a table of sandboxes, each parked or on a
  worker, that changes by parking, creating and starting, with at most one sandbox per worker. Every
  step of the deployed system is a step of this table.
\<close>

section \<open>The promise\<close>

datatype life = Parked | On string

type_synonym mux = "string \<Rightarrow> life option"

text \<open>
  Sandboxes may stop or disappear at any time (a suspend, an eviction, a delete); a new one is parked;
  one that is not running is started on a worker that nobody is on.
\<close>

inductive mux_step :: "mux \<Rightarrow> mux \<Rightarrow> bool" where
  stop: "dom m' \<subseteq> dom m \<Longrightarrow> (\<And>sid w. m' sid = Some (On w) \<Longrightarrow> m sid = Some (On w)) \<Longrightarrow> mux_step m m'"
| create: "mux_step m (m(sid \<mapsto> Parked))"
| start: "(\<And>w'. m sid \<noteq> Some (On w')) \<Longrightarrow> (\<And>x. m x \<noteq> Some (On w)) \<Longrightarrow> mux_step m (m(sid \<mapsto> On w))"

definition mux_ok :: "mux \<Rightarrow> bool" where
  "mux_ok m \<longleftrightarrow> (\<forall>x y w. m x = Some (On w) \<longrightarrow> m y = Some (On w) \<longrightarrow> x = y)"

lemma mux_step_ok: "mux_step m m' \<Longrightarrow> mux_ok m \<Longrightarrow> mux_ok m'"
proof (induction rule: mux_step.induct)
  case (stop m' m)
  then show ?case unfolding mux_ok_def by blast
qed (auto simp: mux_ok_def)

lemma mux_refl: "mux_step m m"
  by (rule mux_step.stop) simp_all

section \<open>The abstraction\<close>

definition life_of :: "sandbox \<Rightarrow> life" where
  "life_of sb = (if sbState sb = SandboxRunning then On (sbWorkerID sb) else Parked)"

definition mux_of :: "(memory, 'w) scheduler \<Rightarrow> mux" where
  "mux_of s sid = map_option life_of (mget (mmSandboxes (sdStore s)) sid)"

context sched_env
begin

definition view :: "('m, 'w) scheduler \<Rightarrow> mux" where
  "view s sid = map_option life_of (sbs s sid)"

lemma view_on: "view s sid = Some (On w) \<longleftrightarrow> (\<exists>sb. sbs s sid = Some sb \<and> is_running sb \<and> sbWorkerID sb = w)"
  by (auto simp: view_def life_of_def is_running_def)

lemma view_same: "sbs s' = sbs s \<Longrightarrow> view s' = view s"
  by (simp add: view_def fun_eq_iff)

lemma view_evolves: "evolves s s' \<Longrightarrow> mux_step (view s) (view s')"
proof (rule mux_step.stop)
  assume e: "evolves s s'"
  show "dom (view s') \<subseteq> dom (view s)" using evolvesD(3) [OF e] by (auto simp: view_def dom_def)
  show "view s sid = Some (On w)" if "view s' sid = Some (On w)" for sid w
    using evolvesD(4) [OF e] that by (auto simp: view_on)
qed

lemma view_core: "core s' = core s \<Longrightarrow> mux_step (view s) (view s')"
  using view_same [OF core_views(2)] mux_refl by metis

lemma view_commit:
  assumes ag: "agree (s, cs)" and ex: "exclusive (s, cs)" and c: "cs sid = Some (AtCommit c a p)"
    and commit: "do_commit cfg c a p s = (pc', s')"
  shows "mux_step (view s) (view s')"
proof -
  note ok = agreeD(3) [OF ag c]
  then have c_id: "ruID c = sid" "sbID (ruSb c) = ruID c" "stopped s sid" by (simp_all add: call_ok_def)
  obtain sb where sb: "sbs s' = (sbs s)(sid \<mapsto> sb)" "sbState sb = SandboxRunning"
    "sbWorkerID sb = wkID (adWorker a)"
    using do_commit_result [OF agreeD(2) [OF ag] commit c_id(2)] unfolding c_id(1) by blast
  have "view s' = (view s)(sid \<mapsto> On (wkID (adWorker a)))"
    by (simp add: view_def fun_eq_iff sb life_of_def)
  moreover have "view s sid \<noteq> Some (On w)" for w
    using c_id(3) by (auto simp: view_on stopped_def)
  moreover have "view s x \<noteq> Some (On (wkID (adWorker a)))" for x
  proof
    assume "view s x = Some (On (wkID (adWorker a)))"
    then obtain y where y: "sbs s x = Some y" "is_running y" "sbWorkerID y = wkID (adWorker a)"
      by (auto simp: view_on)
    have "sbID y = x" using y(1) sandbox_key agreeD(2) [OF ag] by (auto simp: sbs_def good_def)
    then have "stored_running s y" using y by (simp add: stored_running_def)
    then show False
      using exclusiveD [OF ex] c y(3) by (auto simp: reserve_ok_def holds_reserve_def)
  qed
  ultimately show ?thesis using mux_step.start by metis
qed

lemma view_resume_step:
  assumes ag: "agree (s, cs)" and ex: "exclusive (s, cs)" and c: "cs sid = Some pc"
    and st: "resume_step cfg d pc s = (pc', s')"
  shows "mux_step (view s) (view s')"
proof -
  note g = agreeD(2) [OF ag] and ok = agreeD(3) [OF ag c]
  consider c' where "pc = AtKnock c'" | c' a where "pc = AtRestore c' a" | c' a p where "pc = AtCommit c' a p"
    | "\<nexists>c. pc = AtKnock c" "admitted pc = None" by (cases pc) auto
  then show ?thesis
  proof cases
    case (1 c')
    then have "sbID (ruSb c') = ruID c'" using ok by (simp add: call_ok_def)
    note k = knock_result [OF g _ this, of pc' s']
    have "calm s s' \<or> (\<exists>adm. knocked (ruID c') s (Inr adm) s')" using k st 1 by auto
    then show ?thesis
    proof (elim disjE exE)
      fix adm assume "knocked (ruID c') s (Inr adm) s'"
      then obtain s1 where "evolves s s1" "s' = reserveRestore (wkID (adWorker adm)) (ruID c') s1"
        unfolding knocked_def calm_def sum.case by blast
      then show ?thesis using view_evolves [of s s1] view_same [of s' s1] by (simp add: sbs_def)
    qed (simp add: calm_def view_evolves)
  next
    case (2 c' a)
    then have "sbs s' = sbs s" using do_restore_result [OF g, of c' a pc' s'] st by simp
    then show ?thesis using view_same mux_refl by metis
  next
    case (3 c' a p)
    then show ?thesis using view_commit [OF ag ex, of sid c' a p] c st by simp
  next
    case 4
    then show ?thesis using quiet_step [OF g st call_okD(2) [OF ok]] view_core by blast
  qed
qed

theorem view_sys_step:
  assumes "sys_step cfg sys sys'" and "agree sys" and "exclusive sys"
  shows "mux_step (view (fst sys)) (view (fst sys'))"
proof -
  obtain s cs where sys: "sys = (s, cs)" by (cases sys)
  note ag = assms(2) [unfolded sys] and ex = assms(3) [unfolded sys]
  note g = agreeD(2) [OF ag]
  from assms(1) [unfolded sys] show ?thesis
  proof cases
    case (create r s')
    obtain sb where "sbs s' = (sbs s)(sbID sb \<mapsto> sb)" "sbState sb = SandboxSuspended"
      using Create_effect [OF g create(2)] by blast
    then have "view s' = (view s)(sbID sb \<mapsto> Parked)" by (simp add: view_def life_of_def fun_eq_iff)
    then show ?thesis using mux_step.create [of "view s" "sbID sb"] create(1) sys by simp
  next
    case (register w e s')
    then show ?thesis using on_store_put_worker [OF g register(2)] view_same [of s' s] mux_refl register(1) sys by simp
  next
    case (start sid pc' s')
    then show ?thesis using resume_begin_result [OF g] view_core sys by simp
  next
    case (step sid pc d pc' s')
    then show ?thesis using view_resume_step [OF ag ex] sys by simp
  next
    case (signal f)
    then show ?thesis using sys by (simp add: view_core)
  next
    case clock
    then show ?thesis using sys by (simp add: view_core)
  next
    case (pause sid r s')
    then show ?thesis using pauseOrSuspend_evolves [OF g] view_evolves sys by (simp add: Pause_def)
  next
    case (suspend sid r s')
    then show ?thesis using pauseOrSuspend_evolves [OF g] view_evolves sys by (simp add: Suspend_def)
  next
    case (del sid e s')
    then show ?thesis using Delete_evolves [OF g] view_evolves sys by simp
  next
    case (exec sid argv x s')
    then show ?thesis using Exec_evolves [OF g] view_evolves sys by simp
  next
    case (golden r s')
    then show ?thesis using EnsureGolden_calm [OF g] view_evolves sys by (simp add: calm_def)
  qed
qed

lemma agree_mux_ok: "agree (s, cs) \<Longrightarrow> mux_ok (view s)"
proof -
  assume ag: "agree (s, cs)"
  show ?thesis unfolding mux_ok_def view_on
  proof (intro allI impI, elim exE conjE)
    fix x y w sb sb'
    assume x: "sbs s x = Some sb" "is_running sb" "sbWorkerID sb = w"
      and y: "sbs s y = Some sb'" "is_running sb'" "sbWorkerID sb' = w"
    show "x = y"
      using store_okD [OF agreeD(1) [OF ag] x(1,2)] store_okD [OF agreeD(1) [OF ag] y(1,2)] x(3) y(3)
      by auto
  qed
qed

end

section \<open>The deployed system\<close>



end
