(* ===== verification/Races.thy ===== *)
theory Races
  imports Deployed
begin

text \<open>
  Two situations in which the scheduler and the workers, each doing what its code says, end in a state
  nobody wants: the discipline of one \<open>Resume\<close> per sandbox that the invariants assume is not enforced,
  and an image left on a worker is taken for the current state of a sandbox.
\<close>

section \<open>Two resumes of one sandbox\<close>

definition pair_node :: "string \<Rightarrow> string list \<Rightarrow> demo_host worker_server" where
  "pair_node wid run = \<lparr>wsWorkerID = wid, wsAlive = map (\<lambda>sid. (sid, ())) run, wsActivity = None,
     wsMetrics = None,
     wsHost = \<lparr>dhRunning = run,
       dhImages = map (\<lambda>sid. (localPath ''/'' wid sid, [''f''])) run, dhObjects = [(''g'', [''f''])]\<rparr>\<rparr>"

definition pair_state ::
    "sandbox \<Rightarrow> string list \<Rightarrow> string list \<Rightarrow> decision list \<Rightarrow> (string, resume_waiter) gomap \<Rightarrow> nat \<Rightarrow>
     (memory, demo_host cluster) scheduler" where
  "pair_state sb w v lg waiters n =
     \<lparr>sdStore = \<lparr>mmSandboxes = [(''u'', sb)],
        mmWorkers = [(''w'', worker0 ''w'' 1), (''v'', worker0 ''v'' 2)], mmGolden = ''g''\<rparr>,
      sdWorld = \<lparr>clNodes = [(''w'', pair_node ''w'' w), (''v'', pair_node ''v'' v)], clNow = 1, clTransfer = 1\<rparr>,
      sdSignals = None, sdMetrics = None, sdLog = lg, sdResumeWaiters = waiters, sdRestoreReserve = [],
      sdTick = n\<rparr>"

definition pair_start :: "(memory, demo_host cluster) scheduler" where
  "pair_start = pair_state (demo_sandbox ''u'') [] [] [] [] 0"

definition pair_call :: "gotime \<Rightarrow> gotime \<Rightarrow> resume_pc" where
  "pair_call t n = AtTop \<lparr>ruID = ''u'', ruSb = demo_sandbox ''u'', ruPrevWorkerID = '''', ruStart = t,
     ruWait = 300 * second, ruDeadline = time_Add n (300 * second), ruLastErr = None,
     ruEntered = False, ruDecStart = n + 1\<rparr>"

lemmas pair_defs = pair_state_def pair_node_def

lemma pair_begin:
  "resume_begin demo_cfg ''u'' pair_start = (pair_call 0 2,
     pair_state (demo_sandbox ''u'') [] [] [] [(''u'', \<lparr>rwSandbox = demo_sandbox ''u'', rwSince = 1\<rparr>)] 4)"
  "resume_begin demo_cfg ''u'' (pair_state (demo_sandbox ''u'') [] [] []
       [(''u'', \<lparr>rwSandbox = demo_sandbox ''u'', rwSince = 1\<rparr>)] 4) = (pair_call 4 5,
     pair_state (demo_sandbox ''u'') [] [] [] [(''u'', \<lparr>rwSandbox = demo_sandbox ''u'', rwSince = 1\<rparr>)] 7)"
  by (simp_all add: pair_start_def pair_call_def pair_defs demo_defs resume_defs Let_def)

lemma pair_first:
  "\<exists>sb lg. resume_run demo_cfg 6 (pair_call 0 2, pair_state (demo_sandbox ''u'') [] [] []
       [(''u'', \<lparr>rwSandbox = demo_sandbox ''u'', rwSince = 1\<rparr>)] 7)
     = (Returned ''u'' (Inr sb), pair_state sb [''u''] [] lg [] 20)
   \<and> sb = (demo_sandbox ''u'')\<lparr>sbState := SandboxRunning, sbWorkerID := ''w'', sbLocalSnapshotPath := ''/w/u'', sbUpdatedAt := 18\<rparr>"
  by (simp add: pair_call_def pair_defs demo_defs resume_defs worker_defs Let_def eval_nat_numeral
      worker_less_def workerLoadScore_def workerHostingCheckpoint.simps)
definition pair_running :: sandbox where
  "pair_running = (demo_sandbox ''u'')\<lparr>sbState := SandboxRunning, sbWorkerID := ''w'',
     sbLocalSnapshotPath := ''/w/u'', sbUpdatedAt := 18\<rparr>"

lemma pair_second:
  "case resume_run demo_cfg 6 (pair_call 4 5, pair_state pair_running [''u''] [] lg [] 20) of (pc, s) \<Rightarrow>
     (\<exists>sb. pc = Returned ''u'' (Inr sb) \<and> sbWorkerID sb = ''v'' \<and> mget (mmSandboxes (sdStore s)) ''u'' = Some sb)
     \<and> clNodes (sdWorld s) = [(''w'', pair_node ''w'' [''u'']), (''v'', pair_node ''v'' [''u''])]"
  by (simp add: pair_running_def pair_call_def pair_defs demo_defs resume_defs worker_defs Let_def eval_nat_numeral
      worker_less_def workerLoadScore_def workerHostingCheckpoint.simps)
text \<open>
  C29: the code admits two resumes of one sandbox. Two calls for the same suspended sandbox that both
  pass the state test before either commits both succeed: the closure under \<open>knockMu\<close> reads the
  sandbox again but not its state, so the second call places the running sandbox on another worker,
  and it runs on two workers at once. The invariants of the system hold for callers that keep at
  most one resume of a sandbox in flight.
\<close>

theorem double_resume_runs_twice:
  "\<exists>p s1 q s2 p' s3 q' s4 x y.
     resume_begin demo_cfg ''u'' pair_start = (p, s1) \<and> resume_begin demo_cfg ''u'' s1 = (q, s2)
     \<and> resume_run demo_cfg 6 (p, s2) = (p', s3) \<and> resume_run demo_cfg 6 (q, s3) = (q', s4)
     \<and> p' = Returned ''u'' (Inr x) \<and> q' = Returned ''u'' (Inr y)
     \<and> cluster_slot (sdWorld s4) ''w'' = Some ''u'' \<and> cluster_slot (sdWorld s4) ''v'' = Some ''u''
     \<and> list_all (\<lambda>(_, n). ''u'' \<in> set (dhRunning (wsHost n))) (clNodes (sdWorld s4))"
proof -
  obtain lg where first: "resume_run demo_cfg 6 (pair_call 0 2, pair_state (demo_sandbox ''u'') [] [] []
       [(''u'', \<lparr>rwSandbox = demo_sandbox ''u'', rwSince = 1\<rparr>)] 7)
     = (Returned ''u'' (Inr pair_running), pair_state pair_running [''u''] [] lg [] 20)"
    using pair_first by (auto simp: pair_running_def)
  obtain q' s4 where second: "resume_run demo_cfg 6
      (pair_call 4 5, pair_state pair_running [''u''] [] lg [] 20) = (q', s4)"
    by (cases "resume_run demo_cfg 6 (pair_call 4 5, pair_state pair_running [''u''] [] lg [] 20)")
  obtain y where y: "q' = Returned ''u'' (Inr y)"
    and nodes: "clNodes (sdWorld s4) = [(''w'', pair_node ''w'' [''u'']), (''v'', pair_node ''v'' [''u''])]"
    using pair_second [of lg, unfolded second] by auto
  have "cluster_slot (sdWorld s4) ''w'' = Some ''u'' \<and> cluster_slot (sdWorld s4) ''v'' = Some ''u''
     \<and> list_all (\<lambda>(_, n). ''u'' \<in> set (dhRunning (wsHost n))) (clNodes (sdWorld s4))"
    by (simp add: cluster_slot_def ws_slot_def nodes pair_node_def)
  then show ?thesis using pair_begin first second y by blast
qed

section \<open>An image left behind\<close>

text \<open>
  Sandbox \<open>u\<close> once ran on \<open>v\<close>, where its image of that time is still on the disk. It was suspended
  last on \<open>w\<close>, into the object store, and \<open>w\<close> is taken by \<open>z\<close> now.
\<close>

definition stale_sandbox :: sandbox where
  "stale_sandbox = \<lparr>sbID = ''u'', sbState = SandboxSuspended, sbWorkerID = ''w'',
     sbLocalSnapshotPath = ''/w/u'', sbObjectKey = ''sandboxes/u'', sbSnapshotSource = SnapshotExternal,
     sbCreatedAt = 0, sbUpdatedAt = 5\<rparr>"

definition stale_images :: "(string, string list) gomap" where
  "stale_images = [(''/v/u'', [''old''])]"

definition stale_start :: "(memory, demo_host cluster) scheduler" where
  "stale_start =
     \<lparr>sdStore = \<lparr>mmSandboxes = [(''u'', stale_sandbox),
          (''z'', (demo_sandbox ''z'')\<lparr>sbState := SandboxRunning, sbWorkerID := ''w''\<rparr>)],
        mmWorkers = [(''w'', worker0 ''w'' 1), (''v'', worker0 ''v'' 2)], mmGolden = ''g''\<rparr>,
      sdWorld = \<lparr>clNodes =
          [(''w'', \<lparr>wsWorkerID = ''w'', wsAlive = [(''z'', ())], wsActivity = None, wsMetrics = None,
              wsHost = \<lparr>dhRunning = [''z''], dhImages = [],
                dhObjects = [(''sandboxes/u'', [''new''])]\<rparr>\<rparr>),
           (''v'', \<lparr>wsWorkerID = ''v'', wsAlive = [], wsActivity = None, wsMetrics = None,
              wsHost = \<lparr>dhRunning = [], dhImages = stale_images,
                dhObjects = [(''sandboxes/u'', [''new''])]\<rparr>\<rparr>)], clNow = 1, clTransfer = 1\<rparr>,
      sdSignals = None, sdMetrics = None, sdLog = [], sdResumeWaiters = [], sdRestoreReserve = [],
      sdTick = 0\<rparr>"

lemma stale_run:
  "case resume_run demo_cfg 6 (resume_begin demo_cfg ''u'' stale_start) of (pc, s) \<Rightarrow>
     (\<exists>sb. pc = Returned ''u'' (Inr sb) \<and> sbWorkerID sb = ''v'')
     \<and> (\<exists>n. mget (clNodes (sdWorld s)) ''v'' = Some n \<and> ''u'' \<in> set (dhRunning (wsHost n))
          \<and> dhImages (wsHost n) = stale_images)"
  by (simp add: stale_start_def stale_images_def stale_sandbox_def demo_defs resume_defs worker_defs Let_def eval_nat_numeral
      worker_less_def workerLoadScore_def workerHostingCheckpoint.simps Client_LocalSnapshotExists_def sticky_with_image_def workerByID_def)

end
