(* ===== verification/SchedSettle.thy ===== *)
theory SchedSettle
  imports Deployed
begin

text \<open>
  The rank of a blocked caller settles. Every reading of the clock enters the scores as a difference to
  a stored instant, and \<open>time.Time.Sub\<close> saturates: with the signals and the lobby as they are, from some
  instant on all readings give the same order. \<open>Resume\<close> relies on it to end under semantic-score.
\<close>

section \<open>Functions of the clock that settle\<close>

definition settles :: "(gotime \<Rightarrow> 'a) \<Rightarrow> bool" where
  "settles f \<longleftrightarrow> (\<exists>T. \<forall>a\<ge>T. \<forall>b\<ge>T. f a = f b)"

lemma settles_const [simp]: "settles (\<lambda>_. x)"
  by (simp add: settles_def)

lemma settles_pair:
  assumes "settles f" "settles g"
  shows "settles (\<lambda>t. (f t, g t))"
proof -
  obtain T U where "\<forall>a\<ge>T. \<forall>b\<ge>T. f a = f b" "\<forall>a\<ge>U. \<forall>b\<ge>U. g a = g b"
    using assms unfolding settles_def by blast
  then have "\<forall>a\<ge>max T U. \<forall>b\<ge>max T U. (f a, g a) = (f b, g b)" by (metis max.bounded_iff)
  then show ?thesis unfolding settles_def by blast
qed

lemma settles_comp: "settles f \<Longrightarrow> settles (\<lambda>t. h (f t))"
  unfolding settles_def by metis

lemma settles_comp2: "settles f \<Longrightarrow> settles g \<Longrightarrow> settles (\<lambda>t. h (f t) (g t))"
  using settles_comp [OF settles_pair, of f g "\<lambda>(x, y). h x y"] by simp

lemma settles_list: "(\<And>x. x \<in> set xs \<Longrightarrow> settles (f x)) \<Longrightarrow> settles (\<lambda>t. map (\<lambda>x. f x t) xs)"
  by (induction xs) (simp_all add: settles_comp2 [where h = "(#)"])

lemma settles_Sub: "settles (\<lambda>now. time_Sub now t)" "settles (\<lambda>now. time_Sub t now)"
proof -
  have "\<forall>a\<ge>t + max_int64. \<forall>b\<ge>t + max_int64. time_Sub a t = time_Sub b t"
    by (auto simp: time_Sub_def min_int64_def max_int64_def)
  then show "settles (\<lambda>now. time_Sub now t)" unfolding settles_def by blast
  have "\<forall>a\<ge>t - min_int64. \<forall>b\<ge>t - min_int64. time_Sub t a = time_Sub t b"
    by (auto simp: time_Sub_def min_int64_def max_int64_def)
  then show "settles (\<lambda>now. time_Sub t now)" unfolding settles_def by blast
qed

lemma settles_if: "settles (\<lambda>t. P t :: bool) \<Longrightarrow> settles f \<Longrightarrow> settles g \<Longrightarrow> settles (\<lambda>t. if P t then f t else g t)"
  using settles_comp2 [OF _ settles_pair, of P f g "\<lambda>p (x, y). if p then x else y"] by simp

section \<open>The views and the scores\<close>

lemma toSandboxSignals_settles: "settles (toSandboxSignals g sid r)"
proof -
  define h where "h = (\<lambda>(x, y, z).
      let sem = (rcSemantic r)\<lparr>smAttainedServiceSec := rcAttainedServiceSec r, smWaitSec := rcWaitSec r\<rparr>;
          sem = (if \<not> IsZero (rcRunningSince r)
                 then sem\<lparr>smAttainedServiceSec := smAttainedServiceSec sem + dur_Seconds x\<rparr> else sem);
          sem = (if \<not> IsZero (rcSuspendedSince r)
                 then sem\<lparr>smWaitSec := smWaitSec sem + dur_Seconds y\<rparr> else sem);
          sem = (if \<not> IsZero (rcSemanticAt r) then sem\<lparr>smReportedAt := rcSemanticAt r\<rparr> else sem);
          sem = (if \<not> IsZero (rcSemanticAt r) \<and> z > ssTTL g
                 then zero_semantic\<lparr>smAttainedServiceSec := smAttainedServiceSec sem, smWaitSec := smWaitSec sem\<rparr>
                 else sem)
      in (toSandboxSignals g sid r 0)\<lparr>sgSemantic := sem\<rparr>)"
  have eq: "toSandboxSignals g sid r = (\<lambda>now.
      h (time_Sub now (rcRunningSince r), time_Sub now (rcSuspendedSince r), time_Sub now (rcSemanticAt r)))"
    by (simp add: fun_eq_iff h_def toSandboxSignals_def Let_def)
  show ?thesis unfolding eq
    by (rule settles_comp [OF settles_pair [OF settles_Sub(1) settles_pair [OF settles_Sub(1) settles_Sub(1)]]])
qed

lemma ListSandboxes_settles: "settles (ListSandboxes g)"
proof -
  define h where "h x = (\<lambda>(d, y). if d \<le> ssTTL g then [(fst x :: string, y :: sandbox_signals)] else [])"
    for x :: "string \<times> sandbox_record"
  define f where "f x now = h x (time_Sub now (rcUpdatedAt (snd x)), toSandboxSignals g (fst x) (snd x) now)"
    for x now
  have "map (\<lambda>(sid, r). (sid, toSandboxSignals g sid r now)) (filter (\<lambda>(_, r). time_Sub now (rcUpdatedAt r) \<le> ssTTL g) xs)
      = concat (map (\<lambda>x. f x now) xs)" for xs now
    by (induction xs) (auto simp: f_def h_def)
  then have eq: "ListSandboxes g = (\<lambda>now. concat (map (\<lambda>x. f x now) (ssBySandbox g)))"
    by (simp add: fun_eq_iff ListSandboxes_def)
  have "settles (f x)" for x unfolding f_def [abs_def]
    by (rule settles_comp [OF settles_pair [OF settles_Sub(1) toSandboxSignals_settles]])
  then show ?thesis unfolding eq by (intro settles_comp [OF settles_list])
qed

lemma urgencyOnline_settles: "settles (urgencyOnline sem)"
proof (cases "smDeadline sem")
  case (Some d)
  define h where "h x = (if IsZero d then 0 else
      let sec = dur_Seconds x; sec = (if sec < 0 then 0 else sec) in 1 / (1 + sec))" for x
  have eq: "urgencyOnline sem = (\<lambda>now. h (time_Sub d now))"
    by (simp add: fun_eq_iff h_def urgencyOnline_def Some Let_def)
  show ?thesis unfolding eq by (rule settles_comp [OF settles_Sub(2)])
qed (simp add: urgencyOnline_def [abs_def])

lemma keepScore_settles: "settles (keepScore sb ss p)"
proof -
  define h where "h u = scWL p * phaseProtect (semantic_of sb ss)
      + scWU p * (let prior = urgencyPrior (semantic_of sb ss) (scEmbedAlpha p);
          conf = (case smTaskProfile (semantic_of sb ss) of None \<Rightarrow> 0 | Some tp \<Rightarrow> tpConfidence tp)
        in if prior \<le> 0 then u else if conf < 3/10 then u else if u \<le> 0 then prior
           else let m = (if scPriorMix p < 0 then 0 else scPriorMix p); m = (if m > 1 then 1 else m)
             in (1 - m) * u + m * prior)
      + scWF p * fairness (semantic_of sb ss) + scWC p * normalizePreempt (preempt_h sb ss)" for u
  have eq: "keepScore sb ss p = (\<lambda>now. h (urgencyOnline (semantic_of sb ss) now))"
    by (simp add: fun_eq_iff h_def keepScore_def urgency_def Let_def)
  show ?thesis unfolding eq by (rule settles_comp [OF urgencyOnline_settles])
qed

lemma admitScore_settles: "settles (\<lambda>now. admitScore sb ss p now since)"
proof -
  define t where "t = (case sig_get since (sbID sb) of None \<Rightarrow> 0 | Some t \<Rightarrow> t)"
  define h where "h = (\<lambda>(k, x). k + scWQ p * queueAging
      (if IsZero t then 0 else let q = dur_Seconds x in if q < 0 then 0 else q))"
  have eq: "(\<lambda>now. admitScore sb ss p now since) = (\<lambda>now. h (keepScore sb ss p now, time_Sub now t))"
    by (simp add: fun_eq_iff h_def t_def admitScore_def IsZero_def Let_def split: option.split)
  show ?thesis unfolding eq by (rule settles_comp [OF settles_pair [OF keepScore_settles settles_Sub(1)]])
qed

lemma outranks_settles: "settles (\<lambda>now. outranks ss p now since other me)"
proof -
  define h where "h = (\<lambda>(sc, mine :: real). sc > mine
         \<or> sc = mine \<and> (sbCreatedAt other < sbCreatedAt me
                       \<or> sbCreatedAt other = sbCreatedAt me \<and> sbID other < sbID me))"
  have eq: "(\<lambda>now. outranks ss p now since other me)
      = (\<lambda>now. h (admitScore other ss p now since, admitScore me ss p now since))"
    by (simp add: fun_eq_iff h_def outranks_def Let_def)
  show ?thesis unfolding eq by (rule settles_comp [OF settles_pair [OF admitScore_settles admitScore_settles]])
qed

section \<open>The verdict\<close>

text \<open>What \<open>RequireBestWaiter\<close> says of a caller, with the signals read at \<open>a\<close> and the scores at \<open>b\<close>.\<close>

definition rank_request :: "sandbox \<Rightarrow> gotime \<Rightarrow> ('m, 'w) scheduler \<Rightarrow> resume_request" where
  "rank_request sb a s =
     \<lparr>rrSandbox = sb, rrWorkers = [], rrRunning = [], rrSandboxSignals = fst (signalViews a s),
      rrWorkerSignals = None, rrWaiting = fst (listResumeWaitState s),
      rrWaitingSince = Some (snd (listResumeWaitState s))\<rparr>"

definition best_at :: "semantic_score \<Rightarrow> sandbox \<Rightarrow> gotime \<Rightarrow> gotime \<Rightarrow> ('m, 'w) scheduler \<Rightarrow> bool" where
  "best_at p sb a b s \<longleftrightarrow> RequireBestWaiter p b (rank_request sb a s) = None"

lemma settles_ex: "(\<And>x. x \<in> set xs \<Longrightarrow> settles (f x)) \<Longrightarrow> settles (\<lambda>t. list_ex (\<lambda>x. f x t) xs)"
  by (induction xs) (simp_all add: settles_comp2 [where h = "(\<or>)"])

lemma RequireBestWaiter_settles: "settles (\<lambda>b. RequireBestWaiter p b req)"
proof -
  define f where "f other b \<longleftrightarrow> \<not> (sbID other = '''' \<or> sbID other = sbID (rrSandbox req))
      \<and> outranks (rrSandboxSignals req) p b (rrWaitingSince req) other (rrSandbox req)" for other b
  define h where "h x = (if x then Some ErrNotBestWaiter else None)" for x
  have eq: "(\<lambda>b. RequireBestWaiter p b req) = (\<lambda>b. h (list_ex (\<lambda>x. f x b) (rrWaiting req)))"
    by (simp add: fun_eq_iff h_def f_def RequireBestWaiter_def)
  have "settles (f other)" for other
    unfolding f_def [abs_def] by (rule settles_comp [OF outranks_settles])
  then show ?thesis unfolding eq by (intro settles_comp [OF settles_ex])
qed

lemma best_settles: "\<exists>T. \<forall>a\<ge>T. \<forall>b\<ge>T. \<forall>a'\<ge>T. \<forall>b'\<ge>T. best_at p sb a b s = best_at p sb a' b' s"
proof -
  have "settles (\<lambda>a. fst (signalViews a s))"
    by (cases "sdSignals s") (simp_all add: signalViews_def settles_comp [where h = Some] ListSandboxes_settles)
  then have "settles (\<lambda>a. rank_request sb a s)"
    unfolding rank_request_def by (rule settles_comp [where h = "\<lambda>v. \<lparr>rrSandbox = sb, rrWorkers = [],
      rrRunning = [], rrSandboxSignals = v, rrWorkerSignals = None, rrWaiting = fst (listResumeWaitState s),
      rrWaitingSince = Some (snd (listResumeWaitState s))\<rparr>"])
  then obtain T where T: "\<forall>a\<ge>T. \<forall>a'\<ge>T. rank_request sb a s = rank_request sb a' s"
    unfolding settles_def by blast
  obtain U where U: "\<forall>b\<ge>U. \<forall>b'\<ge>U. RequireBestWaiter p b (rank_request sb T s) = RequireBestWaiter p b' (rank_request sb T s)"
    using RequireBestWaiter_settles [of p "rank_request sb T s"] unfolding settles_def by blast
  have "best_at p sb a b s = best_at p sb a' b' s" if "a \<ge> max T U" "b \<ge> max T U" "a' \<ge> max T U" "b' \<ge> max T U" for a b a' b'
  proof -
    have "rank_request sb a s = rank_request sb T s" "rank_request sb a' s = rank_request sb T s"
      using T that by simp_all
    then show ?thesis using U that unfolding best_at_def by (metis max.bounded_iff)
  qed
  then show ?thesis by blast
qed

end
