(* ===== verification/SchedTermination.thy ===== *)
theory SchedTermination
  imports SchedSettle
begin

text \<open>
  \<open>Resume\<close> returns. The loop has no bound of its own: a turn that is refused reads the clock against
  the deadline, but for one case. A caller of semantic-score that is outranked between the two tests
  of its turn goes round again whatever the clock says. On its own it still returns, because the rank
  settles; the lemma \<open>outranked_has_no_deadline\<close> records the case.
\<close>

section \<open>The readings only go forward\<close>

lemma tick_frame [simp]:
  "sdTick (tick s) = Suc (sdTick s)" "sdTick (on_metrics f s) = sdTick s"
  "sdTick (on_signals g s) = sdTick s" "sdTick (logDecision d s) = sdTick s"
  "sdTick (snd (on_store h s)) = sdTick s" "sdTick (snd (on_workers k s)) = sdTick s"
  "sdTick (reserveRestore wid sid s) = sdTick s" "sdTick (clearRestoreReserve wid sid s) = sdTick s"
  "sdTick (removeResumeWaiter sid s) = sdTick s"
  by (simp_all add: tick_def on_metrics_def on_signals_def logDecision_def on_store_def on_workers_def
      reserveRestore_def clearRestoreReserve_def removeResumeWaiter_def split: prod.split)

lemma addResumeWaiter_tick: "sdTick s \<le> sdTick (addResumeWaiter cfg sb s)"
  by (simp add: addResumeWaiter_def time_Now_def tick_def split: option.split)

lemma reread_tick: "sdTick s \<le> sdTick (snd (reread cfg sid sb s))"
  by (simp add: reread_def addResumeWaiter_tick split: sum.split)

lemma refresh_workers_tick [simp]: "sdTick (snd (refresh_workers cfg ws s)) = sdTick s"
proof (induction ws arbitrary: s)
  case (Cons w ws)
  obtain r s1 where st: "on_workers (wcStatus (cfWorkers cfg) (wkAddress w)) s = (r, s1)"
    by (cases "on_workers (wcStatus (cfWorkers cfg) (wkAddress w)) s")
  then have "sdTick s1 = sdTick s" using tick_frame(6) by (metis snd_conv)
  then show ?case using st Cons.IH by (cases r) (simp_all add: Let_def split_def)
qed simp

lemma healthyWorkers_tick [simp]: "sdTick (snd (healthyWorkers cfg s)) = sdTick s"
  by (simp add: healthyWorkers_def split_def split: sum.split)

lemma sticky_with_image_tick [simp]: "sdTick (snd (sticky_with_image cfg sb ws s)) = sdTick s"
  by (auto simp: sticky_with_image_def split_def split: option.split sum.split)

lemma tick_of_snd: "f s = (r, s') \<Longrightarrow> sdTick s \<le> sdTick (snd (f s)) \<Longrightarrow> sdTick s \<le> sdTick s'"
  by simp

lemma resumeCandidates_tick: "sdTick (snd (resumeCandidates cfg sb s)) = sdTick s"
proof -
  obtain hw s1 where h: "healthyWorkers cfg s = (hw, s1)" by (cases "healthyWorkers cfg s")
  then have s1: "sdTick s1 = sdTick s" using healthyWorkers_tick by (metis snd_conv)
  show ?thesis
  proof (cases hw)
    case (Inr ws)
    obtain st s2 where st: "sticky_with_image cfg sb (applyRestoreReserves ws (sbID sb) s1) s1 = (st, s2)"
      by (cases "sticky_with_image cfg sb (applyRestoreReserves ws (sbID sb) s1) s1")
    then have "sdTick s2 = sdTick s1" using sticky_with_image_tick by (metis snd_conv)
    then show ?thesis using h s1 st Inr
      by (simp add: resumeCandidates_def Let_def split: sum.split option.split)
  qed (use h s1 in \<open>simp add: resumeCandidates_def\<close>)
qed

lemma victimPhaseLock_tick: "sdTick s \<le> sdTick (snd (victimPhaseLock cfg v s))"
  by (simp add: victimPhaseLock_def reading_defs split: option.split)

lemma ensureKnockerTurn_tick: "sdTick s \<le> sdTick (snd (ensureKnockerTurn cfg sb s))"
  by (cases "cfPolicy cfg") (simp_all add: ensureKnockerTurn_def reading_defs Let_def split_def)

lemma policy_call_tick:
  "sdTick s \<le> sdTick (snd (policy_call_Place cfg preq s))"
  "sdTick s \<le> sdTick (snd (policy_call_Resume cfg rreq s))"
  by (simp_all add: policy_call_Place_def policy_call_Resume_def reading_defs)

lemma after_checkpoint_tick: "sdTick s \<le> sdTick (snd (after_checkpoint cfg sid up sb w opts t0 b s))"
  by (cases up) (auto simp: after_checkpoint_def reading_defs Let_def split_def split: option.split)

lemma pauseOrSuspend_tick: "sdTick s \<le> sdTick (snd (pauseOrSuspend cfg sid up s))"
proof (cases "stGetSandbox (cfStore cfg) sid (sdStore s)")
  case got: (Inr sb)
  show ?thesis
  proof (cases "stGetWorker (cfStore cfg) (sbWorkerID sb) (sdStore s)")
    case (Inr w)
    define opts where "opts = \<lparr>coImagePath = sched_localPath cfg (wkID w) sid,
      coObjectKey = (if up then ObjectKeyFor sid else '''')\<rparr>"
    obtain q s1 where call: "on_workers (wcCheckpoint (cfWorkers cfg) (wkAddress w) sid opts) (tick s) = (q, s1)"
      by (cases "on_workers (wcCheckpoint (cfWorkers cfg) (wkAddress w) sid opts) (tick s)")
    have s1: "sdTick s \<le> sdTick s1" using tick_frame(6) [of "wcCheckpoint (cfWorkers cfg) (wkAddress w) sid opts" "tick s"]
      by (simp add: call)
    have body: "pauseOrSuspend cfg sid up s = (if sbState sb \<noteq> SandboxRunning
        then (Inl (want_error sid (sbState sb) ''running''), s)
        else case q of Inl e \<Rightarrow> (Inl e, s1)
          | Inr b \<Rightarrow> after_checkpoint cfg sid up sb w opts (cfNow cfg (sdTick s)) b s1)"
      using Inr got call by (cases up; cases q) (simp_all add: pauseOrSuspend_def time_Now_def opts_def)
    have after: "sdTick s \<le> sdTick (snd (after_checkpoint cfg sid up sb w opts t0 b s1))" for t0 b
      by (rule le_trans [OF s1 after_checkpoint_tick])
    show ?thesis unfolding body using s1 after by (cases q) simp_all
  qed (use got in \<open>simp add: pauseOrSuspend_def\<close>)
qed (simp add: pauseOrSuspend_def)

lemma evict_tick:
  assumes "victimPhaseLock cfg v (tick s) = (pl, s1)" "suspendLocked cfg v (on_signals g s1) = (r, s2)"
  shows "sdTick s \<le> sdTick s2"
  using assms victimPhaseLock_tick [of "tick s" cfg v] pauseOrSuspend_tick [of "on_signals g s1" cfg v True]
  by (simp add: suspendLocked_def)

lemma golden_evict_tick: "sdTick s \<le> sdTick (snd (golden_evict cfg res s))"
proof -
  obtain pl s1 where v: "victimPhaseLock cfg (plVictimID res) (tick s) = (pl, s1)"
    by (cases "victimPhaseLock cfg (plVictimID res) (tick s)")
  obtain r s2 where sus: "suspendLocked cfg (plVictimID res) (on_signals (OnEvict (plVictimID res)) s1) = (r, s2)"
    by (cases "suspendLocked cfg (plVictimID res) (on_signals (OnEvict (plVictimID res)) s1)")
  show ?thesis using evict_tick [OF v sus] v sus
    by (cases pl; cases r) (simp_all add: golden_evict_def reading_defs Let_def)
qed

lemma resume_evict_tick: "sdTick s \<le> sdTick (snd (resume_evict cfg res s))"
proof -
  obtain pl s1 where v: "victimPhaseLock cfg (plVictimID res) (tick s) = (pl, s1)"
    by (cases "victimPhaseLock cfg (plVictimID res) (tick s)")
  obtain r s2 where sus: "suspendLocked cfg (plVictimID res) (on_signals (OnEvict (plVictimID res)) s1) = (r, s2)"
    by (cases "suspendLocked cfg (plVictimID res) (on_signals (OnEvict (plVictimID res)) s1)")
  show ?thesis using evict_tick [OF v sus] v sus
    by (cases pl; cases r) (simp_all add: resume_evict_def reading_defs Let_def)
qed

lemma golden_build_tick: "sdTick s \<le> sdTick (snd (golden_build cfg w s))"
proof -
  have b: "sdTick (snd (on_workers k t)) = sdTick t" for k t by simp
  show ?thesis
    by (auto simp: golden_build_def reading_defs Let_def split_def split: option.split sum.split)
qed

lemma golden_place_tick: "sdTick s \<le> sdTick (snd (golden_place cfg s))"
proof -
  obtain hw s1 where h: "healthyWorkers cfg s = (hw, s1)" by (cases "healthyWorkers cfg s")
  then have s1: "sdTick s1 = sdTick s" using healthyWorkers_tick by (metis snd_conv)
  show ?thesis
  proof (cases "(\<exists>e. hw = Inl e) \<or> (\<exists>e. running cfg s1 = Inl e)")
    case True
    then show ?thesis using h s1 by (auto simp: golden_place_def split: sum.splits)
  next
    case False
    then obtain ws run where ws: "hw = Inr ws" and run: "running cfg s1 = Inr run"
      by (cases hw; cases "running cfg s1") auto
    define req where "req = \<lparr>prSandboxID = ''golden'', prWorkers = ws, prRunning = run,
      prSandboxSignals = fst (signalViews (cfNow cfg (sdTick s1)) (tick s1)),
      prWorkerSignals = snd (signalViews (cfNow cfg (sdTick s1)) (tick s1))\<rparr>"
    obtain res s2 where pol: "policy_call_Place cfg req (tick s1) = (res, s2)"
      by (cases "policy_call_Place cfg req (tick s1)")
    then have s2: "sdTick s \<le> sdTick s2"
      using policy_call_tick(1) [of "tick s1" cfg req] s1 by simp
    define s3 where "s3 = on_metrics (RecordDecisionLatency
      (time_Sub (cfNow cfg (sdTick s2)) (cfNow cfg (sdTick s1)))) (tick s2)"
    have s3: "sdTick s \<le> sdTick s3" using s2 by (simp add: s3_def)
    show ?thesis
    proof (cases res)
      case (Inl e)
      then show ?thesis using h ws run pol s2
        by (simp add: golden_place_def reading_defs req_def s3_def split_def Let_def)
    next
      case (Inr pl)
      obtain e s4 where ev: "golden_evict cfg pl s3 = (e, s4)" by (cases "golden_evict cfg pl s3")
      then have s4: "sdTick s \<le> sdTick s4" using golden_evict_tick [of s3 cfg pl] s3 by simp
      have build: "sdTick s \<le> sdTick (snd (golden_build cfg w (on_metrics f s4)))" for w f
        using golden_build_tick [of "on_metrics f s4" cfg w] s4 by simp
      show ?thesis using h ws run pol Inr ev s4 build
        by (cases e) (auto simp: golden_place_def reading_defs req_def s3_def split_def Let_def
            split: sum.splits)
    qed
  qed
qed

lemma EnsureGolden_tick: "sdTick s \<le> sdTick (snd (EnsureGolden cfg s))"
  using golden_place_tick by (auto simp: EnsureGolden_def split: sum.split)

lemma resume_source_tick: "sdTick s \<le> sdTick (snd (resume_source cfg sid sb w s))"
  using EnsureGolden_tick [of s cfg]
  by (auto simp: resume_source_def Let_def split_def split: sum.split)

lemma knock_admit_tick: "sdTick s \<le> sdTick (snd (knock_admit cfg c res s))"
proof -
  define s1 where "s1 = (if ruEntered c
    then on_metrics (RecordSemanticStarvationWait StarvationResolved) s else s)"
  define s2 where "s2 = on_metrics (RecordDecisionLatency
    (time_Sub (cfNow cfg (sdTick s1)) (ruDecStart c))) (tick s1)"
  have s2: "sdTick s \<le> sdTick s2" by (simp add: s2_def s1_def)
  obtain e s3 where ev: "resume_evict cfg res s2 = (e, s3)" by (cases "resume_evict cfg res s2")
  have s3: "sdTick s \<le> sdTick s3" using resume_evict_tick [of s2 cfg res] ev s2 by simp
  have src: "sdTick s \<le> sdTick (snd (resume_source cfg (ruID c) (ruSb c) w s3))" for w
    using resume_source_tick [of s3 cfg "ruID c" "ruSb c" w] s3 by simp
  have "snd (knock_admit cfg c res s) \<in> {s3} \<union> (\<Union>w. {snd (resume_source cfg (ruID c) (ruSb c) w s3),
      reserveRestore (wkID w) (ruID c) (snd (resume_source cfg (ruID c) (ruSb c) w s3))})"
    using ev by (cases e) (auto simp: knock_admit_def reading_defs Let_def s1_def s2_def split_def split: sum.split)
  then show ?thesis using s3 src by auto
qed

lemma knock_decide_tick: "sdTick s \<le> sdTick (snd (knock_decide cfg c s))"
proof -
  obtain e s1 where en: "ensureKnockerTurn cfg (ruSb c) s = (e, s1)"
    by (cases "ensureKnockerTurn cfg (ruSb c) s")
  then have s1: "sdTick s \<le> sdTick s1" using ensureKnockerTurn_tick [of s cfg "ruSb c"] by simp
  obtain cands s2 where rc: "resumeCandidates cfg (ruSb c) s1 = (cands, s2)"
    by (cases "resumeCandidates cfg (ruSb c) s1")
  then have s2: "sdTick s \<le> sdTick s2" using resumeCandidates_tick [of cfg "ruSb c" s1] s1 by simp
  have pol: "sdTick s \<le> sdTick (snd (policy_call_Resume cfg req (tick s2)))" for req
    using policy_call_tick(2) [of "tick s2" cfg req] s2 by simp
  have "sdTick s \<le> sdTick (snd (knock_admit cfg c pl (snd (policy_call_Resume cfg req (tick s2)))))" for pl req
    using knock_admit_tick [of "snd (policy_call_Resume cfg req (tick s2))" cfg c pl] pol [of req] by simp
  then show ?thesis using en rc s1 s2 pol
    by (cases e; cases cands) (auto simp: knock_decide_def reading_defs Let_def split_def split: sum.split)
qed

lemma knock_tick: "sdTick s \<le> sdTick (snd (knock cfg c s))"
proof -
  obtain sb s1 where rr: "reread cfg (ruID c) (ruSb c) s = (sb, s1)"
    by (cases "reread cfg (ruID c) (ruSb c) s")
  then have "sdTick s \<le> sdTick s1" using reread_tick [of s cfg "ruID c" "ruSb c"] by simp
  also have "sdTick s1 \<le> sdTick (snd (knock_decide cfg (c\<lparr>ruSb := sb\<rparr>) s1))" by (rule knock_decide_tick)
  finally show ?thesis using rr by (simp add: knock_def Let_def split_def split: sum.split)
qed

section \<open>Errors that are not about rank\<close>

definition plain :: "go_error \<Rightarrow> bool" where
  "plain e \<longleftrightarrow> \<not> errors_Is e ErrNotBestWaiter"

lemma plain_simps [simp]: "plain (Errorf msg)" "plain (Wrap pre e post) = plain e"
  by (simp_all add: plain_def)

lemma policy_Place_plain: "policy_Place pol r now preq = Inl e \<Longrightarrow> plain e"
  by (cases pol) (auto simp: Random_Place_def FIFO_Place_def LRUIdle_Place_def ResourceEvict_Place_def
      SemanticScore_Place_def pickSemanticVictim_def plain_def Let_def split: option.splits if_splits sum.splits)

lemma policy_Resume_refusal:
  "policy_Resume pol r now now' req = Inl e \<Longrightarrow>
     plain e \<or> (\<exists>p. pol = SemanticScore p \<and> RequireBestWaiter p now req \<noteq> None)"
  using policy_Place_plain [of pol r now' "placeFromResume req" e]
  by (cases pol) (auto simp: Random_Resume_def FIFO_Resume_def LRUIdle_Resume_def ResourceEvict_Resume_def
      SemanticScore_Resume_def split: option.splits)

text \<open>The signals and the lobby, which the rank depends on.\<close>

definition lobby :: "('m, 'w) scheduler \<Rightarrow> signal_store option \<times> (string, resume_waiter) gomap" where
  "lobby s = (sdSignals s, sdResumeWaiters s)"

lemma best_at_lobby: "lobby s' = lobby s \<Longrightarrow> best_at p sb a b s' = best_at p sb a b s"
  by (simp add: lobby_def best_at_def rank_request_def signalViews_def listResumeWaitState_def)

lemma lobby_frame [simp]:
  "lobby (tick s) = lobby s" "lobby (snd (on_store h s)) = lobby s" "lobby (snd (on_workers k s)) = lobby s"
  "lobby (on_metrics f s) = lobby s"
  by (simp_all add: lobby_def tick_def on_store_def on_workers_def on_metrics_def split: prod.split)

lemma lobby_refresh [simp]: "lobby (snd (refresh_workers cfg ws s)) = lobby s"
proof (induction ws arbitrary: s)
  case (Cons w ws)
  obtain r s1 where st: "on_workers (wcStatus (cfWorkers cfg) (wkAddress w)) s = (r, s1)"
    by (cases "on_workers (wcStatus (cfWorkers cfg) (wkAddress w)) s")
  then have "lobby s1 = lobby s" using lobby_frame(3) by (metis snd_conv)
  then show ?case using st Cons.IH by (cases r) (simp_all add: Let_def split_def)
qed simp

lemma lobby_candidates: "lobby (snd (resumeCandidates cfg sb s)) = lobby s"
proof -
  obtain hw s1 where h: "healthyWorkers cfg s = (hw, s1)" by (cases "healthyWorkers cfg s")
  have "lobby (snd (healthyWorkers cfg s)) = lobby s"
    by (simp add: healthyWorkers_def split_def split: sum.split)
  then have s1: "lobby s1 = lobby s" using h by simp
  show ?thesis
  proof (cases hw)
    case (Inr ws)
    obtain st s2 where st: "sticky_with_image cfg sb (applyRestoreReserves ws (sbID sb) s1) s1 = (st, s2)"
      by (cases "sticky_with_image cfg sb (applyRestoreReserves ws (sbID sb) s1) s1")
    have "lobby (snd (sticky_with_image cfg sb (applyRestoreReserves ws (sbID sb) s1) s1)) = lobby s1"
      by (auto simp: sticky_with_image_def split_def split: option.split sum.split)
    then show ?thesis using h s1 st Inr
      by (simp add: resumeCandidates_def Let_def split: sum.split option.split)
  qed (use h s1 in \<open>simp add: resumeCandidates_def\<close>)
qed

text \<open>The test of the turn, and a turn that is lost with readings from the \<open>n\<close>-th on.\<close>

definition lost_turn :: "('m, 'w) sched_cfg \<Rightarrow> sandbox \<Rightarrow> nat \<Rightarrow> ('m, 'w) scheduler \<Rightarrow> bool" where
  "lost_turn cfg sb n s \<longleftrightarrow> (\<exists>p a b. cfPolicy cfg = SemanticScore p \<and> n \<le> a \<and> n \<le> b
     \<and> \<not> best_at p sb (cfNow cfg a) (cfNow cfg b) s)"

lemma turn_result:
  assumes "ensureKnockerTurn cfg sb s = (e, s')"
  shows "core s' = core s" "lobby s' = lobby s" "sdTick s \<le> sdTick s'"
    "e = None \<or> e = Some ErrNotBestWaiter \<and> lost_turn cfg sb (sdTick s) s \<and> sdTick s < sdTick s'"
    "e = None \<Longrightarrow> cfPolicy cfg = SemanticScore p \<Longrightarrow>
       best_at p sb (cfNow cfg (sdTick s)) (cfNow cfg (Suc (sdTick s))) s"
proof -
  have "core (snd (ensureKnockerTurn cfg sb s)) = core s" by simp
  then show "core s' = core s" using assms by simp
  have req: "RequireBestWaiter p b (rank_request sb a s) = None \<or> RequireBestWaiter p b (rank_request sb a s) = Some ErrNotBestWaiter"
    for p a b by (simp add: RequireBestWaiter_def)
  show "lobby s' = lobby s" "sdTick s \<le> sdTick s'"
    "e = None \<Longrightarrow> cfPolicy cfg = SemanticScore p \<Longrightarrow>
       best_at p sb (cfNow cfg (sdTick s)) (cfNow cfg (Suc (sdTick s))) s"
    using assms by (auto simp: ensureKnockerTurn_def reading_defs best_at_def rank_request_def signalViews_def
        listResumeWaitState_def tick_def lobby_def Let_def split: policy.splits)
  show "e = None \<or> e = Some ErrNotBestWaiter \<and> lost_turn cfg sb (sdTick s) s \<and> sdTick s < sdTick s'"
  proof (cases "cfPolicy cfg")
    case (SemanticScore p)
    have "e = RequireBestWaiter p (cfNow cfg (Suc (sdTick s))) (rank_request sb (cfNow cfg (sdTick s)) s)"
      "sdTick s < sdTick s'"
      using assms SemanticScore by (auto simp: ensureKnockerTurn_def reading_defs rank_request_def signalViews_def
        listResumeWaitState_def tick_def Let_def)
    moreover have "sdTick s \<le> Suc (sdTick s)" by simp
    ultimately show ?thesis using req SemanticScore unfolding lost_turn_def best_at_def by (metis le_refl)
  qed (use assms in \<open>auto simp: ensureKnockerTurn_def\<close>)
qed

text \<open>From some reading on a turn that was won is not lost with the same signals and lobby.\<close>

lemma turn_settles:
  assumes "\<And>t. \<exists>N. \<forall>n\<ge>N. t < cfNow cfg n"
  shows "\<exists>M. \<forall>s2 s3 s4. lobby s2 = lobby s \<longrightarrow> M \<le> sdTick s2 \<longrightarrow> ensureKnockerTurn cfg sb s2 = (None, s3)
    \<longrightarrow> lobby s4 = lobby s \<longrightarrow> \<not> lost_turn cfg sb M s4"
proof (cases "\<exists>p. cfPolicy cfg = SemanticScore p")
  case True
  then obtain p where p: "cfPolicy cfg = SemanticScore p" by blast
  obtain T where T: "\<forall>a\<ge>T. \<forall>b\<ge>T. \<forall>a'\<ge>T. \<forall>b'\<ge>T. best_at p sb a b s = best_at p sb a' b' s"
    using best_settles by blast
  obtain M where M: "\<forall>n\<ge>M. T < cfNow cfg n" using assms by blast
  have "\<not> lost_turn cfg sb M s4" if a: "lobby s2 = lobby s" "M \<le> sdTick s2"
    "ensureKnockerTurn cfg sb s2 = (None, s3)" "lobby s4 = lobby s" for s2 s3 s4
  proof
    assume "lost_turn cfg sb M s4"
    then obtain x y where xy: "M \<le> x" "M \<le> y" "\<not> best_at p sb (cfNow cfg x) (cfNow cfg y) s"
      using p best_at_lobby [OF a(4)] by (auto simp: lost_turn_def)
    have "best_at p sb (cfNow cfg (sdTick s2)) (cfNow cfg (Suc (sdTick s2))) s"
      using turn_result(5) [OF a(3) refl p] best_at_lobby [OF a(1)] by simp
    moreover have "T \<le> cfNow cfg x" "T \<le> cfNow cfg y" "T \<le> cfNow cfg (sdTick s2)" "T \<le> cfNow cfg (Suc (sdTick s2))"
      using M xy(1,2) a(2) by (simp_all add: less_imp_le)
    ultimately show False using T xy(3) by blast
  qed
  then show ?thesis by blast
qed (simp add: lost_turn_def)

text \<open>Store and workers whose errors are their own.\<close>

locale plain_env = sched_env +
  assumes get_plain: "mok m \<Longrightarrow> stGetSandbox (cfStore cfg) sid m = Inl e \<Longrightarrow> plain e"
    and worker_plain: "mok m \<Longrightarrow> stGetWorker (cfStore cfg) wid m = Inl e \<Longrightarrow> plain e"
    and boot_plain: "wok w \<Longrightarrow> wcBoot (cfWorkers cfg) a sid w = (Some e, w') \<Longrightarrow> plain e"
    and checkpoint_plain: "wok w \<Longrightarrow> wcCheckpoint (cfWorkers cfg) a sid opts w = (Inl e, w') \<Longrightarrow> plain e"
begin

lemma checkpoint_call_plain:
  assumes "good s" "on_workers (wcCheckpoint (cfWorkers cfg) a sid opts) s = (Inl e, s')"
  shows "plain e"
  using checkpoint_plain [OF _ on_workers_result [OF assms(2)]] assms(1) by (simp add: good_def)

lemma after_checkpoint_no_error:
  assumes "good s" "after_checkpoint cfg sid up sb w opts t0 b s = (Inl e, s')"
  shows False
  using after_checkpoint_effect [OF assms] by simp

lemma pauseOrSuspend_plain:
  assumes "good s" "pauseOrSuspend cfg sid up s = (Inl e, s')"
  shows "plain e"
proof (cases "stGetSandbox (cfStore cfg) sid (sdStore s)")
  case (Inl x)
  then show ?thesis using assms get_plain by (auto simp: pauseOrSuspend_def good_def)
next
  case got: (Inr sb)
  show ?thesis
  proof (cases "stGetWorker (cfStore cfg) (sbWorkerID sb) (sdStore s)")
    case (Inl x)
    then show ?thesis using assms got worker_plain
      by (auto simp: pauseOrSuspend_def good_def want_error_def split: if_splits)
  next
    case (Inr w)
    define opts where "opts = \<lparr>coImagePath = sched_localPath cfg (wkID w) sid,
      coObjectKey = (if up then ObjectKeyFor sid else '''')\<rparr>"
    obtain q s1 where call: "on_workers (wcCheckpoint (cfWorkers cfg) (wkAddress w) sid opts) (tick s) = (q, s1)"
      by (cases "on_workers (wcCheckpoint (cfWorkers cfg) (wkAddress w) sid opts) (tick s)")
    have t: "good (tick s)" by (rule good_core [OF assms(1)]) simp
    have body: "pauseOrSuspend cfg sid up s = (if sbState sb \<noteq> SandboxRunning
        then (Inl (want_error sid (sbState sb) ''running''), s)
        else case q of Inl e \<Rightarrow> (Inl e, s1)
          | Inr b \<Rightarrow> after_checkpoint cfg sid up sb w opts (cfNow cfg (sdTick s)) b s1)"
      using Inr got call by (cases up; cases q) (simp_all add: pauseOrSuspend_def time_Now_def opts_def)
    show ?thesis
    proof (cases q)
      case (Inl x)
      then show ?thesis using body assms(2) checkpoint_call_plain [OF t] call
        by (auto simp: want_error_def split: if_splits)
    next
      case (Inr b)
      have "good s1" using checkpoint_call_effect [OF t call] by simp
      then have "after_checkpoint cfg sid up sb w opts (cfNow cfg (sdTick s)) b s1 \<noteq> (Inl e, s')"
        using after_checkpoint_no_error by blast
      then show ?thesis using body assms(2) Inr by (auto simp: want_error_def split: if_splits)
    qed
  qed
qed

lemma evict_plain:
  assumes "good s"
  shows "resume_evict cfg res s = (Some e, s') \<Longrightarrow> plain e"
    "golden_evict cfg res s = (Some e, s') \<Longrightarrow> plain e"
proof -
  obtain pl s1 where v: "victimPhaseLock cfg (plVictimID res) (tick s) = (pl, s1)"
    by (cases "victimPhaseLock cfg (plVictimID res) (tick s)")
  define s2 where "s2 = on_signals (OnEvict (plVictimID res)) s1"
  have c: "core s2 = core s" using core_of_snd [of "victimPhaseLock cfg (plVictimID res)", OF v]
    by (simp add: s2_def)
  obtain r s3 where sus: "pauseOrSuspend cfg (plVictimID res) True s2 = (r, s3)"
    by (cases "pauseOrSuspend cfg (plVictimID res) True s2")
  have p: "r = Inl x \<Longrightarrow> plain x" for x using pauseOrSuspend_plain [OF good_core [OF assms c]] sus by simp
  show "plain e" if "resume_evict cfg res s = (Some e, s')"
    using that v sus p by (cases pl; cases r)
      (auto simp: resume_evict_def suspendLocked_def reading_defs s2_def Let_def split: if_splits)
  show "plain e" if "golden_evict cfg res s = (Some e, s')"
    using that v sus p by (cases pl; cases r)
      (auto simp: golden_evict_def suspendLocked_def reading_defs s2_def Let_def split: if_splits)
qed

lemma golden_build_plain:
  assumes "good s" "golden_build cfg w s = (Inl x, s')"
  shows "plain x"
proof -
  define gid where "gid = ''golden-'' @ cfUUID cfg (sdTick s)"
  define s0 where "s0 = on_metrics (Metrics_MarkRunning gid (wkID w) (cfNow cfg (sdTick (tick s)))) (tick (tick s))"
  have g0: "good s0" by (rule good_core [OF assms(1)]) (simp add: s0_def)
  obtain e s1 where b: "on_workers (wcBoot (cfWorkers cfg) (wkAddress w) gid) s0 = (e, s1)"
    by (cases "on_workers (wcBoot (cfWorkers cfg) (wkAddress w) gid) s0")
  show ?thesis
  proof (cases e)
    case (Some err)
    have "plain err" using boot_plain [OF _ on_workers_result [OF b [unfolded Some]]] g0
      by (simp add: good_def)
    then show ?thesis using assms(2) b Some by (auto simp: golden_build_def reading_defs s0_def gid_def)
  next
    case None
    have g: "foreign_name gid" by (simp add: foreign_name_def gid_def)
    have g1: "good (tick s1)"
      by (rule good_core [OF calm_good [OF calm_boot_golden [OF g0 b g]]]) simp
    define opts where "opts = \<lparr>coImagePath = sched_localPath cfg (wkID w) gid, coObjectKey = goldenPrefix\<rparr>"
    obtain q s2 where ck: "on_workers (wcCheckpoint (cfWorkers cfg) (wkAddress w) gid opts) (tick s1) = (q, s2)"
      by (cases "on_workers (wcCheckpoint (cfWorkers cfg) (wkAddress w) gid opts) (tick s1)")
    show ?thesis
    proof (cases q)
      case (Inl err)
      have "plain err" by (rule checkpoint_call_plain [OF g1 ck [unfolded Inl]])
      then show ?thesis using assms(2) b None ck Inl
        by (auto simp: golden_build_def reading_defs s0_def gid_def opts_def Let_def split: prod.splits)
    next
      case (Inr cp)
      have g2: "good s2" using checkpoint_call_effect [OF g1 ck] by simp
      define s3 where "s3 = on_metrics (MarkSlotFreed gid (wkID w) (cfNow cfg (sdTick (tick s2))))
        (tick (on_metrics (RecordCheckpointLatency ''suspend''
           (time_Sub (cfNow cfg (sdTick s2)) (cfNow cfg (sdTick s1)))) (tick s2)))"
      obtain y s4 where p: "on_store (stPutGolden (cfStore cfg) goldenPrefix) s3 = (y, s4)"
        by (cases "on_store (stPutGolden (cfStore cfg) goldenPrefix) s3")
      have "good s3" by (rule good_core [OF g2]) (simp add: s3_def)
      then have "y = None" using on_store_put_golden [OF _ p goldenPrefix_nonempty] by simp
      then show ?thesis using assms(2) b None ck Inr p
        by (simp add: golden_build_def reading_defs s0_def gid_def opts_def s3_def)
    qed
  qed
qed

lemma healthyWorkers_no_error: "good s \<Longrightarrow> healthyWorkers cfg s \<noteq> (Inl e, s')"
  using list_workers [of "sdStore s"] by (auto simp: healthyWorkers_def good_def split: prod.splits)

lemma resumeCandidates_sbs:
  assumes "good s" "resumeCandidates cfg sb s = (r, s')"
  shows "sbs s' = sbs s"
proof -
  obtain hw s1 where h: "healthyWorkers cfg s = (hw, s1)" by (cases "healthyWorkers cfg s")
  have s1: "sbs s1 = sbs s" using healthyWorkers_effect [OF assms(1) h] by simp
  have w: "sdStore (snd (on_workers f t)) = sdStore t" for f :: "'b \<Rightarrow> 'd \<times> 'b" and t
    by (simp add: on_workers_def split: prod.split)
  have "sdStore (snd (sticky_with_image cfg sb ws s1)) = sdStore s1" for ws
    by (auto simp: sticky_with_image_def split_def w split: option.split sum.split)
  then have "sbs (snd (sticky_with_image cfg sb ws s1)) = sbs s1" for ws by (simp add: sbs_def)
  then have "sbs s' = sbs s1"
    using assms(2) h by (auto simp: resumeCandidates_def Let_def split: sum.splits prod.splits option.splits if_splits)
      (metis snd_conv)+
  then show ?thesis using s1 by simp
qed

lemma running_no_error: "good s \<Longrightarrow> running cfg s \<noteq> Inl e"
  using list_sandboxes [of "sdStore s"] by (auto simp: running_def good_def)

lemma golden_place_plain:
  assumes "good s" "golden_place cfg s = (Inl x, s')"
  shows "plain x"
proof -
  obtain hw s1 where h: "healthyWorkers cfg s = (hw, s1)" by (cases "healthyWorkers cfg s")
  note c1 = calm_healthyWorkers [OF assms(1) h]
  obtain ws where ws: "hw = Inr ws" using healthyWorkers_no_error [OF assms(1)] h by (cases hw) auto
  obtain run where run: "running cfg s1 = Inr run"
    using running_no_error [OF calm_good [OF c1]] by (cases "running cfg s1") auto
  define req where "req = \<lparr>prSandboxID = ''golden'', prWorkers = ws, prRunning = run,
    prSandboxSignals = fst (signalViews (cfNow cfg (sdTick s1)) (tick s1)),
    prWorkerSignals = snd (signalViews (cfNow cfg (sdTick s1)) (tick s1))\<rparr>"
  obtain res s2 where pol: "policy_call_Place cfg req (tick s1) = (res, s2)"
    by (cases "policy_call_Place cfg req (tick s1)")
  define s3 where "s3 = on_metrics (RecordDecisionLatency
    (time_Sub (cfNow cfg (sdTick s2)) (cfNow cfg (sdTick s1)))) (tick s2)"
  have "core s3 = core s1"
    using core_of_snd [of "policy_call_Place cfg req", OF pol] by (simp add: s3_def)
  then have g3: "good s3" by (rule good_core [OF calm_good [OF c1]])
  show ?thesis
  proof (cases res)
    case (Inl e)
    then have "plain e" using pol policy_Place_plain
      by (auto simp: policy_call_Place_def reading_defs)
    then show ?thesis using assms(2) h ws run pol Inl
      by (auto simp: golden_place_def reading_defs req_def s3_def split_def Let_def)
  next
    case (Inr pl)
    obtain e s4 where ev: "golden_evict cfg pl s3 = (e, s4)" by (cases "golden_evict cfg pl s3")
    define s5 where "s5 = on_metrics (RecordDecision (if plVictimID pl \<noteq> '''' then ''evict'' else ''place'')
      ''ok'' (plReason pl)) s4"
    have g5: "good s5" by (rule good_core [OF calm_good [OF golden_evict_calm [OF g3 ev]]]) (simp add: s5_def)
    have body: "(Inl x, s') = (case e of Some e \<Rightarrow> (Inl e, s4)
      | None \<Rightarrow> (case stGetWorker (cfStore cfg) (plWorkerID pl) (sdStore s5) of
          Inl e \<Rightarrow> (Inl e, s5) | Inr w \<Rightarrow> golden_build cfg w s5))"
      using assms(2) h ws run pol Inr ev
      by (cases e) (auto simp: golden_place_def reading_defs req_def s3_def s5_def split_def Let_def
          split: sum.splits)
    show ?thesis
    proof (cases e)
      case (Some err)
      then show ?thesis using body evict_plain(2) [OF g3 ev [unfolded Some]] by simp
    next
      case None
      show ?thesis
      proof (cases "stGetWorker (cfStore cfg) (plWorkerID pl) (sdStore s5)")
        case (Inl err)
        then show ?thesis using body None worker_plain g5 by (auto simp: good_def)
      next
        case (Inr w)
        then show ?thesis using body None golden_build_plain [OF g5, of w x s'] by simp
      qed
    qed
  qed
qed

lemma resume_source_plain:
  assumes "good s" "resume_source cfg sid sb w s = (Inl x, s')"
  shows "plain x"
  using assms(2) golden_place_plain [OF assms(1)]
  by (auto simp: resume_source_def EnsureGolden_def Let_def split: if_splits sum.splits prod.splits)

lemma knock_admit_plain:
  assumes "good s" "knock_admit cfg c res s = (Inl x, s')"
  shows "plain x"
proof -
  define s1 where "s1 = (if ruEntered c
    then on_metrics (RecordSemanticStarvationWait StarvationResolved) s else s)"
  define s2 where "s2 = on_metrics (RecordDecisionLatency
    (time_Sub (cfNow cfg (sdTick s1)) (ruDecStart c))) (tick s1)"
  have g2: "good s2" by (rule good_core [OF assms(1)]) (simp add: s2_def s1_def)
  obtain e s3 where ev: "resume_evict cfg res s2 = (e, s3)" by (cases "resume_evict cfg res s2")
  have g3: "good s3" by (rule calm_good [OF resume_evict_calm [OF g2 ev]])
  show ?thesis
  proof (cases e)
    case (Some err)
    then show ?thesis using evict_plain(1) [OF g2 ev [unfolded Some]] assms(2) ev
      by (auto simp: knock_admit_def reading_defs s1_def s2_def Let_def)
  next
    case None
    show ?thesis
    proof (cases "stGetWorker (cfStore cfg) (plWorkerID res) (sdStore s3)")
      case (Inl err)
      then have "x = err" using assms(2) ev None
        by (auto simp: knock_admit_def reading_defs s1_def s2_def Let_def)
      then show ?thesis using worker_plain Inl g3 by (auto simp: good_def)
    next
      case (Inr w)
      obtain src s4 where src: "resume_source cfg (ruID c) (ruSb c) w s3 = (src, s4)"
        by (cases "resume_source cfg (ruID c) (ruSb c) w s3")
      then have "src = Inl x" using assms(2) ev None Inr
        by (cases src) (auto simp: knock_admit_def reading_defs s1_def s2_def Let_def)
      then show ?thesis using resume_source_plain [OF g3] src by blast
    qed
  qed
qed

text \<open>A decision that does not admit: an error of its own, or a turn that was lost, with nothing changed.\<close>

lemma knock_decide_refusal:
  assumes "good s" "knock_decide cfg c s = (Inl x, s')"
  shows "plain x \<or> (lost_turn cfg (ruSb c) (sdTick s) s \<and> sbs s' = sbs s \<and> lobby s' = lobby s
    \<and> good s' \<and> sdTick s < sdTick s')"
proof -
  obtain e s1 where en: "ensureKnockerTurn cfg (ruSb c) s = (e, s1)"
    by (cases "ensureKnockerTurn cfg (ruSb c) s")
  note tr = turn_result [OF en]
  have g1: "good s1" by (rule good_core [OF assms(1) tr(1)])
  show ?thesis
  proof (cases e)
    case (Some err)
    then have "s' = s1" using assms(2) en by (simp add: knock_decide_def)
    then show ?thesis using tr(2,4) Some g1 core_views(2) [OF tr(1)] by simp
  next
    case None
    obtain cands s2 where rc: "resumeCandidates cfg (ruSb c) s1 = (cands, s2)"
      by (cases "resumeCandidates cfg (ruSb c) s1")
    show ?thesis
    proof (cases cands)
      case (Inl err)
      then have "x = err" using assms(2) en None rc by (simp add: knock_decide_def)
      moreover have "\<exists>msg. err = Errorf msg"
        using rc Inl healthyWorkers_no_error [OF g1]
          running_no_error [OF calm_good [OF calm_healthyWorkers [OF g1]]]
        by (auto simp: resumeCandidates_def Let_def split: prod.splits sum.splits if_splits option.splits)
      ultimately show ?thesis by auto
    next
      case (Inr wr)
      obtain ws run where wr: "wr = (ws, run)" by (cases wr)
      define a where "a = cfNow cfg (sdTick s2)"
      define req where "req = \<lparr>rrSandbox = ruSb c, rrWorkers = ws, rrRunning = run,
        rrSandboxSignals = fst (signalViews a (tick s2)), rrWorkerSignals = snd (signalViews a (tick s2)),
        rrWaiting = fst (listResumeWaitState (tick s2)),
        rrWaitingSince = Some (snd (listResumeWaitState (tick s2)))\<rparr>"
      obtain res s3 where pol: "policy_call_Resume cfg req (tick s2) = (res, s3)"
        by (cases "policy_call_Resume cfg req (tick s2)")
      have s2: "sbs s2 = sbs s1" "lobby s2 = lobby s1" "sdTick s2 = sdTick s1"
        using resumeCandidates_sbs [OF g1 rc] lobby_candidates [of cfg "ruSb c" s1]
          resumeCandidates_tick [of cfg "ruSb c" s1] rc by simp_all
      have c3: "core s3 = core s2" using core_of_snd [of "policy_call_Resume cfg req", OF pol] by simp
      have g3: "good s3" by (rule good_core [OF calm_good [OF resumeCandidates_calm [OF g1 rc]] c3])
      have body: "(Inl x, s') = (case res of Inl x \<Rightarrow> (Inl x, s3) | Inr pl \<Rightarrow> knock_admit cfg c pl s3)"
        using assms(2) en None rc Inr wr pol
        by (cases res) (simp_all add: knock_decide_def reading_defs req_def a_def split_def Let_def)
      show ?thesis
      proof (cases res)
        case (Inr pl)
        then show ?thesis using body knock_admit_plain [OF g3, of c pl x s'] by simp
      next
        case (Inl err)
        then have x: "x = err" "s' = s3" using body by simp_all
        have p: "policy_Resume (cfPolicy cfg) (cfDraw cfg (Suc (sdTick s2))) (cfNow cfg (Suc (Suc (sdTick s2))))
            (cfNow cfg (Suc (Suc (Suc (sdTick s2))))) req = Inl err" "s3 = tick (tick (tick (tick s2)))"
          using pol Inl by (auto simp: policy_call_Resume_def reading_defs)
        have "lost_turn cfg (ruSb c) (sdTick s) s"
          if "cfPolicy cfg = SemanticScore q" "RequireBestWaiter q (cfNow cfg (Suc (Suc (sdTick s2)))) req \<noteq> None" for q
        proof -
          have "RequireBestWaiter q b req = RequireBestWaiter q b (rank_request (ruSb c) a (tick s2))" for b
            by (simp add: RequireBestWaiter_def req_def rank_request_def)
          then have "\<not> best_at q (ruSb c) a (cfNow cfg (Suc (Suc (sdTick s2)))) (tick s2)"
            using that(2) unfolding best_at_def by metis
          then have nb: "\<not> best_at q (ruSb c) a (cfNow cfg (Suc (Suc (sdTick s2)))) s"
            using best_at_lobby [of "tick s2" s] s2(2) tr(2) by simp
          have le: "sdTick s \<le> sdTick s2" using tr(3) s2(3) by simp
          then have "sdTick s \<le> Suc (Suc (sdTick s2))" by simp
          then show ?thesis using that(1) nb le unfolding lost_turn_def a_def by blast
        qed
        then have "plain err \<or> lost_turn cfg (ruSb c) (sdTick s) s"
          using policy_Resume_refusal [OF p(1)] by blast
        moreover have "sbs s3 = sbs s" "lobby s3 = lobby s" "sdTick s < sdTick s3"
          using s2 tr(1-3) core_views(2) [OF c3] core_views(2) [OF tr(1)] p(2) by simp_all
        ultimately show ?thesis using x g3 by auto
      qed
    qed
  qed
qed

end

section \<open>The loop\<close>

definition returns :: "('m, 'w) sched_cfg \<Rightarrow> resume_pc \<times> ('m, 'w) scheduler \<Rightarrow> bool" where
  "returns cfg ps \<longleftrightarrow> (\<exists>k sid r s'. resume_run cfg k ps = (Returned sid r, s'))"

lemma returns_now: "returns cfg (Returned sid r, s)"
  unfolding returns_def by (rule exI [of _ 0]) simp

lemma returns_step: "returns cfg (resume_step cfg False pc s) \<Longrightarrow> returns cfg (pc, s)"
proof -
  assume "returns cfg (resume_step cfg False pc s)"
  then obtain k sid r s' where "resume_run cfg k (resume_step cfg False pc s) = (Returned sid r, s')"
    by (auto simp: returns_def)
  then have "resume_run cfg (Suc k) (pc, s) = (Returned sid r, s')" by simp
  then show ?thesis unfolding returns_def by blast
qed

lemma resume_run_add: "resume_run cfg (m + n) ps = resume_run cfg n (resume_run cfg m ps)"
  by (induction m arbitrary: ps) simp_all

lemma resume_run_returned: "resume_run cfg n (Returned sid r, s) = (Returned sid r, s)"
  by (induction n) simp_all

lemma returns_Resume:
  assumes "returns cfg (resume_begin cfg sid s)"
  shows "\<exists>fuel r. \<forall>n\<ge>fuel. fst (Resume cfg n sid s) = Some r"
proof -
  obtain k i r s' where k: "resume_run cfg k (resume_begin cfg sid s) = (Returned i r, s')"
    using assms by (auto simp: returns_def)
  have "fst (Resume cfg n sid s) = Some r" if "n \<ge> k" for n
    using resume_run_add [of cfg k "n - k"] that k
    by (simp add: Resume_def resume_run_returned)
  then show ?thesis by blast
qed

text \<open>A refused turn returns, or sleeps with the clock read once more and not past the deadline.\<close>

lemma refused_turn:
  assumes "refused cfg c s = (pc, s')" "ruLastErr c = Some e" "plain e"
  shows "(\<exists>r. pc = Returned (ruID c) r)
    \<or> (\<exists>c'. pc = AtSleep c' \<and> ruDeadline c' = ruDeadline c \<and> ruID c' = ruID c \<and> ruSb c' = ruSb c
         \<and> sdTick s < sdTick s' \<and> cfNow cfg (sdTick s) \<le> ruDeadline c)"
proof -
  have ne: "\<not> errors_Is e ErrNotBestWaiter" using assms(3) by (simp add: plain_def)
  define enter where "enter \<longleftrightarrow> errors_Is e ErrAllSemanticLocked \<and> \<not> ruEntered c"
  define c1 where "c1 = (if enter then c\<lparr>ruLastErr := Some e, ruEntered := True\<rparr>
    else c\<lparr>ruLastErr := Some e\<rparr>)"
  define s1 where "s1 = (if enter
    then on_metrics (RecordSemanticStarvationWait StarvationEnter) s else s)"
  have eqs: "ruID c1 = ruID c" "ruDeadline c1 = ruDeadline c" "ruSb c1 = ruSb c" "sdTick s1 = sdTick s"
    by (simp_all add: c1_def s1_def)
  have "\<exists>t1 t2 o1. refused cfg c s =
      (if \<not> resumeRetryable (Some e) \<or> ruWait c \<le> 0 then resume_return (c\<lparr>ruLastErr := Some e\<rparr>) (Inl e) t1
       else if cfNow cfg (sdTick s1) > ruDeadline c then resume_return c1 (Inl o1) t2
       else (AtSleep c1, tick s1))"
    unfolding refused_def reading_defs using ne assms(2)
    by (cases enter; cases "ruEntered c") (simp_all add: Let_def enter_def s1_def c1_def, blast+)
  then obtain t1 t2 o1 where "refused cfg c s =
      (if \<not> resumeRetryable (Some e) \<or> ruWait c \<le> 0 then resume_return (c\<lparr>ruLastErr := Some e\<rparr>) (Inl e) t1
       else if cfNow cfg (sdTick s1) > ruDeadline c then resume_return c1 (Inl o1) t2
       else (AtSleep c1, tick s1))" by blast
  then show ?thesis using assms(1) eqs by (auto simp: resume_return_def split: if_splits)
qed

context plain_env
begin

text \<open>What a knock comes to; \<open>c'\<close> is the call as the closure leaves it.\<close>

lemma knock_cases:
  assumes "good s" "sbID (ruSb c) = ruID c" "reread cfg (ruID c) (ruSb c) s = (sb, s1)" "knock cfg c s = (pc, s2)"
  obtains (admitted) c' a where "pc = AtRestore c' a" "ruID c' = ruID c" "sbID (ruSb c') = ruID c" "good s2"
  | (refused) e where "pc = AtRefused (c\<lparr>ruSb := sb, ruLastErr := Some e\<rparr>)" "plain e" "good s2" "sbID sb = ruID c"
  | (lost) e where "pc = AtRefused (c\<lparr>ruSb := sb, ruLastErr := Some e\<rparr>)" "\<not> plain e" "good s2" "sbID sb = ruID c"
      "lost_turn cfg sb (sdTick s1) s1" "sbs s2 = sbs s1" "lobby s2 = lobby s1" "sdTick s1 < sdTick s2"
proof -
  note r = reread_result [OF assms(1,3)]
  have g1: "good s1" by (rule good_core [OF assms(1) r(1)])
  have sb: "sbID sb = ruID c" using r(3) assms(2) by simp
  obtain d s2' where kd: "knock_decide cfg (c\<lparr>ruSb := sb\<rparr>) s1 = (d, s2')"
    by (cases "knock_decide cfg (c\<lparr>ruSb := sb\<rparr>) s1")
  show thesis
  proof (cases d)
    case (Inl e)
    then have eq: "pc = AtRefused (c\<lparr>ruSb := sb, ruLastErr := Some e\<rparr>)" "s2' = s2"
      using assms(3,4) kd by (simp_all add: knock_def)
    have "calm s s2" using knock_result [OF assms(1,4,2)] eq(1) by (elim disjE exE conjE) simp_all
    then have "good s2" by (rule calm_good)
    note kr = knock_decide_refusal [OF g1 kd [unfolded Inl eq(2)]]
    show thesis
    proof (cases "plain e")
      case True
      show thesis by (rule that(2) [OF eq(1) True \<open>good s2\<close> sb])
    next
      case False
      then have "lost_turn cfg sb (sdTick s1) s1" "sbs s2 = sbs s1" "lobby s2 = lobby s1" "sdTick s1 < sdTick s2"
        using kr by simp_all
      then show thesis by (rule that(3) [OF eq(1) False \<open>good s2\<close> sb])
    qed
  next
    case (Inr a)
    then have pc: "pc = AtRestore (c\<lparr>ruSb := sb, ruLastErr := None\<rparr>) a" using assms(3,4) kd by (simp add: knock_def)
    then have "knocked (ruID c) s (Inr a) s2" using knock_result [OF assms(1,4,2)] by (elim disjE exE conjE) simp_all
    then have "good s2" unfolding knocked_def sum.case using calm_good by (auto simp: good_def reserveRestore_def)
    then show thesis using that(1) [OF pc] sb by simp
  qed
qed

lemma lost_goes_round:
  assumes "ruLastErr c = Some e" "\<not> plain e"
  shows "refused cfg c s = (AtSleep c, s)"
  using assms by (simp add: refused_def plain_def)

text \<open>A sandbox as the call has read it, with its entry in the lobby: reading it again changes nothing.\<close>

definition steady :: "string \<Rightarrow> sandbox \<Rightarrow> ('a, 'b) scheduler \<Rightarrow> bool" where
  "steady sid sb s \<longleftrightarrow> (case sbs s sid of
     None \<Rightarrow> True
   | Some cur \<Rightarrow> cur = sb \<and> (\<exists>w. mget (sdResumeWaiters s) (sbID cur) = Some w
       \<and> mput (sbID cur) (w\<lparr>rwSandbox := cur\<rparr>) (sdResumeWaiters s) = sdResumeWaiters s))"

lemma get_cases:
  assumes "good s"
  shows "(\<exists>e. stGetSandbox (cfStore cfg) sid (sdStore s) = Inl e) \<and> sbs s sid = None
    \<or> (\<exists>cur. stGetSandbox (cfStore cfg) sid (sdStore s) = Inr cur \<and> sbs s sid = Some cur)"
proof (cases "stGetSandbox (cfStore cfg) sid (sdStore s)")
  case (Inl e)
  then have "sbs s sid \<noteq> Some cur" for cur
    using get_sandbox [of "sdStore s" sid cur] assms by (auto simp: good_def sbs_def)
  then show ?thesis using Inl by (cases "sbs s sid") auto
qed (use get_running [OF assms] in auto)

lemma reread_steady:
  assumes "good s" "reread cfg sid sb s = (sb', s')"
  shows "steady sid sb' s'"
  using get_cases [OF assms(1), of sid]
proof (elim disjE exE conjE)
  fix cur assume c: "stGetSandbox (cfStore cfg) sid (sdStore s) = Inr cur" "sbs s sid = Some cur"
  then have "sb' = cur" "s' = addResumeWaiter cfg cur s" using assms(2) by (auto simp: reread_def)
  moreover have "sbs (addResumeWaiter cfg cur s) sid = Some cur" using c(2) by (simp add: sbs_def)
  ultimately show ?thesis
    by (auto simp: steady_def addResumeWaiter_def time_Now_def update_last split: option.split)
next
  fix e assume c: "stGetSandbox (cfStore cfg) sid (sdStore s) = Inl e" "sbs s sid = None"
  then show ?thesis using assms(2) by (simp add: reread_def steady_def)
qed

lemma steady_reread:
  assumes "good s" "steady sid sb s"
  shows "reread cfg sid sb s = (sb, s)"
  using get_cases [OF assms(1), of sid] assms(2)
  by (auto simp: steady_def reread_def addResumeWaiter_def)

lemma steady_same: "steady sid sb s \<Longrightarrow> sbs s' = sbs s \<Longrightarrow> lobby s' = lobby s \<Longrightarrow> steady sid sb s'"
  by (simp add: steady_def lobby_def split: option.splits)

lemma admitted_returns:
  assumes "good s" "sbID (ruSb c) = ruID c"
  shows "returns cfg (AtRestore c a, s)"
proof (rule returns_step)
  obtain pc s1 where r: "do_restore cfg c a s = (pc, s1)" by (cases "do_restore cfg c a s")
  note e = do_restore_result [OF assms(1) r]
  show "returns cfg (resume_step cfg False (AtRestore c a) s)"
  proof (cases "\<exists>p. pc = AtCommit c a p")
    case True
    then obtain p where p: "pc = AtCommit c a p" ..
    obtain pc2 s2 where m: "do_commit cfg c a p s1 = (pc2, s2)" by (cases "do_commit cfg c a p s1")
    have "good s1" using e by simp
    then obtain sb where "pc2 = Returned (ruID c) (Inr sb)"
      using do_commit_result [OF _ m assms(2)] by blast
    then have "returns cfg (AtCommit c a p, s1)" by (intro returns_step) (simp add: m returns_now)
    then show ?thesis using r p by simp
  next
    case False
    then obtain x where "pc = Returned (ruID c) (Inl x)" using e by (auto split: if_splits)
    then show ?thesis using r by (simp add: returns_now)
  qed
qed

lemma lost_returns:
  assumes "ruLastErr c = Some e" "\<not> plain e" "returns cfg (AtTop c, s)"
  shows "returns cfg (AtRefused c, s)"
proof -
  have "returns cfg (AtSleep c, s)" using assms(3) by (intro returns_step) (simp add: sleep_wake_def)
  then show ?thesis using lost_goes_round [OF assms(1,2)] by (intro returns_step) simp
qed

text \<open>A refused turn is past its deadline, or sleeps and comes back later.\<close>

lemma refused_returns:
  assumes "good s" "ruLastErr c = Some e" "plain e" "sbID (ruSb c) = ruID c"
    and top: "\<And>s'. cfNow cfg (sdTick s) \<le> ruDeadline c \<Longrightarrow> good s' \<Longrightarrow> sdTick s < sdTick s' \<Longrightarrow>
      (\<And>c'. ruDeadline c' = ruDeadline c \<Longrightarrow> ruID c' = ruID c \<Longrightarrow> ruSb c' = ruSb c \<Longrightarrow> returns cfg (AtTop c', s'))"
  shows "returns cfg (AtRefused c, s)"
proof -
  obtain pc s' where rf: "refused cfg c s = (pc, s')" by (cases "refused cfg c s")
  have g: "good s'" using good_core [OF assms(1)] refused_result [OF rf assms(4)] by blast
  have "returns cfg (pc, s')" using refused_turn [OF rf assms(2,3)]
  proof (elim disjE exE conjE)
    fix c' assume c': "pc = AtSleep c'" "ruDeadline c' = ruDeadline c" "ruID c' = ruID c" "ruSb c' = ruSb c"
      "sdTick s < sdTick s'" "cfNow cfg (sdTick s) \<le> ruDeadline c"
    have "returns cfg (AtTop c', s')" by (rule top [OF c'(6) g c'(5,2,3,4)])
    then show ?thesis unfolding c'(1) by (intro returns_step) (simp add: sleep_wake_def)
  qed (simp add: returns_now)
  then show ?thesis by (intro returns_step) (simp add: rf)
qed

lemma knock_returns:
  assumes g: "good s" and c: "sbID (ruSb c) = ruID c"
    and top: "\<And>c' s'. good s' \<Longrightarrow> sbID (ruSb c') = ruID c' \<Longrightarrow> ruDeadline c' = ruDeadline c \<Longrightarrow>
      sdTick s < sdTick s' \<Longrightarrow> returns cfg (AtTop c', s')"
  shows "returns cfg (AtKnock c, s)"
proof -
  obtain sb s1 where rr: "reread cfg (ruID c) (ruSb c) s = (sb, s1)" by (cases "reread cfg (ruID c) (ruSb c) s")
  have t1: "sdTick s \<le> sdTick s1" using reread_tick [of s cfg "ruID c" "ruSb c"] rr by simp
  obtain pc s2 where kn: "knock cfg c s = (pc, s2)" by (cases "knock cfg c s")
  have t2: "sdTick s \<le> sdTick s2" using knock_tick [of s cfg c] kn by simp
  have "returns cfg (pc, s2)"
  proof (rule knock_cases [OF g c rr kn])
    fix c' a assume "pc = AtRestore c' a" "ruID c' = ruID c" "sbID (ruSb c') = ruID c" "good s2"
    then show ?thesis using admitted_returns by simp
  next
    fix e assume e: "pc = AtRefused (c\<lparr>ruSb := sb, ruLastErr := Some e\<rparr>)" "plain e" "good s2" "sbID sb = ruID c"
    show ?thesis unfolding e(1)
      by (rule refused_returns [OF e(3) _ e(2)]) (use top e(4) t2 in auto)
  next
    fix e assume e: "pc = AtRefused (c\<lparr>ruSb := sb, ruLastErr := Some e\<rparr>)" "\<not> plain e" "good s2" "sbID sb = ruID c"
      "sdTick s1 < sdTick s2"
    show ?thesis unfolding e(1)
      by (rule lost_returns [OF _ e(2)]) (use top [OF e(3)] e(4,5) t1 in auto)
  qed
  then show ?thesis by (intro returns_step) (simp add: kn)
qed

text \<open>Past the deadline a turn that is lost before the knock ends the call.\<close>

lemma await_late:
  assumes "ensureKnockerTurn cfg sb s = (Some e, s1)" "ruDeadline c < cfNow cfg (sdTick s1)"
  shows "returns cfg (AtAwait c sb, s)"
proof -
  have "e = ErrNotBestWaiter" using turn_result(4) [OF assms(1)] by simp
  then have "\<exists>x s2. await_test cfg c sb s = (Returned (ruID c) x, s2)"
    using assms by (simp add: await_test_def reading_defs resume_return_def Let_def)
  then show ?thesis by (intro returns_step) (auto simp: returns_now)
qed

lemma await_won:
  assumes "ensureKnockerTurn cfg sb s = (None, s1)" "returns cfg (AtKnock c, s1)"
  shows "returns cfg (AtAwait c sb, s)"
  using assms by (intro returns_step) (simp add: await_test_def)

text \<open>
  Past the deadline a call that goes round again has lost its turn between two tests, with the store, the
  signals and the lobby as they were; once the rank has settled that cannot happen.
\<close>

lemma late_await_returns:
  assumes late: "\<forall>n\<ge>N. ruDeadline c < cfNow cfg n" and c: "sbID sb = ruID c" and st: "steady (ruID c) sb s1"
    and M: "\<forall>s2 s3 s4. lobby s2 = lobby s1 \<longrightarrow> M \<le> sdTick s2 \<longrightarrow> ensureKnockerTurn cfg sb s2 = (None, s3)
      \<longrightarrow> lobby s4 = lobby s1 \<longrightarrow> \<not> lost_turn cfg sb M s4"
    and "good s2" "sbs s2 = sbs s1" "lobby s2 = lobby s1" "N \<le> sdTick s2" "ruSb d = sb" "ruID d = ruID c"
    and "ruDeadline d = ruDeadline c"
  shows "returns cfg (AtAwait d sb, s2)"
  using assms(5-)
proof (induction "M - sdTick s2" arbitrary: d s2 rule: less_induct)
  case less
  obtain e s3 where en: "ensureKnockerTurn cfg sb s2 = (e, s3)" by (cases "ensureKnockerTurn cfg sb s2")
  note tr = turn_result [OF en]
  show ?case
  proof (cases e)
    case (Some x)
    have "ruDeadline d < cfNow cfg (sdTick s3)" using late less.prems(4,7) tr(3) by simp
    then show ?thesis by (rule await_late [OF en [unfolded Some]])
  next
    case None
    have g3: "good s3" by (rule good_core [OF less.prems(1) tr(1)])
    have same3: "sbs s3 = sbs s1" "lobby s3 = lobby s1"
      using core_views(2) [OF tr(1)] tr(2) less.prems(2,3) by simp_all
    have d: "sbID (ruSb d) = ruID d" using less.prems(5,6) c by simp
    have re: "reread cfg (ruID d) (ruSb d) s3 = (sb, s3)"
      using steady_reread [OF g3 steady_same [OF st same3]] less.prems(5,6) by simp
    obtain pc s4 where kn: "knock cfg d s3 = (pc, s4)" by (cases "knock cfg d s3")
    have t4: "sdTick s2 \<le> sdTick s4" using knock_tick [of s3 cfg d] kn tr(3) by simp
    have "returns cfg (pc, s4)"
    proof (rule knock_cases [OF g3 d re kn])
      fix c' a assume "pc = AtRestore c' a" "ruID c' = ruID d" "sbID (ruSb c') = ruID d" "good s4"
      then show ?thesis using admitted_returns by simp
    next
      fix x assume x: "pc = AtRefused (d\<lparr>ruSb := sb, ruLastErr := Some x\<rparr>)" "plain x" "good s4" "sbID sb = ruID d"
      have "ruDeadline c < cfNow cfg (sdTick s4)" using late less.prems(4) t4 by simp
      then show ?thesis unfolding x(1)
        by (intro refused_returns [OF x(3) _ x(2)]) (use x(4) less.prems(7) in auto)
    next
      fix x assume x: "pc = AtRefused (d\<lparr>ruSb := sb, ruLastErr := Some x\<rparr>)" "\<not> plain x" "good s4" "sbID sb = ruID d"
        "lost_turn cfg sb (sdTick s3) s3" "sbs s4 = sbs s3" "lobby s4 = lobby s3" "sdTick s3 < sdTick s4"
      have "sdTick s2 < M"
      proof (rule ccontr)
        assume "\<not> sdTick s2 < M"
        then have m: "M \<le> sdTick s2" by simp
        then have "lost_turn cfg sb M s3" using x(5) tr(3) unfolding lost_turn_def by (meson le_trans)
        then show False using M less.prems(3) m en None same3(2) by blast
      qed
      then have lt: "M - sdTick s4 < M - sdTick s2" using x(8) tr(3) by simp
      define d' where "d' = d\<lparr>ruSb := sb, ruLastErr := Some x\<rparr>"
      have same4: "sbs s4 = sbs s1" "lobby s4 = lobby s1" using x(6,7) same3 by simp_all
      have "returns cfg (AtAwait d' sb, s4)"
        by (rule less.hyps [OF lt x(3) same4]) (use less.prems t4 in \<open>simp_all add: d'_def\<close>)
      moreover have "reread cfg (ruID d') (ruSb d') s4 = (sb, s4)"
        using steady_reread [OF x(3) steady_same [OF st same4]] less.prems(6) by (simp add: d'_def)
      moreover have "d'\<lparr>ruSb := sb\<rparr> = d'" by (simp add: d'_def)
      ultimately have "returns cfg (AtTop d', s4)" by (intro returns_step) simp
      then show ?thesis unfolding x(1) d'_def [symmetric] by (intro lost_returns [OF _ x(2)]) (simp add: d'_def)
    qed
    then have "returns cfg (AtKnock d, s3)" by (intro returns_step) (simp add: kn)
    then show ?thesis by (rule await_won [OF en [unfolded None]])
  qed
qed

lemma late_returns:
  assumes "\<And>t. \<exists>N. \<forall>n\<ge>N. t < cfNow cfg n" and late: "\<forall>n\<ge>N. ruDeadline c < cfNow cfg n"
    and "good s" "sbID (ruSb c) = ruID c" "N \<le> sdTick s"
  shows "returns cfg (AtTop c, s)"
proof -
  obtain sb s1 where rr: "reread cfg (ruID c) (ruSb c) s = (sb, s1)" by (cases "reread cfg (ruID c) (ruSb c) s")
  note r = reread_result [OF assms(3) rr]
  have g1: "good s1" by (rule good_core [OF assms(3) r(1)])
  have t1: "N \<le> sdTick s1" using reread_tick [of s cfg "ruID c" "ruSb c"] rr assms(5) by simp
  note st = reread_steady [OF assms(3) rr]
  obtain M where M: "\<forall>s2 s3 s4. lobby s2 = lobby s1 \<longrightarrow> M \<le> sdTick s2 \<longrightarrow> ensureKnockerTurn cfg sb s2 = (None, s3)
      \<longrightarrow> lobby s4 = lobby s1 \<longrightarrow> \<not> lost_turn cfg sb M s4"
    using turn_settles [OF assms(1), of s1 sb] by blast
  have "returns cfg (AtAwait (c\<lparr>ruSb := sb\<rparr>) sb, s1)"
    by (rule late_await_returns [OF late _ st M g1]) (use r(3) assms(4) t1 in simp_all)
  then show ?thesis using rr by (intro returns_step) simp
qed

text \<open>The wait in the lobby, given that the calls return that come back from a knock.\<close>

lemma await_returns:
  assumes N: "\<forall>n\<ge>N. ruDeadline c < cfNow cfg n"
    and top: "\<And>d' t'. good t' \<Longrightarrow> sbID (ruSb d') = ruID d' \<Longrightarrow> ruDeadline d' = ruDeadline c \<Longrightarrow> k < sdTick t' \<Longrightarrow>
      returns cfg (AtTop d', t')"
    and "good t'" "sbID (ruSb d') = ruID d'" "sbID sb = ruID d'" "ruDeadline d' = ruDeadline c" "k \<le> sdTick t'"
  shows "returns cfg (AtAwait d' sb, t')"
  using assms(3-)
proof (induction "N - sdTick t'" arbitrary: sb t' rule: less_induct)
  case less
  obtain e t1 where en: "ensureKnockerTurn cfg sb t' = (e, t1)" by (cases "ensureKnockerTurn cfg sb t'")
  note tr = turn_result [OF en]
  have g1: "good t1" by (rule good_core [OF less.prems(1) tr(1)])
  show ?case
  proof (cases e)
    case None
    have "returns cfg (AtKnock d', t1)"
      by (rule knock_returns [OF g1 less.prems(2)]) (use top less.prems(4,5) tr(3) in auto)
    then show ?thesis by (rule await_won [OF en [unfolded None]])
  next
    case (Some x)
    then have x: "x = ErrNotBestWaiter" "sdTick t' < sdTick t1" using tr(4) by simp_all
    show ?thesis
    proof (cases "ruDeadline d' < cfNow cfg (sdTick t1)")
      case True
      then show ?thesis by (rule await_late [OF en [unfolded Some]])
    next
      case False
      then have "sdTick t1 < N" using N less.prems(4) by (metis not_le)
      obtain sb' t2 where rr: "reread cfg (sbID sb) sb (tick t1) = (sb', t2)"
        by (cases "reread cfg (sbID sb) sb (tick t1)")
      have gt: "good (tick t1)" by (rule good_core [OF g1]) simp
      note r = reread_result [OF gt rr]
      have t2: "sdTick t1 < sdTick t2" using reread_tick [of "tick t1" cfg "sbID sb" sb] rr by simp
      have "returns cfg (AtAwait d' sb', t2)"
      proof (rule less.hyps)
        show "N - sdTick t2 < N - sdTick t'" using x(2) t2 \<open>sdTick t1 < N\<close> by simp
        show "good t2" by (rule good_core [OF gt r(1)])
      qed (use less.prems r(3) x(2) t2 in auto)
      then have "returns cfg (AtAwaitSleep d' sb, tick t1)"
        by (intro returns_step) (simp add: await_wake_def rr)
      moreover have "await_test cfg d' sb t' = (AtAwaitSleep d' sb, tick t1)"
        using en Some x(1) False by (simp add: await_test_def reading_defs Let_def)
      ultimately show ?thesis by (intro returns_step) simp
    qed
  qed
qed

lemma loop_returns:
  assumes clock: "\<And>t. \<exists>N. \<forall>n\<ge>N. t < cfNow cfg n"
    and "good s" "sbID (ruSb c) = ruID c"
  shows "returns cfg (AtTop c, s)"
proof -
  obtain N where N: "\<forall>n\<ge>N. ruDeadline c < cfNow cfg n" using clock by blast
  have "returns cfg (AtTop d, t)" if "good t" "sbID (ruSb d) = ruID d" "ruDeadline d = ruDeadline c" for d t
    using that
  proof (induction "N - sdTick t" arbitrary: d t rule: less_induct)
    case less
    show ?case
    proof (cases "N \<le> sdTick t")
      case True
      then show ?thesis using late_returns [OF clock _ less.prems(1,2) True] N less.prems(3) by simp
    next
      case False
      have top: "returns cfg (AtTop d', t')"
        if "good t'" "sbID (ruSb d') = ruID d'" "ruDeadline d' = ruDeadline c" "sdTick t < sdTick t'" for d' t'
        by (rule less.hyps [OF _ that(1-3)]) (use False that(4) in simp)
      obtain sb t1 where rr: "reread cfg (ruID d) (ruSb d) t = (sb, t1)" by (cases "reread cfg (ruID d) (ruSb d) t")
      note r = reread_result [OF less.prems(1) rr]
      have "returns cfg (AtAwait (d\<lparr>ruSb := sb\<rparr>) sb, t1)"
        by (rule await_returns [OF N top good_core [OF less.prems(1) r(1)]])
          (use r(3) less.prems reread_tick [of t cfg "ruID d" "ruSb d"] rr in simp_all)
      then show ?thesis using rr by (intro returns_step) simp
    qed
  qed
  then show ?thesis using assms(2,3) by simp
qed

lemma begin_returns:
  assumes "good s" "\<And>t. \<exists>N. \<forall>n\<ge>N. t < cfNow cfg n"
  shows "returns cfg (resume_begin cfg sid s)"
proof -
  obtain pc s1 where b: "resume_begin cfg sid s = (pc, s1)" by (cases "resume_begin cfg sid s")
  note r = resume_begin_result [OF assms(1) b]
  have g1: "good s1" using good_core [OF assms(1)] r by blast
  have "(\<exists>x. pc = Returned sid x) \<or> (\<exists>c. pc = AtTop c)"
    using b by (auto simp: resume_begin_def Let_def split: prod.splits sum.splits if_splits)
  then show ?thesis
  proof (elim disjE exE)
    fix c assume c: "pc = AtTop c"
    then show ?thesis using loop_returns [OF assms(2) g1, of c] r b by simp
  qed (simp add: b returns_now)
qed

end

section \<open>The deployed system\<close>

lemma client_do_plain: "client_do verb base path handler c = (Inl e, c') \<Longrightarrow> plain e"
  by (auto simp: client_do_def split: option.splits prod.splits http_response.splits)

lemma client_err_plain:
  "map_prod err_of f (client_do verb base path handler c) = (Some e, c') \<Longrightarrow> plain e"
  by (cases "client_do verb base path handler c")
    (auto simp: err_of_def split: sum.splits dest: client_do_plain)

interpretation deployed_plain: plain_env "deployed H cfg" memory_ok "\<lambda>m. mget (mmSandboxes m)"
    "\<lambda>m. mget (mmWorkers m)" mmGolden cluster_ok cluster_slot
  for H :: "'h host_api" and cfg :: "(memory, 'h cluster) sched_cfg"
proof unfold_locales
  fix m sid wid e w a w' opts
  show "stGetSandbox (cfStore (deployed H cfg)) sid m = Inl e \<Longrightarrow> plain e"
    by (auto simp: deployed_def memory_defs split: option.splits)
  show "stGetWorker (cfStore (deployed H cfg)) wid m = Inl e \<Longrightarrow> plain e"
    by (auto simp: deployed_def memory_defs split: option.splits)
  show "wcBoot (cfWorkers (deployed H cfg)) a sid w = (Some e, w') \<Longrightarrow> plain e"
    by (auto simp: deployed_def http_workers_def Client_Boot_def dest: client_err_plain)
  show "wcCheckpoint (cfWorkers (deployed H cfg)) a sid opts w = (Inl e, w') \<Longrightarrow> plain e"
    by (auto simp: deployed_def http_workers_def Client_Checkpoint_def dest: client_do_plain)
qed

text \<open>
  The case without a deadline: under semantic-score a knock that finds its caller outranked sends it to
  sleep, however late it is. Other callers that come and go can keep a call there.
\<close>

lemma outranked_has_no_deadline:
  assumes "cfPolicy cfg = SemanticScore p" and "reread cfg (ruID c) (ruSb c) s = (sb, s1)"
    and "\<not> best_at p sb (cfNow cfg (sdTick s1)) (cfNow cfg (Suc (sdTick s1))) s1"
  shows "\<exists>c' s2. knock cfg c s = (AtRefused c', s2) \<and> refused cfg c' s2 = (AtSleep c', s2)"
proof -
  obtain e s2 where en: "ensureKnockerTurn cfg sb s1 = (e, s2)" by (cases "ensureKnockerTurn cfg sb s1")
  note tr = turn_result [OF en]
  have "e = Some ErrNotBestWaiter" using tr(4) tr(5) [OF _ assms(1)] assms(3) by blast
  then have "knock cfg c s = (AtRefused (c\<lparr>ruSb := sb, ruLastErr := Some ErrNotBestWaiter\<rparr>), s2)"
    using assms(2) en by (simp add: knock_def knock_decide_def)
  then show ?thesis by (auto simp: refused_def)
qed

text \<open>
  C6: every resume returns. Under every policy, and with a clock that passes every time, a call of
  \<open>Resume\<close> that is not interleaved with others ends from every well-formed state, with a sandbox or with
  an error: from some number of steps on, more steps do not change that it has returned.
\<close>

theorem resume_returns:
  assumes "memory_ok (sdStore s)" and "cluster_ok (sdWorld s)" and "\<And>t. \<exists>N. \<forall>n\<ge>N. t < cfNow cfg n"
  shows "\<exists>fuel r. \<forall>n\<ge>fuel. fst (Resume (deployed H cfg) n sid s) = Some r"
proof (rule returns_Resume, rule deployed_plain.begin_returns)
  show "\<And>t. \<exists>N. \<forall>n\<ge>N. t < cfNow (deployed H cfg) n" using assms(3) by (simp add: deployed_def)
  show "deployed_env.good s" using assms(1,2) by (simp add: deployed_env.good_def)
qed

theorem resume_returns_witness:
  "\<exists>fuel r. \<forall>n\<ge>fuel. fst (Resume (demo_cfg\<lparr>cfPolicy := SemanticScore default_score\<rparr>) n ''u'' demo_start) = Some r"
proof -
  let ?cfg = "demo_cfg\<lparr>cfPolicy := SemanticScore default_score\<rparr>"
  have "deployed (demo_api True) ?cfg = ?cfg" by (simp add: deployed_def demo_cfg_def)
  moreover have "memory_ok (sdStore demo_start)" "cluster_ok (sdWorld demo_start)"
    using demo_fresh by (simp_all add: fresh_start_def)
  moreover have "\<exists>N. \<forall>n\<ge>N. t < cfNow ?cfg n" for t
    by (rule exI [of _ "nat t + 1"]) (auto simp: demo_cfg_def)
  ultimately show ?thesis using resume_returns [of demo_start ?cfg "demo_api True" "''u''"] by metis
qed

end
