(* ===== verification/SparseCodec.thy ===== *)
theory SparseCodec
  imports Prelude
begin

text \<open>
  The file codec of \<open>internal/snapshotstore\<close>: \<open>sparsezstd.go\<close> (files with holes) and \<open>codec.go\<close> (plain streams,
  detection of the format). The zstd library is a pair of parameters: \<open>ze\<close>, what \<open>Close\<close> leaves of
  the bytes written or the error of the encoder or its sink, and \<open>zd\<close>, the stream decoded from a
  stream. A file is the list of its cells, \<open>None\<close> in a hole; \<open>SEEK_DATA\<close> and \<open>SEEK_HOLE\<close> are lseek's
  on them. Other operations on local files do not fail here.
\<close>

section \<open>Bytes, streams and files\<close>

type_synonym byte = "8 word"
type_synonym bytes = "byte list"

text \<open>A reader: the bytes it still gives, then its error, \<open>None\<close> for a proper end.\<close>

type_synonym stream = "bytes \<times> go_error option"

definition io_EOF :: go_error where "io_EOF = Errorf ''EOF''"
definition io_ErrUnexpectedEOF :: go_error where "io_ErrUnexpectedEOF = Errorf ''unexpected EOF''"

definition read_full :: "nat \<Rightarrow> stream \<Rightarrow> (bytes \<times> stream) result" where
  "read_full n st =
     (case st of (bs, e) \<Rightarrow>
        if n \<le> length bs then Inr (take n bs, (drop n bs, e))
        else Inl (case e of Some err \<Rightarrow> err
                  | None \<Rightarrow> if bs = [] then io_EOF else io_ErrUnexpectedEOF))"

text \<open>\<open>io.CopyN\<close>: the bytes that reach the destination, and the rest of the source or the error.\<close>

definition copy_n :: "nat \<Rightarrow> stream \<Rightarrow> bytes \<times> stream result" where
  "copy_n n st =
     (case st of (bs, e) \<Rightarrow>
        (take n bs,
         if n \<le> length bs then Inr (drop n bs, e)
         else Inl (case e of Some err \<Rightarrow> err | None \<Rightarrow> io_EOF)))"

text \<open>\<open>binary.LittleEndian\<close>, \<open>n\<close> bytes of a two's complement integer.\<close>

primrec le_bytes :: "nat \<Rightarrow> int \<Rightarrow> bytes" where
  "le_bytes 0 v = []"
| "le_bytes (Suc n) v = word_of_int v # le_bytes n (v div 256)"

primrec le_uint :: "bytes \<Rightarrow> int" where
  "le_uint [] = 0"
| "le_uint (b # bs) = uint b + 256 * le_uint bs"

abbreviation le64 :: "int \<Rightarrow> bytes" where "le64 \<equiv> le_bytes 8"

definition read_int64 :: "stream \<Rightarrow> (int \<times> stream) result" where
  "read_int64 st = map_sum (\<lambda>e. e) (map_prod (\<lambda>bs. wrap64 (le_uint bs)) (\<lambda>st. st)) (read_full 8 st)"

type_synonym sfile = "byte option list"

definition contents :: "sfile \<Rightarrow> bytes" where
  "contents f = map (\<lambda>c. case c of None \<Rightarrow> 0 | Some b \<Rightarrow> b) f"

text \<open>The offset of the next data at or after \<open>off\<close>, \<open>None\<close> for \<open>ENXIO\<close>; the next hole or the end.\<close>

definition seek_data :: "sfile \<Rightarrow> nat \<Rightarrow> nat option" where
  "seek_data f off =
     (let ds = off + length (takeWhile (\<lambda>c. c = None) (drop off f))
      in if ds < length f then Some ds else None)"

definition seek_hole :: "sfile \<Rightarrow> nat \<Rightarrow> nat" where
  "seek_hole f off = off + length (takeWhile (\<lambda>c. c \<noteq> None) (drop off f))"

definition truncate_file :: "nat \<Rightarrow> sfile \<Rightarrow> sfile" where
  "truncate_file n f = take n f @ replicate (n - length f) None"

definition write_at :: "nat \<Rightarrow> bytes \<Rightarrow> sfile \<Rightarrow> sfile" where
  "write_at off bs f =
     (if bs = [] then f
      else take off f @ replicate (off - length f) None @ map Some bs @ drop (off + length bs) f)"

section \<open>The sparse format\<close>

definition sparseMagic :: bytes where
  "sparseMagic = [0x41, 0x54, 0x45, 0x53, 0x50, 0x52, 0x53, 0x45]"

definition sparseVersion :: int where "sparseVersion = 2"

definition sparseEndOffset :: int where "sparseEndOffset = -1"

lemma seek_data_range: "seek_data f off = Some ds \<Longrightarrow> off \<le> ds \<and> ds < length f \<and> f ! ds \<noteq> None"
proof -
  assume s: "seek_data f off = Some ds"
  define k where "k = length (takeWhile (\<lambda>c. c = None) (drop off f))"
  have ds: "ds = off + k" "ds < length f"
    using s by (auto simp: seek_data_def k_def Let_def split: if_splits)
  then have "k < length (drop off f)" by simp
  then have "drop off f ! k \<noteq> None" unfolding k_def by (rule nth_length_takeWhile)
  then show ?thesis using ds by simp
qed

lemma takeWhile_pos: "xs \<noteq> [] \<Longrightarrow> P (hd xs) \<Longrightarrow> takeWhile P xs \<noteq> []"
  by (cases xs) simp_all

lemma seek_hole_after: "ds < length f \<Longrightarrow> f ! ds \<noteq> None \<Longrightarrow> ds < seek_hole f ds"
  using takeWhile_pos [of "drop ds f" "\<lambda>c. c \<noteq> None"] by (simp add: seek_hole_def hd_drop_conv_nth)

text \<open>The extents from \<open>off\<close> on, as written to the encoder, and their total length.\<close>

function write_extents :: "sfile \<Rightarrow> nat \<Rightarrow> bytes \<times> nat" where
  "write_extents f off =
     (if off < length f then
        (case seek_data f off of
           None \<Rightarrow> ([], 0)
         | Some ds \<Rightarrow>
             let de = seek_hole f ds;
                 length' = de - ds
             in case write_extents f de of (ext, n) \<Rightarrow>
                  (le64 (int ds) @ le64 (int length') @ contents (take length' (drop ds f)) @ ext,
                   length' + n))
      else ([], 0))"
  by pat_completeness auto

termination
proof (relation "measure (\<lambda>(f, off). length f - off)", goal_cases)
  case (2 f off ds de length')
  have "off \<le> ds" "ds < length f" "ds < seek_hole f ds"
    using seek_data_range [OF 2(2)] seek_hole_after by auto
  then show ?case using 2(3) by auto
qed simp

declare write_extents.simps [simp del]

definition writeSparseZstd :: "(bytes \<Rightarrow> bytes result) \<Rightarrow> sfile \<Rightarrow> (bytes \<times> nat \<times> nat) result" where
  "writeSparseZstd ze f =
     (let sz = length f
      in case write_extents f 0 of (ext, dataBytes) \<Rightarrow>
           (case ze (le64 (int sz) @ ext @ le64 sparseEndOffset) of
              Inl e \<Rightarrow> Inl e
            | Inr z \<Rightarrow> Inr (sparseMagic @ le_bytes 4 sparseVersion @ z, sz, dataBytes)))"

text \<open>\<open>%d\<close> of the formatted errors.\<close>

fun show_nat :: "nat \<Rightarrow> string" where
  "show_nat n = (if n < 10 then [char_of (48 + n)] else show_nat (n div 10) @ [char_of (48 + n mod 10)])"

declare show_nat.simps [simp del]

definition show_int :: "int \<Rightarrow> string" where
  "show_int i = (if i < 0 then CHR ''-'' # show_nat (nat (- i)) else show_nat (nat i))"

definition extent_error :: "int \<Rightarrow> int \<Rightarrow> int \<Rightarrow> go_error" where
  "extent_error off len sz =
     Errorf (''sparse extent out of range (off='' @ show_int off @ '' len='' @ show_int len @
       '' size='' @ show_int sz @ '')'')"

lemma read_full_shorter:
  "read_full n st = Inr (bs, st') \<Longrightarrow> length (fst st) = n + length (fst st')"
  by (auto simp: read_full_def split: prod.splits if_splits)

lemma read_int64_shorter: "read_int64 st = Inr (v, st') \<Longrightarrow> length (fst st) = 8 + length (fst st')"
  by (cases "read_full 8 st") (auto simp: read_int64_def dest: read_full_shorter)

lemma copy_n_shorter: "copy_n n st = (bs, Inr st') \<Longrightarrow> length (fst st) = n + length (fst st')"
  by (auto simp: copy_n_def split: prod.splits if_splits)

text \<open>The extents of a decoded stream, written to the file until the end marker or an error.\<close>

function read_extents :: "int \<Rightarrow> stream \<Rightarrow> sfile \<Rightarrow> go_error option \<times> sfile" where
  "read_extents sz st f =
     (case read_int64 st of
        Inl e \<Rightarrow> (Some (Wrap ''reading extent offset: '' e ''''), f)
      | Inr (off, st1) \<Rightarrow>
          if off = sparseEndOffset then (None, f)
          else case read_int64 st1 of
            Inl e \<Rightarrow> (Some (Wrap ''reading extent length: '' e ''''), f)
          | Inr (len, st2) \<Rightarrow>
              if off < 0 \<or> len < 0 \<or> off > sz \<or> len > sz - off
              then (Some (extent_error off len sz), f)
              else case copy_n (nat len) st2 of
                (bs, Inl e) \<Rightarrow>
                  (Some (Wrap (''writing extent @'' @ show_int off @ ''+'' @ show_int len @ '': '') e ''''),
                   write_at (nat off) bs f)
              | (bs, Inr st3) \<Rightarrow> read_extents sz st3 (write_at (nat off) bs f))"
  by pat_completeness auto

termination
  by (relation "measure (\<lambda>(sz, st, f). length (fst st))")
    (auto dest!: read_int64_shorter copy_n_shorter [OF sym])

declare read_extents.simps [simp del]

text \<open>After the magic: the result, and the file as it is left.\<close>

definition readSparseZstd :: "(stream \<Rightarrow> stream result) \<Rightarrow> sfile \<Rightarrow> stream \<Rightarrow> int result \<times> sfile" where
  "readSparseZstd zd f st =
     (case read_full 4 st of
        Inl e \<Rightarrow> (Inl (Wrap ''reading sparse format version: '' e ''''), f)
      | Inr (v, st1) \<Rightarrow>
          let ver = le_uint v in
          if ver \<noteq> sparseVersion
          then (Inl (Errorf (''unsupported sparse snapshot format version '' @ show_int ver @
                  '' (want '' @ show_int sparseVersion @ '')'')), f)
          else case zd st1 of
            Inl e \<Rightarrow> (Inl e, f)
          | Inr zr \<Rightarrow>
              (case read_int64 zr of
                 Inl e \<Rightarrow> (Inl (Wrap ''reading totalSize: '' e ''''), f)
               | Inr (sz, zr) \<Rightarrow>
                   if sz < 0 then (Inl (Errorf (''negative totalSize '' @ show_int sz)), f)
                   else case read_extents sz zr (truncate_file (nat sz) f) of
                     (Some e, f) \<Rightarrow> (Inl e, f)
                   | (None, f) \<Rightarrow> (Inr sz, f)))"

section \<open>Plain streams\<close>

text \<open>Eight bytes at a time, then the rest.\<close>

fun allZero :: "bytes \<Rightarrow> bool" where
  "allZero bs =
     (if 8 \<le> length bs then le_uint (take 8 bs) = 0 \<and> allZero (drop 8 bs)
      else list_all (\<lambda>b. b = 0) bs)"

declare allZero.simps [simp del]

definition copy_block :: nat where "copy_block = 65536"

function copy_blocks :: "stream \<Rightarrow> nat \<Rightarrow> nat \<Rightarrow> sfile \<Rightarrow> (nat \<times> nat) result \<times> sfile" where
  "copy_blocks (bs, e) pos written f =
     (let chunk = take copy_block bs;
          (f, written) = (if chunk \<noteq> [] \<and> \<not> allZero chunk
                          then (write_at pos chunk f, written + length chunk) else (f, written));
          pos = pos + length chunk
      in if copy_block \<le> length bs then copy_blocks (drop copy_block bs, e) pos written f
         else case e of
           Some err \<Rightarrow> (Inl err, f)
         | None \<Rightarrow> (Inr (pos, written), truncate_file pos f))"
  by pat_completeness auto

termination
  by (relation "measure (\<lambda>(st, pos, written, f). length (fst st))") (auto simp: copy_block_def)

declare copy_blocks.simps [simp del]

definition copyZstdSparse :: "sfile \<Rightarrow> stream \<Rightarrow> (nat \<times> nat) result \<times> sfile" where
  "copyZstdSparse f st = copy_blocks st 0 0 (truncate_file 0 f)"

definition plainZstd :: "(bytes \<Rightarrow> bytes result) \<Rightarrow> stream \<Rightarrow> (bytes \<times> nat) result" where
  "plainZstd ze st =
     (case st of
        (bs, Some e) \<Rightarrow> Inl e
      | (bs, None) \<Rightarrow> map_sum (\<lambda>e. e) (\<lambda>z. (z, length bs)) (ze bs))"

section \<open>Writing and reading objects\<close>

datatype content = FileContent sfile | ReaderContent stream

record write_result =
  wrLogicalBytes :: nat
  wrPopulatedBytes :: nat
  wrSparse :: bool

definition writeContent :: "(bytes \<Rightarrow> bytes result) \<Rightarrow> content \<Rightarrow> (bytes \<times> write_result) result" where
  "writeContent ze c =
     (case c of
        FileContent f \<Rightarrow>
          (case writeSparseZstd ze f of
             Inl e \<Rightarrow> Inl e
           | Inr (out, logical, populated) \<Rightarrow>
               Inr (out, \<lparr>wrLogicalBytes = logical, wrPopulatedBytes = populated, wrSparse = True\<rparr>))
      | ReaderContent st \<Rightarrow>
          (case plainZstd ze st of
             Inl e \<Rightarrow> Inl e
           | Inr (out, logical) \<Rightarrow>
               Inr (out, \<lparr>wrLogicalBytes = logical, wrPopulatedBytes = logical, wrSparse = False\<rparr>)))"

text \<open>Where a decoded object goes: a file, or a writer of the named dynamic type.\<close>

datatype destination = OutFile sfile | OutWriter string bytes

record decode_result =
  drLogicalBytes :: int
  drWrittenBytes :: nat
  drSparse :: bool

definition decode_plain ::
    "(stream \<Rightarrow> stream result) \<Rightarrow> destination \<Rightarrow> stream \<Rightarrow> decode_result result \<times> destination" where
  "decode_plain zd out st =
     (case zd st of
        Inl e \<Rightarrow> (Inl (Wrap ''zstd.NewReader: '' e ''''), out)
      | Inr zrc \<Rightarrow>
          (case out of
             OutFile f \<Rightarrow>
               (case copyZstdSparse f zrc of
                  (Inl e, f) \<Rightarrow> (Inl (Wrap ''sparse decompress: '' e ''''), OutFile f)
                | (Inr (sz, written), f) \<Rightarrow>
                    (Inr \<lparr>drLogicalBytes = int sz, drWrittenBytes = written, drSparse = False\<rparr>, OutFile f))
           | OutWriter ty w \<Rightarrow>
               (case zrc of
                  (bs, Some e) \<Rightarrow> (Inl (Wrap ''io.Copy: '' e ''''), OutWriter ty (w @ bs))
                | (bs, None) \<Rightarrow>
                    (Inr \<lparr>drLogicalBytes = int (length bs), drWrittenBytes = 0, drSparse = False\<rparr>,
                     OutWriter ty (w @ bs)))))"

definition decodeContent ::
    "(stream \<Rightarrow> stream result) \<Rightarrow> destination \<Rightarrow> stream \<Rightarrow> decode_result result \<times> destination" where
  "decodeContent zd out st =
     (case read_full (length sparseMagic) st of
        Inr (magic, rest) \<Rightarrow>
          if magic = sparseMagic then
            (case out of
               OutWriter ty w \<Rightarrow>
                 (Inl (Errorf (''sparse-extent snapshot requires a file destination, got '' @ ty)), out)
             | OutFile f \<Rightarrow>
                 (case readSparseZstd zd f rest of
                    (Inl e, f) \<Rightarrow> (Inl (Wrap ''sparse-extent decode: '' e ''''), OutFile f)
                  | (Inr sz, f) \<Rightarrow>
                      (Inr \<lparr>drLogicalBytes = sz, drWrittenBytes = 0, drSparse = True\<rparr>, OutFile f)))
          else decode_plain zd out st
      | Inl e \<Rightarrow>
          if e \<noteq> io_EOF \<and> e \<noteq> io_ErrUnexpectedEOF
          then (Inl (Wrap ''reading object header: '' e ''''), out)
          else decode_plain zd out st)"

section \<open>Integers on the wire\<close>

lemma length_le_bytes [simp]: "length (le_bytes n v) = n"
  by (induction n arbitrary: v) simp_all

lemma le_uint_range: "0 \<le> le_uint bs" "le_uint bs < 256 ^ length bs"
proof (induction bs)
  case (Cons b bs)
  have "uint b < 256" using uint_lt2p [of b] by simp
  moreover have "0 \<le> uint b" by simp
  ultimately show "0 \<le> le_uint (b # bs)" "le_uint (b # bs) < 256 ^ length (b # bs)"
    using Cons.IH by simp_all
qed simp_all

lemma le_uint_le_bytes: "le_uint (le_bytes n v) = v mod 256 ^ n"
proof (induction n arbitrary: v)
  case (Suc n)
  have "uint (word_of_int v :: byte) = v mod 256" by (simp add: unsigned_of_int take_bit_eq_mod)
  then have "le_uint (le_bytes (Suc n) v) = v mod 256 + 256 * (v div 256 mod 256 ^ n)"
    by (simp add: Suc.IH)
  also have "\<dots> = v mod (256 * 256 ^ n)" by (simp add: zmod_zmult2_eq)
  finally show ?case by simp
qed simp

lemma wrap64_mod: "wrap64 (v mod 18446744073709551616) = wrap64 v"
proof -
  have "wrap64 (take_bit 64 v) = wrap64 v" by (simp add: wrap64_def signed_take_bit_take_bit)
  then show ?thesis by (simp add: take_bit_eq_mod)
qed

lemma read_full_append [simp]: "length xs = n \<Longrightarrow> read_full n (xs @ bs, e) = Inr (xs, (bs, e))"
  by (auto simp: read_full_def)

lemma copy_n_append [simp]: "length xs = n \<Longrightarrow> copy_n n (xs @ bs, e) = (xs, Inr (bs, e))"
  by (auto simp: copy_n_def)

lemma read_int64_le64 [simp]: "in_int64 v \<Longrightarrow> read_int64 (le64 v @ bs, e) = Inr (v, (bs, e))"
  by (simp add: read_int64_def le_uint_le_bytes wrap64_mod)

section \<open>Extents\<close>

lemma length_contents [simp]: "length (contents f) = length f"
  by (simp add: contents_def)

lemma contents_append: "contents (f @ g) = contents f @ contents g"
  by (simp add: contents_def)

lemma contents_Some [simp]: "contents (map Some bs) = bs"
  by (simp add: contents_def comp_def)

lemma contents_holes [simp]: "contents (replicate n None) = replicate n 0"
  by (simp add: contents_def)

lemma Some_contents: "None \<notin> set xs \<Longrightarrow> map Some (contents xs) = xs"
  by (induction xs) (auto simp: contents_def neq_commute split: option.splits)

text \<open>What \<open>SEEK_DATA\<close> and \<open>SEEK_HOLE\<close> delimit.\<close>

lemma seek_data_None:
  assumes "seek_data f off = None" "off \<le> length f"
  shows "drop off f = replicate (length f - off) None"
proof -
  have "length (takeWhile (\<lambda>c. c = None) (drop off f)) = length (drop off f)"
    using assms length_takeWhile_le [of "\<lambda>c. c = None" "drop off f"]
    by (auto simp: seek_data_def Let_def split: if_splits)
  then have "takeWhile (\<lambda>c. c = None) (drop off f) = drop off f"
    by (metis takeWhile_eq_take take_all order_refl)
  then have "\<forall>c\<in>set (drop off f). c = None" by (metis set_takeWhileD)
  then show ?thesis by (metis length_drop replicate_length_same)
qed

lemma seek_data_Some:
  assumes "seek_data f off = Some ds"
  shows "take (ds - off) (drop off f) = replicate (ds - off) None"
proof -
  have ds: "ds - off = length (takeWhile (\<lambda>c. c = None) (drop off f))"
    using assms by (auto simp: seek_data_def Let_def split: if_splits)
  have "\<forall>c\<in>set (take (ds - off) (drop off f)). c = None"
    unfolding ds takeWhile_eq_take [symmetric] by (blast dest: set_takeWhileD)
  moreover have "length (take (ds - off) (drop off f)) = ds - off"
    using seek_data_range [OF assms] by auto
  ultimately show ?thesis by (metis replicate_length_same)
qed

lemma seek_hole_data: "None \<notin> set (take (seek_hole f ds - ds) (drop ds f))"
  unfolding seek_hole_def by (auto simp: takeWhile_eq_take [symmetric] dest: set_takeWhileD)

lemma seek_hole_le: "ds \<le> length f \<Longrightarrow> seek_hole f ds \<le> length f"
  using length_takeWhile_le [of "\<lambda>c. c \<noteq> None" "drop ds f"] by (simp add: seek_hole_def)

text \<open>A file of which the cells before \<open>off\<close> have been restored.\<close>

definition restored_to :: "nat \<Rightarrow> sfile \<Rightarrow> sfile \<Rightarrow> bool" where
  "restored_to off f g \<longleftrightarrow> g = take off f @ replicate (length f - off) None"

lemma restored_extent:
  assumes "restored_to off f g" "seek_data f off = Some ds"
  shows "restored_to (seek_hole f ds) f
    (write_at ds (contents (take (seek_hole f ds - ds) (drop ds f))) g)"
proof -
  define de where "de = seek_hole f ds"
  define xs where "xs = take (de - ds) (drop ds f)"
  note r = seek_data_range [OF assms(2)]
  have de: "ds < de" "de \<le> length f" using seek_hole_after seek_hole_le r by (auto simp: de_def)
  have xs: "map Some (contents xs) = xs" "length xs = de - ds" "xs \<noteq> []"
    using seek_hole_data [of f ds] de by (auto simp: Some_contents xs_def de_def)
  have "take ds g = take off f @ replicate (ds - off) None"
    using assms(1) r by (auto simp: restored_to_def min_absorb1 min_absorb2)
  also have "\<dots> = take off f @ take (ds - off) (drop off f)" using seek_data_Some [OF assms(2)] by simp
  also have "\<dots> = take ds f" using r by (metis le_add_diff_inverse take_add)
  finally have g: "take ds g = take ds f" .
  have "length g = length f" "drop de g = replicate (length f - de) None"
    using assms(1) de r by (simp_all add: restored_to_def)
  then have "write_at ds (contents xs) g = take ds f @ xs @ replicate (length f - de) None"
    using g xs de by (simp add: write_at_def contents_def)
  also have "\<dots> = take de f @ replicate (length f - de) None"
    using de unfolding xs_def by (metis append_assoc le_add_diff_inverse less_imp_le take_add)
  finally show ?thesis by (simp add: restored_to_def xs_def de_def)
qed

lemma read_written_extents:
  assumes "restored_to off f g" "off \<le> length f" "in_int64 (int (length f))"
  shows "read_extents (int (length f)) (fst (write_extents f off) @ le64 sparseEndOffset @ rest, e) g = (None, f)"
  using assms
proof (induction f off arbitrary: g rule: write_extents.induct)
  case (1 f off)
  have fin: "read_extents (int (length f)) (le64 sparseEndOffset @ rest, e) h = (None, h)" for h
  proof -
    have "in_int64 sparseEndOffset" by (simp add: sparseEndOffset_def in_int64_def min_int64_def max_int64_def)
    then show ?thesis by (simp add: read_extents.simps)
  qed
  show ?case
  proof (cases "off < length f \<and> seek_data f off \<noteq> None")
    case False
    then have "drop off f = replicate (length f - off) None"
      using seek_data_None 1(3) by (metis (no_types) drop_eq_Nil diff_is_0_eq' le_neq_implies_less le_refl replicate_0)
    then have "g = f" using 1(2) unfolding restored_to_def by (metis append_take_drop_id)
    moreover have "fst (write_extents f off) = []"
      using False by (auto simp: write_extents.simps [of f off])
    ultimately show ?thesis using fin by simp
  next
    case True
    then obtain ds where ds: "seek_data f off = Some ds" by blast
    define de where "de = seek_hole f ds"
    define xs where "xs = contents (take (de - ds) (drop ds f))"
    note r = seek_data_range [OF ds]
    have de: "ds < de" "de \<le> length f" using seek_hole_after seek_hole_le r by (auto simp: de_def)
    have i: "in_int64 (int ds)" "in_int64 (int (de - ds))"
      using 1(4) de by (auto simp: in_int64_def min_int64_def max_int64_def)
    have w: "fst (write_extents f off) = le64 (int ds) @ le64 (int (de - ds)) @ xs @ fst (write_extents f de)"
      using True ds by (simp add: write_extents.simps [of f off] Let_def de_def xs_def split: prod.split)
    have len: "length xs = de - ds" using de by (simp add: xs_def)
    have ne: "int ds \<noteq> sparseEndOffset" by (simp add: sparseEndOffset_def)
    have "read_extents (int (length f)) (fst (write_extents f off) @ le64 sparseEndOffset @ rest, e) g
        = read_extents (int (length f)) (fst (write_extents f de) @ le64 sparseEndOffset @ rest, e) (write_at ds xs g)"
      by (subst read_extents.simps) (use i ne len de in \<open>simp add: w\<close>)
    also have "\<dots> = (None, f)"
      using 1(1) [OF _ ds de_def refl] True restored_extent [OF 1(2) ds] de 1(4)
      by (simp add: de_def xs_def)
    finally show ?thesis .
  qed
qed

text \<open>The populated bytes that the writer reports.\<close>

lemma written_populated:
  "off \<le> length f \<Longrightarrow> snd (write_extents f off) = length (filter (\<lambda>c. c \<noteq> None) (drop off f))"
proof (induction f off rule: write_extents.induct)
  case (1 f off)
  show ?case
  proof (cases "off < length f \<and> seek_data f off \<noteq> None")
    case False
    then have d: "drop off f = replicate (length f - off) None"
      using seek_data_None 1(2) by (metis (no_types) drop_eq_Nil diff_is_0_eq' le_neq_implies_less le_refl replicate_0)
    have "snd (write_extents f off) = 0" using False by (auto simp: write_extents.simps [of f off])
    then show ?thesis unfolding d by simp
  next
    case True
    then obtain ds where ds: "seek_data f off = Some ds" by blast
    define de where "de = seek_hole f ds"
    note r = seek_data_range [OF ds]
    have de: "ds < de" "de \<le> length f" using seek_hole_after seek_hole_le r by (auto simp: de_def)
    have "drop off f = take (ds - off) (drop off f) @ take (de - ds) (drop ds f) @ drop de f"
      using r de by (metis append_take_drop_id drop_drop le_add_diff_inverse2 less_imp_le)
    moreover have "filter (\<lambda>c. c \<noteq> None) (take (ds - off) (drop off f)) = []"
      unfolding seek_data_Some [OF ds] by simp
    moreover have "filter (\<lambda>c. c \<noteq> None) (take (de - ds) (drop ds f)) = take (de - ds) (drop ds f)"
      using seek_hole_data [of f ds] unfolding de_def by (intro filter_True) metis
    ultimately have "length (filter (\<lambda>c. c \<noteq> None) (drop off f))
        = de - ds + length (filter (\<lambda>c. c \<noteq> None) (drop de f))"
      using de by (smt (verit) append_Nil filter_append length_append length_drop length_take min_absorb2 diff_le_mono)
    then show ?thesis
      using 1(1) [OF _ ds de_def refl] True de ds
      by (auto simp: write_extents.simps [of f off] Let_def de_def split: prod.split)
  qed
qed

section \<open>Damaged objects\<close>

lemma length_write_at: "off + length bs \<le> length f \<Longrightarrow> length (write_at off bs f) = length f"
  by (simp add: write_at_def)

lemma length_truncate_file [simp]: "length (truncate_file n f) = n"
  by (simp add: truncate_file_def)

text \<open>Nothing is ever written past the announced length.\<close>

lemma read_extents_length:
  "length f = nat sz \<Longrightarrow> read_extents sz st f = (r, f') \<Longrightarrow> length f' = nat sz"
proof (induction sz st f rule: read_extents.induct)
  case (1 sz st f)
  show ?case
  proof (cases "\<exists>off st1 len st2. read_int64 st = Inr (off, st1) \<and> off \<noteq> sparseEndOffset
      \<and> read_int64 st1 = Inr (len, st2) \<and> \<not> (off < 0 \<or> len < 0 \<or> off > sz \<or> len > sz - off)")
    case False
    then have "f' = f"
      using 1(3) by (subst (asm) read_extents.simps) (auto split: sum.splits if_splits)
    then show ?thesis using 1(2) by simp
  next
    case True
    then obtain off st1 len st2 where h: "read_int64 st = Inr (off, st1)" "off \<noteq> sparseEndOffset"
      "read_int64 st1 = Inr (len, st2)" "\<not> (off < 0 \<or> len < 0 \<or> off > sz \<or> len > sz - off)" by blast
    obtain bs q where c: "copy_n (nat len) st2 = (bs, q)" by (cases "copy_n (nat len) st2")
    have "length bs \<le> nat len" using c by (auto simp: copy_n_def split: prod.splits if_splits)
    then have w: "length (write_at (nat off) bs f) = nat sz"
      using h(4) 1(2) by (subst length_write_at) auto
    show ?thesis
    proof (cases q)
      case (Inl e)
      then have "f' = write_at (nat off) bs f"
        using 1(3) h c by (subst (asm) read_extents.simps) simp
      then show ?thesis using w by simp
    next
      case (Inr st3)
      have "read_extents sz st3 (write_at (nat off) bs f) = (r, f')"
        using 1(3) h c Inr by (subst (asm) read_extents.simps) simp
      from 1(1) [OF h(1) refl h(2,3) refl h(4) c [symmetric] Inr w this] show ?thesis .
    qed
  qed
qed

text \<open>The end of the decoded stream is never looked at.\<close>

lemma read_full_extend:
  "read_full n (bs, e) = Inr (xs, (ys, e)) \<Longrightarrow> read_full n (bs @ junk, e') = Inr (xs, (ys @ junk, e'))"
  by (auto simp: read_full_def split: if_splits)

lemma read_int64_extend:
  "read_int64 (bs, e) = Inr (v, st) \<Longrightarrow> \<exists>ys. st = (ys, e) \<and> read_int64 (bs @ junk, e') = Inr (v, (ys @ junk, e'))"
  by (auto simp: read_int64_def read_full_def split: if_splits)

lemma copy_n_extend:
  "copy_n n (bs, e) = (xs, Inr st) \<Longrightarrow> \<exists>ys. st = (ys, e) \<and> copy_n n (bs @ junk, e') = (xs, Inr (ys @ junk, e'))"
  by (auto simp: copy_n_def split: if_splits)

lemma read_extents_extend:
  "read_extents sz (bs, e) f = (None, f') \<Longrightarrow> read_extents sz (bs @ junk, e') f = (None, f')"
proof (induction sz "(bs, e)" f arbitrary: bs rule: read_extents.induct)
  case (1 sz f bs)
  from 1(2) obtain off st1 where o: "read_int64 (bs, e) = Inr (off, st1)"
    by (subst (asm) read_extents.simps) (auto split: sum.splits)
  obtain b1 where b1: "st1 = (b1, e)" "read_int64 (bs @ junk, e') = Inr (off, (b1 @ junk, e'))"
    using read_int64_extend [OF o] by blast
  show ?case
  proof (cases "off = sparseEndOffset")
    case True
    then show ?thesis using 1(2) o b1 by (simp add: read_extents.simps)
  next
    case False
    from 1(2) False o obtain len st2 where l: "read_int64 st1 = Inr (len, st2)"
      by (subst (asm) read_extents.simps) (auto split: sum.splits)
    obtain b2 where b2: "st2 = (b2, e)" "read_int64 (b1 @ junk, e') = Inr (len, (b2 @ junk, e'))"
      using read_int64_extend l b1(1) by blast
    have g: "\<not> (off < 0 \<or> len < 0 \<or> off > sz \<or> len > sz - off)"
      using 1(2) False o l by (subst (asm) read_extents.simps) (auto split: if_splits)
    from 1(2) False o l g obtain xs st3 where c: "copy_n (nat len) st2 = (xs, Inr st3)"
      by (subst (asm) read_extents.simps) (auto split: sum.splits prod.splits)
    obtain b3 where b3: "st3 = (b3, e)" "copy_n (nat len) (b2 @ junk, e') = (xs, Inr (b3 @ junk, e'))"
      using copy_n_extend c b2(1) by blast
    have "read_extents sz (b3, e) (write_at (nat off) xs f) = (None, f')"
      using 1(2) o False l g c b3 by (subst (asm) read_extents.simps) simp
    then have "read_extents sz (b3 @ junk, e') (write_at (nat off) xs f) = (None, f')"
      using 1(1) [OF o refl False l refl g c [symmetric], of b3] b3(1) by simp
    then show ?thesis using b1 b2 b3 False g by (subst read_extents.simps) simp
  qed
qed

section \<open>Blocks\<close>

lemma le_uint_zero: "le_uint bs = 0 \<longleftrightarrow> list_all (\<lambda>b. b = 0) bs"
proof (induction bs)
  case (Cons b bs)
  have "le_uint (b # bs) = 0 \<longleftrightarrow> uint b = 0 \<and> le_uint bs = 0"
    using le_uint_range(1) [of bs] add_nonneg_eq_0_iff [of "uint b" "256 * le_uint bs"] by simp
  then show ?case using Cons.IH by (simp add: uint_0_iff)
qed simp

text \<open>Reading eight bytes at a time decides what it is meant to.\<close>

lemma allZero_iff: "allZero bs \<longleftrightarrow> list_all (\<lambda>b. b = 0) bs"
proof (induction bs rule: allZero.induct)
  case (1 bs)
  have split: "list_all (\<lambda>b. b = 0) bs \<longleftrightarrow>
      list_all (\<lambda>b. b = 0) (take 8 bs) \<and> list_all (\<lambda>b. b = 0) (drop 8 bs)"
    by (metis append_take_drop_id list_all_append)
  show ?case
  proof (cases "8 \<le> length bs")
    case True
    then show ?thesis using 1 unfolding allZero.simps [of bs] split le_uint_zero by auto
  qed (simp add: allZero.simps [of bs])
qed

text \<open>The cells written so far, the missing end of the file read as zeros.\<close>

definition padded :: "nat \<Rightarrow> sfile \<Rightarrow> bytes" where
  "padded pos f = contents f @ replicate (pos - length f) 0"

lemma contents_truncate: "length f \<le> pos \<Longrightarrow> contents (truncate_file pos f) = padded pos f"
  by (simp add: truncate_file_def padded_def contents_append)

lemma write_at_end:
  assumes "length f \<le> pos"
  shows "padded (pos + length bs) (write_at pos bs f) = padded pos f @ bs"
    "length (write_at pos bs f) \<le> pos + length bs"
  using assms by (auto simp: padded_def write_at_def contents_append)

lemma padded_zeros:
  assumes "length f \<le> pos" "list_all (\<lambda>b. b = 0) bs"
  shows "padded (pos + length bs) f = padded pos f @ bs"
proof -
  have bs: "replicate (length bs) 0 = bs"
    using assms(2) replicate_length_same [of bs 0] unfolding list_all_iff by blast
  have pos: "pos + length bs - length f = (pos - length f) + length bs" using assms(1) by simp
  show ?thesis unfolding padded_def pos replicate_add bs by (rule append_assoc [symmetric])
qed

lemma copy_blocks_correct:
  assumes "length f \<le> pos" "copy_blocks (bs, e) pos written f = (r, f')"
  shows "case e of
      None \<Rightarrow> (\<exists>n. r = Inr (pos + length bs, n)) \<and> contents f' = padded pos f @ bs
    | Some err \<Rightarrow> r = Inl err \<and> length f' \<le> pos + length bs
        \<and> padded (pos + length bs) f' = padded pos f @ bs"
  using assms
proof (induction "(bs, e)" pos written f arbitrary: bs rule: copy_blocks.induct)
  case (1 bs pos written f)
  define chunk where "chunk = take copy_block bs"
  define w where "w = (chunk \<noteq> [] \<and> \<not> allZero chunk)"
  define g where "g = (if w then write_at pos chunk f else f)"
  define n where "n = (if w then written + length chunk else written)"
  define p where "p = pos + length chunk"
  have eq: "copy_blocks (bs, e) pos written f =
      (if copy_block \<le> length bs then copy_blocks (drop copy_block bs, e) p n g
       else case e of Some err \<Rightarrow> (Inl err, g) | None \<Rightarrow> (Inr (p, n), truncate_file p g))"
    unfolding copy_blocks.simps [of bs] Let_def chunk_def [symmetric] w_def [symmetric]
    by (cases w; cases e) (simp_all add: g_def n_def p_def)
  have g: "length g \<le> p" "padded p g = padded pos f @ chunk"
    using write_at_end [OF 1(2), of chunk] padded_zeros [OF 1(2), of chunk] 1(2)
    by (auto simp: g_def p_def w_def allZero_iff)
  show ?case
  proof (cases "copy_block \<le> length bs")
    case True
    have pd: "(if w then (write_at pos chunk f, written + length chunk) else (f, written)) = (g, n)"
      by (simp add: g_def n_def)
    have "copy_blocks (drop copy_block bs, e) p n g = (r, f')" using 1(3) eq True by simp
    moreover have "chunk @ drop copy_block bs = bs" by (simp add: chunk_def)
    moreover have "p + length (drop copy_block bs) = pos + length bs"
      using True by (simp add: p_def chunk_def)
    moreover note 1(1) [OF chunk_def pd [unfolded w_def, symmetric] _ p_def True g(1)]
    ultimately show ?thesis using g(2) by (auto split: option.splits)
  next
    case False
    then have "chunk = bs" by (simp add: chunk_def)
    then show ?thesis using 1(3) eq False g contents_truncate [OF g(1)]
      by (auto simp: p_def split: option.splits)
  qed
qed

lemma copyZstdSparse_correct:
  assumes "copyZstdSparse f (bs, e) = (r, f')"
  shows "case e of
      None \<Rightarrow> (\<exists>n. r = Inr (length bs, n)) \<and> contents f' = bs
    | Some err \<Rightarrow> r = Inl err \<and> padded (length bs) f' = bs"
  using copy_blocks_correct [of "truncate_file 0 f" 0 bs e 0 r f'] assms
  by (simp add: copyZstdSparse_def truncate_file_def padded_def contents_def split: option.splits)

section \<open>What is used of zstd\<close>

text \<open>
  Decoding gives back what was encoded, and an encoded stream is told from the sparse format by its
  first eight bytes: a zstd frame starts with its own magic number, and nothing is encoded as nothing.
\<close>

definition zstd_codec :: "(bytes \<Rightarrow> bytes result) \<Rightarrow> (stream \<Rightarrow> stream result) \<Rightarrow> bool" where
  "zstd_codec ze zd \<longleftrightarrow>
     (\<forall>bs z. ze bs = Inr z \<longrightarrow> zd (z, None) = Inr (bs, None) \<and> take 8 z \<noteq> sparseMagic)"

text \<open>A concrete pair: the magic number before the bytes as they are.\<close>

definition zstd_magic :: bytes where "zstd_magic = [0x28, 0xB5, 0x2F, 0xFD]"

definition stored_ze :: "bytes \<Rightarrow> bytes result" where
  "stored_ze bs = Inr (zstd_magic @ bs)"

definition stored_zd :: "stream \<Rightarrow> stream result" where
  "stored_zd st =
     (case st of (bs, e) \<Rightarrow>
        if take 4 bs = zstd_magic then Inr (drop 4 bs, e)
        else Inr ([], Some (Errorf ''magic number mismatch'')))"

lemma stored_codec: "zstd_codec stored_ze stored_zd"
  by (simp add: zstd_codec_def stored_ze_def stored_zd_def zstd_magic_def sparseMagic_def)

section \<open>Properties\<close>

lemma length_magic: "length sparseMagic = 8"
  by (simp add: sparseMagic_def)

lemma writeSparse_decodes:
  assumes "zstd_codec ze zd" "in_int64 (int (length f))" "writeSparseZstd ze f = Inr (out, n, d)"
  shows "decodeContent zd (OutFile []) (out, None) =
      (Inr \<lparr>drLogicalBytes = int (length f), drWrittenBytes = 0, drSparse = True\<rparr>, OutFile f)"
    "n = length f" "d = length (filter (\<lambda>c. c \<noteq> None) f)"
proof -
  obtain z where z: "ze (le64 (int (length f)) @ fst (write_extents f 0) @ le64 sparseEndOffset) = Inr z"
    and out: "out = sparseMagic @ le_bytes 4 sparseVersion @ z" "n = length f" "d = snd (write_extents f 0)"
    using assms(3) by (auto simp: writeSparseZstd_def Let_def split: prod.splits sum.splits)
  show "n = length f" by (rule out(2))
  show "d = length (filter (\<lambda>c. c \<noteq> None) f)" using written_populated [of 0 f] out(3) by simp
  have zd: "zd (z, None) = Inr (le64 (int (length f)) @ fst (write_extents f 0) @ le64 sparseEndOffset, None)"
    using assms(1) z by (simp add: zstd_codec_def)
  have ver: "le_uint (le_bytes 4 sparseVersion) = sparseVersion"
    by (simp add: le_uint_le_bytes sparseVersion_def)
  have "restored_to 0 f (truncate_file (length f) [])" by (simp add: restored_to_def truncate_file_def)
  from read_written_extents [OF this _ assms(2), of "[]" None]
  have "read_extents (int (length f)) (fst (write_extents f 0) @ le64 sparseEndOffset, None)
      (truncate_file (length f) []) = (None, f)" by simp
  then have "readSparseZstd zd [] (le_bytes 4 sparseVersion @ z, None) = (Inr (int (length f)), f)"
    using assms(2) by (simp add: readSparseZstd_def zd ver)
  then show "decodeContent zd (OutFile []) (out, None) =
      (Inr \<lparr>drLogicalBytes = int (length f), drWrittenBytes = 0, drSparse = True\<rparr>, OutFile f)"
    by (simp add: decodeContent_def out(1))
qed

text \<open>
  C34: files survive the object store. What \<open>writeContent\<close> writes for a file below 2^63 bytes,
  \<open>decodeContent\<close> reads back into a new file with the same bytes at the same offsets, holes as zeros;
  both report the length of the file, and the writer the number of its bytes that are not in holes.
\<close>

theorem sparse_file_roundtrip:
  assumes "zstd_codec ze zd" and "in_int64 (int (length f))"
    and "writeContent ze (FileContent f) = Inr (obj, res)"
  shows "wrLogicalBytes res = length f \<and> wrPopulatedBytes res = length (filter (\<lambda>c. c \<noteq> None) f)
       \<and> (\<exists>f'. decodeContent zd (OutFile []) (obj, None) =
              (Inr \<lparr>drLogicalBytes = int (length f), drWrittenBytes = 0, drSparse = True\<rparr>, OutFile f')
            \<and> contents f' = contents f)"
  using assms(3) writeSparse_decodes [OF assms(1,2)]
  by (auto simp: writeContent_def split: sum.splits prod.splits)

theorem sparse_file_roundtrip_witness:
  "\<exists>obj f'. writeContent stored_ze (FileContent [None, Some 7, Some 0, None]) =
       Inr (obj, \<lparr>wrLogicalBytes = 4, wrPopulatedBytes = 2, wrSparse = True\<rparr>)
     \<and> decodeContent stored_zd (OutFile []) (obj, None) =
         (Inr \<lparr>drLogicalBytes = 4, drWrittenBytes = 0, drSparse = True\<rparr>, OutFile f')
     \<and> contents f' = [0, 7, 0, 0]"
proof -
  define f :: sfile where "f = [None, Some 7, Some 0, None]"
  have w: "writeContent stored_ze (FileContent f) =
      Inr (sparseMagic @ le_bytes 4 sparseVersion @ zstd_magic @
        le64 4 @ fst (write_extents f 0) @ le64 sparseEndOffset,
        \<lparr>wrLogicalBytes = 4, wrPopulatedBytes = snd (write_extents f 0), wrSparse = True\<rparr>)"
    by (simp add: writeContent_def writeSparseZstd_def stored_ze_def f_def split: prod.split)
  have "in_int64 (int (length f))" by (simp add: f_def in_int64_def min_int64_def max_int64_def)
  from sparse_file_roundtrip [OF stored_codec this w] w show ?thesis
    by (auto simp: f_def contents_def)
qed



text \<open>
  C36: damaged sparse objects stay in their file. Whatever bytes follow the announced length, the file
  ends up with exactly that length; and a decode that succeeds does so for any bytes or error after
  the end marker, since the rest of the stream, with the checksum of the frame, is never read.
\<close>

theorem damaged_sparse_object:
  assumes "in_int64 n" and "0 \<le> n"
    and "zd st = Inr (le64 n @ bs, e)" and "zd st' = Inr (le64 n @ bs @ junk, e')"
    and "readSparseZstd zd f (le_bytes 4 sparseVersion @ fst st, snd st) = (r, f1)"
    and "readSparseZstd zd f (le_bytes 4 sparseVersion @ fst st', snd st') = (r', f1')"
  shows "length f1 = nat n \<and> (\<forall>k. r = Inr k \<longrightarrow> r' = Inr k \<and> k = n \<and> f1' = f1)"
proof -
  have ver: "le_uint (le_bytes 4 sparseVersion) = sparseVersion"
    by (simp add: le_uint_le_bytes sparseVersion_def)
  have run: "readSparseZstd zd f (le_bytes 4 sparseVersion @ fst t, snd t) =
      (case read_extents n (cs, x) (truncate_file (nat n) f) of (Some e, g) \<Rightarrow> (Inl e, g) | (None, g) \<Rightarrow> (Inr n, g))"
    if "zd t = Inr (le64 n @ cs, x)" for t cs x
    using assms(1,2) that by (simp add: readSparseZstd_def ver)
  obtain o1 g where ext: "read_extents n (bs, e) (truncate_file (nat n) f) = (o1, g)"
    by (cases "read_extents n (bs, e) (truncate_file (nat n) f)")
  have "length g = nat n" by (rule read_extents_length [OF _ ext]) simp
  then show ?thesis
    using run [OF assms(3)] run [OF assms(4)] assms(5,6) ext
      read_extents_extend [of n bs e "truncate_file (nat n) f" g junk e']
    by (cases o1) auto
qed

theorem damaged_sparse_object_witness:
  "readSparseZstd stored_zd [] (le_bytes 4 sparseVersion @ zstd_magic @ le64 2 @ le64 sparseEndOffset @ [9],
      Some (Errorf ''checksum mismatch'')) = (Inr 2, [None, None])"
proof -
  have i: "in_int64 2" "(0::int) \<le> 2" by (simp_all add: in_int64_def min_int64_def max_int64_def)
  have zd: "stored_zd (zstd_magic @ le64 2 @ le64 sparseEndOffset, None) = Inr (le64 2 @ le64 sparseEndOffset, None)"
    "stored_zd (zstd_magic @ le64 2 @ le64 sparseEndOffset @ [9], Some (Errorf ''checksum mismatch'')) =
       Inr (le64 2 @ le64 sparseEndOffset @ [9], Some (Errorf ''checksum mismatch''))"
    by (simp_all add: stored_zd_def zstd_magic_def)
  have end_marker: "in_int64 sparseEndOffset" by (simp add: sparseEndOffset_def in_int64_def min_int64_def max_int64_def)
  have "readSparseZstd stored_zd [] (le_bytes 4 sparseVersion @ zstd_magic @ le64 2 @ le64 sparseEndOffset, None)
      = (Inr 2, [None, None])"
    using i read_int64_le64 [OF end_marker, of "[]"] zd(1)
    by (simp add: readSparseZstd_def le_uint_le_bytes sparseVersion_def read_extents.simps
        truncate_file_def numeral_2_eq_2)
  then show ?thesis
    using damaged_sparse_object [OF i zd, where f = "[]"]
    by (cases "readSparseZstd stored_zd [] (le_bytes 4 sparseVersion @ zstd_magic @ le64 2 @ le64 sparseEndOffset @ [9],
      Some (Errorf ''checksum mismatch''))") auto
qed

end
