(* ===== verification/HostDisk.thy ===== *)
theory HostDisk
  imports Paths SparseCodec
begin

text \<open>
  The local file system as the snapshot store uses it: directories, regular files with their cells, and
  other nodes, by the elements of their absolute path. A path is resolved element by element from the
  root (there are no symbolic links, and the working directory is the root). Operations fail as the
  system calls do on the wrong kind of node; lack of space and permissions are not modelled.
\<close>

section \<open>Nodes and paths\<close>

datatype node = DirNode | FileNode sfile | OtherNode

type_synonym disk = "(string list, node) gomap"

definition resolve :: "string \<Rightarrow> string list" where
  "resolve p = rev (fold (clean_step True) (split_slash p) [])"

definition filepath_Dir :: "string \<Rightarrow> string" where
  "filepath_Dir p = filepath_Clean (rev (dropWhile (\<lambda>c. c \<noteq> slash) (rev p)))"

text \<open>The directories on the way to a node, the root and the node excluded.\<close>

definition ancestors :: "string list \<Rightarrow> string list list" where
  "ancestors es = map (\<lambda>i. take i es) [1..<length es]"

definition below :: "string list \<Rightarrow> string list \<Rightarrow> bool" where
  "below d es \<longleftrightarrow> strict_prefix d es"

section \<open>Operations\<close>

definition path_error :: "string \<Rightarrow> string \<Rightarrow> string \<Rightarrow> go_error" where
  "path_error op p msg = Errorf (op @ '' '' @ p @ '': '' @ msg)"

definition dir_or_free :: "disk \<Rightarrow> string list \<Rightarrow> bool" where
  "dir_or_free d es \<longleftrightarrow> (case mget d es of None \<Rightarrow> True | Some nd \<Rightarrow> nd = DirNode)"

definition make_dirs :: "string list list \<Rightarrow> disk \<Rightarrow> disk" where
  "make_dirs ps d = fold (\<lambda>q. mput q DirNode) ps d"

text \<open>\<open>os.MkdirAll\<close>: the directories before the first node that is in the way are created.\<close>

definition os_MkdirAll :: "string \<Rightarrow> disk \<Rightarrow> go_error option \<times> disk" where
  "os_MkdirAll p d =
     (let es = resolve p;
          ps = (if es = [] then [] else ancestors es @ [es]);
          free = takeWhile (dir_or_free d) ps
      in (if free = ps then None else Some (path_error ''mkdir'' p ''not a directory''), make_dirs free d))"

text \<open>\<open>os.Create\<close>, and \<open>os.OpenFile\<close> with \<open>O_CREATE\<close> and \<open>O_TRUNC\<close>.\<close>

definition os_Create :: "string \<Rightarrow> disk \<Rightarrow> go_error option \<times> disk" where
  "os_Create p d =
     (let es = resolve p in
      if \<not> list_all (\<lambda>q. mget d q = Some DirNode) (ancestors es)
      then (Some (path_error ''open'' p ''no such file or directory''), d)
      else if es = [] \<or> mget d es = Some DirNode then (Some (path_error ''open'' p ''is a directory''), d)
      else if mget d es = Some OtherNode then (Some (path_error ''open'' p ''permission denied''), d)
      else (None, mput es (FileNode []) d))"

text \<open>The contents of the file just opened.\<close>

definition put_file :: "string \<Rightarrow> sfile \<Rightarrow> disk \<Rightarrow> disk" where
  "put_file p f d = mput (resolve p) (FileNode f) d"

definition os_Open :: "string \<Rightarrow> disk \<Rightarrow> sfile result" where
  "os_Open p d =
     (case mget d (resolve p) of
        Some (FileNode f) \<Rightarrow> Inr f
      | Some DirNode \<Rightarrow> Inl (path_error ''read'' p ''is a directory'')
      | Some OtherNode \<Rightarrow> Inl (path_error ''open'' p ''permission denied'')
      | None \<Rightarrow> Inl (path_error ''open'' p ''no such file or directory''))"

definition os_RemoveAll :: "string \<Rightarrow> disk \<Rightarrow> disk" where
  "os_RemoveAll p d = filter (\<lambda>(q, _). \<not> prefix (resolve p) q) d"

definition os_Remove :: "string \<Rightarrow> disk \<Rightarrow> go_error option \<times> disk" where
  "os_Remove p d =
     (let es = resolve p in
      case mget d es of
        None \<Rightarrow> (Some (path_error ''remove'' p ''no such file or directory''), d)
      | Some nd \<Rightarrow>
          if nd = DirNode \<and> list_ex (\<lambda>(q, _). below es q) d
          then (Some (path_error ''remove'' p ''directory not empty''), d)
          else (None, mdel es d))"

text \<open>\<open>filepath.Walk\<close>: the regular files below a node with their relative names, in its order.\<close>

definition walk_files :: "string list \<Rightarrow> disk \<Rightarrow> string list" where
  "walk_files es d =
     map join_slash (sort (map (\<lambda>(q, _). drop (length es) q)
       (filter (\<lambda>(q, nd). below es q \<and> (case nd of FileNode _ \<Rightarrow> True | _ \<Rightarrow> False)) d)))"

section \<open>Well-formed disks\<close>

definition disk_ok :: "disk \<Rightarrow> bool" where
  "disk_ok d \<longleftrightarrow> gomap_ok d
     \<and> list_all (\<lambda>(q, _). q \<noteq> [] \<and> list_all plain_name q
                  \<and> list_all (\<lambda>a. mget d a = Some DirNode) (ancestors q)) d"

lemma disk_okD:
  assumes "disk_ok d" "mget d q = Some nd"
  shows "q \<noteq> []" "list_all plain_name q" "\<forall>a\<in>set (ancestors q). mget d a = Some DirNode"
  using assms by (auto simp: disk_ok_def list_all_iff dest!: map_of_SomeD)

lemma disk_okI:
  assumes "gomap_ok d"
    and "\<And>q nd. mget d q = Some nd \<Longrightarrow> q \<noteq> [] \<and> list_all plain_name q
      \<and> (\<forall>a\<in>set (ancestors q). mget d a = Some DirNode)"
  shows "disk_ok d"
  using assms by (force simp: disk_ok_def list_all_iff mget_mem)

lemma ancestors_iff: "a \<in> set (ancestors es) \<longleftrightarrow> strict_prefix a es \<and> a \<noteq> []"
proof
  assume "a \<in> set (ancestors es)"
  then obtain i where i: "1 \<le> i" "i < length es" "a = take i es" by (auto simp: ancestors_def)
  then have "prefix a es" "length a < length es" "a \<noteq> []" by (auto simp: take_is_prefix)
  then show "strict_prefix a es \<and> a \<noteq> []" by (auto simp: strict_prefix_def)
next
  assume a: "strict_prefix a es \<and> a \<noteq> []"
  then have "a = take (length a) es" "length a < length es" "1 \<le> length a"
    by (auto simp: strict_prefix_def prefix_def Suc_leI)
  then show "a \<in> set (ancestors es)" unfolding ancestors_def by (auto simp: image_iff)
qed

lemma ancestors_ancestor: "a \<in> set (ancestors b) \<Longrightarrow> b \<in> set (ancestors c) \<Longrightarrow> a \<in> set (ancestors c)"
  unfolding ancestors_iff by (meson prefix_order.less_trans)

lemma mget_make_dirs: "mget (make_dirs ps d) q = (if q \<in> set ps then Some DirNode else mget d q)"
  by (induction ps arbitrary: d) (auto simp: make_dirs_def)

lemma gomap_ok_make_dirs [simp]: "gomap_ok d \<Longrightarrow> gomap_ok (make_dirs ps d)"
  by (induction ps arbitrary: d) (auto simp: make_dirs_def)

lemma resolve_plain: "list_all plain_name (resolve p)"
proof -
  have step: "list_all plain_name st \<Longrightarrow> slash \<notin> set c \<Longrightarrow> list_all plain_name (clean_step True c st)" for c st
    by (cases st) (auto simp: clean_step_def plain_name_def)
  have "list_all plain_name st \<Longrightarrow> \<forall>c\<in>set cs. slash \<notin> set c \<Longrightarrow>
      list_all plain_name (fold (clean_step True) cs st)" for cs st
    by (induction cs arbitrary: st) (auto simp: step)
  from this [of "[]" "split_slash p"] show ?thesis
    by (simp add: resolve_def split_slash_no_slash)
qed

text \<open>The nodes a path is resolved through before itself, in the order they are created.\<close>

lemma set_chain: "es \<noteq> [] \<Longrightarrow> set (ancestors es @ [es]) = {a. prefix a es \<and> a \<noteq> []}"
  by (auto simp: ancestors_iff strict_prefix_def)

lemma take_chain:
  assumes "q \<in> set (takeWhile P (ancestors es @ [es]))" "a \<in> set (ancestors q)"
  shows "a \<in> set (takeWhile P (ancestors es @ [es]))"
proof -
  define ps where "ps = ancestors es @ [es]"
  have ps: "length ps = length es \<or> es = []" "i < length ps \<Longrightarrow> es \<noteq> [] \<Longrightarrow> ps ! i = take (Suc i) es" for i
    by (auto simp: ps_def ancestors_def nth_append)
  obtain j where j: "j < length (takeWhile P ps)" "q = ps ! j"
    using assms(1) by (metis in_set_conv_nth ps_def takeWhile_nth)
  have ne: "es \<noteq> []"
  proof
    assume "es = []"
    then have "q = []" using assms(1) by (auto simp: ancestors_def split: if_splits)
    then show False using assms(2) by (simp add: ancestors_def)
  qed
  have jl: "j < length ps" using j(1) length_takeWhile_le less_le_trans by blast
  have q: "q = take (Suc j) es" using j(2) ps(2) jl ne by simp
  obtain i where i: "1 \<le> i" "i < length q" "a = take i q" using assms(2) by (auto simp: ancestors_def)
  have il: "i - 1 < length (takeWhile P ps)" using i(2) j(1) q by auto
  have "a = take i es" using i q by (auto simp: min_def split: if_splits)
  also have "\<dots> = ps ! (i - 1)" using ps(2) [of "i - 1"] i(1) il jl ne j(1) i(2) q by auto
  also have "\<dots> = takeWhile P ps ! (i - 1)" using il by (simp add: takeWhile_nth)
  finally show ?thesis using il unfolding ps_def by (metis nth_mem)
qed

section \<open>What the operations keep\<close>

lemma disk_ok_make_dirs:
  assumes "disk_ok d" "list_all plain_name es"
  shows "disk_ok (make_dirs (takeWhile (dir_or_free d) (if es = [] then [] else ancestors es @ [es])) d)"
proof (cases "es = []")
  case False
  define free where "free = takeWhile (dir_or_free d) (ancestors es @ [es])"
  have free: "q \<in> set free \<Longrightarrow> prefix q es \<and> q \<noteq> [] \<and> dir_or_free d q" for q
    using set_chain [OF False] unfolding free_def by (blast dest: set_takeWhileD)
  have "disk_ok (make_dirs free d)"
  proof (rule disk_okI)
    show "gomap_ok (make_dirs free d)" using assms(1) by (simp add: disk_ok_def)
    fix q nd assume q: "mget (make_dirs free d) q = Some nd"
    show "q \<noteq> [] \<and> list_all plain_name q \<and> (\<forall>a\<in>set (ancestors q). mget (make_dirs free d) a = Some DirNode)"
    proof (cases "q \<in> set free")
      case True
      then have "prefix q es" "q \<noteq> []" using free by auto
      moreover have "list_all plain_name q"
        using \<open>prefix q es\<close> assms(2) by (auto simp: prefix_def)
      ultimately show ?thesis using True take_chain [of q "dir_or_free d" es]
        by (auto simp: mget_make_dirs free_def)
    next
      case False
      then have "mget d q = Some nd" using q by (simp add: mget_make_dirs)
      from disk_okD [OF assms(1) this] show ?thesis by (simp add: mget_make_dirs)
    qed
  qed
  then show ?thesis using False by (simp add: free_def)
qed (use assms in \<open>simp add: make_dirs_def\<close>)

lemma os_MkdirAll_ok: "disk_ok d \<Longrightarrow> os_MkdirAll p d = (e, d') \<Longrightarrow> disk_ok d'"
  using disk_ok_make_dirs [of d "resolve p"] resolve_plain [of p] by (auto simp: os_MkdirAll_def Let_def)

lemma os_MkdirAll_frame:
  assumes "os_MkdirAll p d = (e, d')"
  shows "mget d' q = Some (FileNode f) \<longleftrightarrow> mget d q = Some (FileNode f)"
    and "mget d q = Some OtherNode \<longleftrightarrow> mget d' q = Some OtherNode"
    and "mget d q = Some DirNode \<Longrightarrow> mget d' q = Some DirNode"
    and "mget d' q \<noteq> mget d q \<Longrightarrow> prefix q (resolve p)"
proof -
  define free where "free = takeWhile (dir_or_free d)
    (if resolve p = [] then [] else ancestors (resolve p) @ [resolve p])"
  have d': "d' = make_dirs free d" using assms by (auto simp: os_MkdirAll_def Let_def free_def)
  have free: "q \<in> set free \<Longrightarrow> dir_or_free d q \<and> prefix q (resolve p)"
    using set_takeWhileD [of q "dir_or_free d" "if resolve p = [] then [] else ancestors (resolve p) @ [resolve p]"]
    by (auto simp: free_def ancestors_iff strict_prefix_def split: if_splits)
  show "mget d' q = Some (FileNode f) \<longleftrightarrow> mget d q = Some (FileNode f)"
    "mget d q = Some OtherNode \<longleftrightarrow> mget d' q = Some OtherNode"
    "mget d q = Some DirNode \<Longrightarrow> mget d' q = Some DirNode"
    "mget d' q \<noteq> mget d q \<Longrightarrow> prefix q (resolve p)"
    using free by (auto simp: d' mget_make_dirs dir_or_free_def split: if_splits option.splits)
qed

lemma os_MkdirAll_made:
  assumes "os_MkdirAll p d = (None, d')"
  shows "prefix q (resolve p) \<Longrightarrow> q \<noteq> [] \<Longrightarrow> mget d' q = Some DirNode"
proof -
  assume q: "prefix q (resolve p)" "q \<noteq> []"
  then have ne: "resolve p \<noteq> []" by auto
  then have "d' = make_dirs (ancestors (resolve p) @ [resolve p]) d"
    using assms by (auto simp: os_MkdirAll_def Let_def split: if_splits)
  then show "mget d' q = Some DirNode" using q set_chain [OF ne] by (simp add: mget_make_dirs)
qed

lemma os_MkdirAll_succeeds:
  assumes "\<And>q. prefix q (resolve p) \<Longrightarrow> q \<noteq> [] \<Longrightarrow> dir_or_free d q"
  shows "\<exists>d'. os_MkdirAll p d = (None, d')"
proof -
  define ps where "ps = (if resolve p = [] then [] else ancestors (resolve p) @ [resolve p])"
  have "\<forall>q\<in>set ps. dir_or_free d q" using assms set_chain [of "resolve p"] by (auto simp: ps_def)
  then have "takeWhile (dir_or_free d) ps = ps" by simp
  then show ?thesis by (auto simp: os_MkdirAll_def Let_def ps_def [symmetric])
qed

lemma put_node_ok:
  assumes "disk_ok d" "es \<noteq> []" "list_all plain_name es" "nd \<noteq> DirNode"
    "\<forall>a\<in>set (ancestors es). mget d a = Some DirNode" "mget d es \<noteq> Some DirNode"
  shows "disk_ok (mput es nd d)"
proof (rule disk_okI)
  show "gomap_ok (mput es nd d)" using assms(1) by (simp add: disk_ok_def)
  fix q nd' assume q: "mget (mput es nd d) q = Some nd'"
  have self: "es \<notin> set (ancestors es)" by (auto simp: ancestors_iff)
  show "q \<noteq> [] \<and> list_all plain_name q \<and> (\<forall>a\<in>set (ancestors q). mget (mput es nd d) a = Some DirNode)"
  proof (cases "q = es")
    case True
    then show ?thesis using assms self by auto
  next
    case False
    then have "mget d q = Some nd'" using q by simp
    from disk_okD [OF assms(1) this] assms(6) show ?thesis by auto
  qed
qed

lemma os_Create_effect:
  assumes "disk_ok d" "os_Create p d = (e, d')"
  shows "disk_ok d'"
    and "e = None \<Longrightarrow> d' = mput (resolve p) (FileNode []) d" and "e \<noteq> None \<Longrightarrow> d' = d"
    and "e = None \<Longrightarrow> disk_ok (put_file p f d')"
    and "e = None \<Longrightarrow> mget d (resolve p) \<noteq> Some DirNode"
  using assms resolve_plain [of p]
  by (auto simp: os_Create_def Let_def put_file_def list_all_iff intro!: put_node_ok split: if_splits)

lemma os_Create_succeeds:
  assumes "\<And>a. a \<in> set (ancestors (resolve p)) \<Longrightarrow> mget d a = Some DirNode"
    and "resolve p \<noteq> []" "mget d (resolve p) = None \<or> (\<exists>f. mget d (resolve p) = Some (FileNode f))"
  shows "os_Create p d = (None, mput (resolve p) (FileNode []) d)"
  using assms by (auto simp: os_Create_def Let_def list_all_iff)

lemma os_RemoveAll_get:
  "gomap_ok d \<Longrightarrow> mget (os_RemoveAll p d) q = (if prefix (resolve p) q then None else mget d q)"
  using mget_filter [of d "\<lambda>q _. \<not> prefix (resolve p) q" q]
  by (auto simp: os_RemoveAll_def split: option.splits)

lemma os_RemoveAll_ok: "disk_ok d \<Longrightarrow> disk_ok (os_RemoveAll p d)"
proof (rule disk_okI)
  assume d: "disk_ok d"
  then have g: "gomap_ok d" by (simp add: disk_ok_def)
  then show "gomap_ok (os_RemoveAll p d)" by (simp add: os_RemoveAll_def)
  fix q nd assume "mget (os_RemoveAll p d) q = Some nd"
  then have q: "mget d q = Some nd" "\<not> prefix (resolve p) q"
    by (auto simp: os_RemoveAll_get [OF g] split: if_splits)
  have "\<not> prefix (resolve p) a" if "a \<in> set (ancestors q)" for a
    using that q(2) by (metis ancestors_iff prefix_order.trans strict_prefix_def)
  then show "q \<noteq> [] \<and> list_all plain_name q
      \<and> (\<forall>a\<in>set (ancestors q). mget (os_RemoveAll p d) a = Some DirNode)"
    using disk_okD [OF d q(1)] by (auto simp: os_RemoveAll_get [OF g])
qed

lemma os_Remove_ok:
  assumes "disk_ok d" "os_Remove p d = (e, d')"
  shows "disk_ok d'" "e = None \<Longrightarrow> mget d' = (mget d)(resolve p := None)" "e \<noteq> None \<Longrightarrow> d' = d"
proof -
  have g: "gomap_ok d" using assms(1) by (simp add: disk_ok_def)
  show "e = None \<Longrightarrow> mget d' = (mget d)(resolve p := None)" "e \<noteq> None \<Longrightarrow> d' = d"
    using assms(2) by (auto simp: os_Remove_def Let_def split: option.splits if_splits)
  show "disk_ok d'"
  proof (cases "e = None")
    case True
    then obtain nd where nd: "mget d (resolve p) = Some nd" "d' = mdel (resolve p) d"
      "nd = DirNode \<longrightarrow> \<not> list_ex (\<lambda>(q, _). below (resolve p) q) d"
      using assms(2) by (auto simp: os_Remove_def Let_def split: option.splits if_splits)
    have no_child: "resolve p \<notin> set (ancestors q)" if "mget d q = Some x" for q x
    proof
      assume a: "resolve p \<in> set (ancestors q)"
      then have "nd = DirNode" using disk_okD(3) [OF assms(1) that] nd(1) by auto
      moreover have "below (resolve p) q" using a by (simp add: below_def ancestors_iff)
      ultimately show False using nd(3) that by (auto simp: list_ex_iff dest: map_of_SomeD)
    qed
    show ?thesis
    proof (rule disk_okI)
      show "gomap_ok d'" using g nd(2) by simp
      fix q x assume q: "mget d' q = Some x"
      then have "mget d q = Some x" using nd(2) by (auto split: if_splits)
      from disk_okD [OF assms(1) this] no_child [OF this] nd(2)
      show "q \<noteq> [] \<and> list_all plain_name q \<and> (\<forall>a\<in>set (ancestors q). mget d' a = Some DirNode)" by auto
    qed
  next
    case False
    then have "d' = d" using assms(2) by (auto simp: os_Remove_def Let_def split: option.splits if_splits)
    then show ?thesis using assms(1) by simp
  qed
qed

section \<open>Joined paths\<close>

lemma fold_plain: "list_all plain_name es \<Longrightarrow> fold (clean_step True) es st = rev es @ st"
  by (induction es arbitrary: st) simp_all

lemma resolve_append: "resolve (p @ slash # q) = rev (fold (clean_step True) (split_slash q) (rev (resolve p)))"
  by (simp add: resolve_def split_slash_append)

lemma split_plain: "list_all plain_name es \<Longrightarrow> es \<noteq> [] \<Longrightarrow> split_slash (join_slash es) = es"
  by (rule split_slash_join) (auto simp: plain_name_def list_all_iff)

lemma resolve_rooted: "list_all plain_name es \<Longrightarrow> resolve (slash # join_slash es) = es"
proof (cases "es = []")
  case False
  assume "list_all plain_name es"
  then show ?thesis using split_plain [OF _ False] fold_plain [of es "[]"]
    by (simp add: resolve_def clean_step_def)
qed (simp add: resolve_def clean_step_def)

lemma Clean_rooted: "p \<noteq> '''' \<Longrightarrow> hd p = slash \<Longrightarrow> filepath_Clean p = slash # join_slash (resolve p)"
  by (simp add: filepath_Clean_def resolve_def Let_def)

lemma resolve_Clean: "p \<noteq> '''' \<Longrightarrow> hd p = slash \<Longrightarrow> resolve (filepath_Clean p) = resolve p"
  by (simp add: Clean_rooted resolve_rooted resolve_plain)

lemma Join_rooted:
  assumes "p \<noteq> ''''" "hd p = slash"
  shows "filepath_Join [p, q] = slash # join_slash (resolve (p @ slash # q))"
    and "resolve (filepath_Join [p, q]) = resolve (p @ slash # q)"
  using assms Clean_rooted [of "p @ slash # q"] resolve_Clean [of "p @ slash # q"] by simp_all

lemma resolve_Join_plain:
  assumes "p \<noteq> ''''" "hd p = slash" "list_all plain_name es" "es \<noteq> []"
  shows "resolve (filepath_Join [p, join_slash es]) = resolve p @ es"
  using Join_rooted(2) [OF assms(1,2)] assms by (simp add: resolve_append split_plain fold_plain)

lemma join_snoc: "es \<noteq> [] \<Longrightarrow> join_slash (es @ [e]) = join_slash es @ slash # e"
  by (induction es rule: join_slash.induct) simp_all

lemma resolve_Dir:
  assumes "list_all plain_name es" "es \<noteq> []"
  shows "resolve (filepath_Dir (slash # join_slash es)) = butlast es"
proof -
  define ds where "ds = butlast es"
  define e where "e = last es"
  have es: "es = ds @ [e]" using assms(2) by (simp add: ds_def e_def)
  have e: "slash \<notin> set e" using assms(1) by (simp add: es plain_name_def)
  define q where "q = (if ds = [] then '''' else slash # join_slash ds)"
  have p: "slash # join_slash es = q @ slash # e" by (auto simp: q_def es join_snoc)
  have "dropWhile (\<lambda>c. c \<noteq> slash) (rev e @ slash # rev q) = slash # rev q"
    using e by (subst dropWhile_append2) auto
  then have "rev (dropWhile (\<lambda>c. c \<noteq> slash) (rev (slash # join_slash es))) = q @ [slash]"
    unfolding p by simp
  moreover have "resolve (q @ [slash]) = ds"
    using assms(1) resolve_append [of q "[]"] resolve_rooted [of ds]
    by (auto simp: q_def es clean_step_def resolve_def)
  moreover have "hd (q @ [slash]) = slash" by (simp add: q_def)
  ultimately show ?thesis using resolve_Clean [of "q @ [slash]"] by (simp add: filepath_Dir_def ds_def)
qed

end
