(* ===== verification/SnapshotStore.thy ===== *)
theory SnapshotStore
  imports HostDisk
begin

text \<open>
  \<open>internal/snapshotstore\<close>: the store of checkpoint objects (\<open>store.go\<close>), its directory-backed
  implementation (\<open>fs.go\<close>), and the upload and download of a checkpoint directory as one object per
  file and a manifest that is written last. The zstd library and \<open>encoding/json\<close> are parameters.
\<close>

section \<open>The store\<close>

record 's snap_api =
  snPut :: "string \<Rightarrow> stream \<Rightarrow> int \<Rightarrow> 's \<Rightarrow> go_error option \<times> 's"
  snGet :: "string \<Rightarrow> 's \<Rightarrow> stream result"
  snDelete :: "string \<Rightarrow> 's \<Rightarrow> go_error option \<times> 's"

text \<open>
  The library: encoder and decoder of zstd, the number of bytes the decoder takes from its source,
  \<open>json.Marshal\<close> and \<open>json.Unmarshal\<close> of the manifest.
\<close>

record snap_lib =
  lbEncode :: "bytes \<Rightarrow> bytes result"
  lbDecode :: "stream \<Rightarrow> stream result"
  lbConsumed :: "stream \<Rightarrow> nat"
  lbMarshal :: "string list \<Rightarrow> bytes"
  lbUnmarshal :: "bytes \<Rightarrow> string list result"

definition manifestName :: string where "manifestName = ''manifest.json''"

definition blob_name :: "string \<Rightarrow> string" where "blob_name name = name @ ''.zstd''"

section \<open>Upload\<close>

definition listRegularFiles :: "string \<Rightarrow> disk \<Rightarrow> string list result" where
  "listRegularFiles rootd d =
     (case resolve rootd of
        [] \<Rightarrow> Inr (filter (\<lambda>rel. rel \<noteq> manifestName) (walk_files [] d))
      | e # es \<Rightarrow>
          (case mget d (e # es) of
             None \<Rightarrow> Inl (path_error ''lstat'' rootd ''no such file or directory'')
           | Some _ \<Rightarrow> Inr (filter (\<lambda>rel. rel \<noteq> manifestName) (walk_files (e # es) d))))"

definition uploadFileZstd ::
    "snap_lib \<Rightarrow> 's snap_api \<Rightarrow> string \<Rightarrow> string \<Rightarrow> disk \<Rightarrow> 's \<Rightarrow> int result \<times> 's" where
  "uploadFileZstd L A key lpath d s =
     (case os_Open lpath d of
        Inl e \<Rightarrow> (Inl e, s)
      | Inr src \<Rightarrow>
          (case writeContent (lbEncode L) (FileContent src) of
             Inl e \<Rightarrow> (Inl e, s)
           | Inr (tmp, _) \<Rightarrow>
               (case snPut A key (tmp, None) (int (length tmp)) s of
                  (Some e, s) \<Rightarrow> (Inl e, s)
                | (None, s) \<Rightarrow> (Inr (int (length tmp)), s))))"

text \<open>The bytes uploaded so far, the error if there is one.\<close>

fun upload_files ::
    "snap_lib \<Rightarrow> 's snap_api \<Rightarrow> string \<Rightarrow> string \<Rightarrow> disk \<Rightarrow> string list \<Rightarrow> int \<Rightarrow> 's \<Rightarrow>
     (int \<times> go_error option) \<times> 's" where
  "upload_files L A localDir prefx d [] tot s = ((tot, None), s)"
| "upload_files L A localDir prefx d (name # names) tot s =
     (case uploadFileZstd L A (objectPath prefx (blob_name name)) (filepath_Join [localDir, name]) d s of
        (Inl e, s) \<Rightarrow> ((tot, Some (Wrap (''upload '' @ name @ '': '') e '''')), s)
      | (Inr n, s) \<Rightarrow> upload_files L A localDir prefx d names (tot + n) s)"

definition UploadDir ::
    "snap_lib \<Rightarrow> 's snap_api \<Rightarrow> string \<Rightarrow> string \<Rightarrow> disk \<Rightarrow> 's \<Rightarrow> (int \<times> go_error option) \<times> 's" where
  "UploadDir L A localDir prefx d s =
     (case listRegularFiles localDir d of
        Inl e \<Rightarrow> ((0, Some e), s)
      | Inr files \<Rightarrow>
          if files = [] then ((0, Some (Errorf (''checkpoint dir '' @ go_quote localDir @ '' has no files''))), s)
          else case upload_files L A localDir prefx d files 0 s of
            ((tot, Some e), s) \<Rightarrow> ((tot, Some e), s)
          | ((tot, None), s) \<Rightarrow>
              let b = lbMarshal L files
              in case snPut A (objectPath prefx manifestName) (b, None) (int (length b)) s of
                   (Some e, s) \<Rightarrow> ((tot, Some e), s)
                 | (None, s) \<Rightarrow> ((tot + int (length b), None), s))"

section \<open>Download\<close>

text \<open>The file is created before the object is asked for, and keeps what was decoded when decoding fails.\<close>

definition downloadFileZstd ::
    "snap_lib \<Rightarrow> 's snap_api \<Rightarrow> string \<Rightarrow> string \<Rightarrow> 's \<Rightarrow> disk \<Rightarrow> (int \<times> go_error option) \<times> disk" where
  "downloadFileZstd L A key lpath s d =
     (case os_MkdirAll (filepath_Dir lpath) d of
        (Some e, d) \<Rightarrow> ((0, Some e), d)
      | (None, d) \<Rightarrow>
          (case os_Create lpath d of
             (Some e, d) \<Rightarrow> ((0, Some e), d)
           | (None, d) \<Rightarrow>
               (case snGet A key s of
                  Inl e \<Rightarrow> ((0, Some e), d)
                | Inr rc \<Rightarrow>
                    (case decodeContent (lbDecode L) (OutFile []) rc of
                       (r, out) \<Rightarrow>
                         ((int (lbConsumed L rc), (case r of Inl e \<Rightarrow> Some e | Inr _ \<Rightarrow> None)),
                          (case out of OutFile f \<Rightarrow> put_file lpath f d | OutWriter _ _ \<Rightarrow> d))))))"

fun download_files ::
    "snap_lib \<Rightarrow> 's snap_api \<Rightarrow> string \<Rightarrow> string \<Rightarrow> 's \<Rightarrow> string list \<Rightarrow> int \<Rightarrow> disk \<Rightarrow>
     (int \<times> go_error option) \<times> disk" where
  "download_files L A prefx localDir s [] tot d = ((tot, None), d)"
| "download_files L A prefx localDir s (name # names) tot d =
     (case downloadFileZstd L A (objectPath prefx (blob_name name)) (filepath_Join [localDir, name]) s d of
        ((n, Some e), d) \<Rightarrow> ((tot, Some (Wrap (''download '' @ name @ '': '') e '''')), d)
      | ((n, None), d) \<Rightarrow> download_files L A prefx localDir s names (tot + n) d)"

definition DownloadDir ::
    "snap_lib \<Rightarrow> 's snap_api \<Rightarrow> string \<Rightarrow> string \<Rightarrow> 's \<Rightarrow> disk \<Rightarrow> (int \<times> go_error option) \<times> disk" where
  "DownloadDir L A prefx localDir s d =
     (case snGet A (objectPath prefx manifestName) s of
        Inl e \<Rightarrow> ((0, Some (Wrap ''manifest: '' e '''')), d)
      | Inr (b, Some e) \<Rightarrow> ((0, Some e), d)
      | Inr (b, None) \<Rightarrow>
          (case lbUnmarshal L b of
             Inl e \<Rightarrow> ((0, Some (Wrap ''manifest json: '' e '''')), d)
           | Inr files \<Rightarrow>
               if files = [] then ((0, Some (Errorf (''empty snapshot manifest under '' @ go_quote prefx))), d)
               else
                 (case os_MkdirAll localDir (os_RemoveAll localDir d) of
                    (Some e, d) \<Rightarrow> ((0, Some e), d)
                  | (None, d) \<Rightarrow> download_files L A prefx localDir s files (int (length b)) d)))"

section \<open>The directory-backed store\<close>

definition NewFS :: "string \<Rightarrow> disk \<Rightarrow> string result \<times> disk" where
  "NewFS rootd d =
     (case os_MkdirAll rootd d of (Some e, d) \<Rightarrow> (Inl e, d) | (None, d) \<Rightarrow> (Inr rootd, d))"

definition FS_Put :: "string \<Rightarrow> string \<Rightarrow> stream \<Rightarrow> int \<Rightarrow> disk \<Rightarrow> go_error option \<times> disk" where
  "FS_Put rootd key r n d =
     (let p = FS_path rootd key in
      case os_MkdirAll (filepath_Dir p) d of
        (Some e, d) \<Rightarrow> (Some e, d)
      | (None, d) \<Rightarrow>
          (case os_Create p d of
             (Some e, d) \<Rightarrow> (Some e, d)
           | (None, d) \<Rightarrow> (snd r, put_file p (map Some (fst r)) d)))"

definition FS_Get :: "string \<Rightarrow> string \<Rightarrow> disk \<Rightarrow> stream result" where
  "FS_Get rootd key d =
     (case os_Open (FS_path rootd key) d of
        Inl e \<Rightarrow> Inl (Wrap (''snapshot '' @ go_quote key @ '': '') e '''')
      | Inr f \<Rightarrow> Inr (contents f, None))"

definition FS_Delete :: "string \<Rightarrow> string \<Rightarrow> disk \<Rightarrow> go_error option \<times> disk" where
  "FS_Delete rootd key d = os_Remove (FS_path rootd key) d"

definition fs_snaps :: "string \<Rightarrow> disk snap_api" where
  "fs_snaps rootd = \<lparr>snPut = FS_Put rootd, snGet = FS_Get rootd, snDelete = FS_Delete rootd\<rparr>"

lemma downloadFile_ok:
  assumes "disk_ok d" "downloadFileZstd L A key p s d = (r, d')"
  shows "disk_ok d'"
proof -
  obtain e1 d1 where m: "os_MkdirAll (filepath_Dir p) d = (e1, d1)" by (cases "os_MkdirAll (filepath_Dir p) d")
  obtain e2 d2 where c: "os_Create p d1 = (e2, d2)" by (cases "os_Create p d1")
  note ok = os_MkdirAll_ok [OF assms(1) m]
  have "d' = d1 \<or> d' = d2 \<or> e2 = None \<and> (\<exists>f. d' = put_file p f d2)"
    using assms(2) m c
    by (auto simp: downloadFileZstd_def split: option.splits sum.splits prod.splits destination.splits)
  then show ?thesis using ok os_Create_effect(1,4) [OF ok c] by blast
qed

lemma download_files_ok:
  "disk_ok d \<Longrightarrow> download_files L A prefx p s names tot d = (r, d') \<Longrightarrow> disk_ok d'"
proof (induction names arbitrary: tot d)
  case (Cons n ns)
  obtain k e d1 where f: "downloadFileZstd L A (objectPath prefx (blob_name n)) (filepath_Join [p, n]) s d = ((k, e), d1)"
    by (metis prod.exhaust)
  have "disk_ok d1" by (rule downloadFile_ok [OF Cons.prems(1) f])
  then show ?case using Cons f by (cases e) auto
qed simp

lemma DownloadDir_ok:
  assumes "disk_ok d" "DownloadDir L A prefx p s d = (r, d')"
  shows "disk_ok d'"
proof -
  obtain e d1 where m: "os_MkdirAll p (os_RemoveAll p d) = (e, d1)" by (cases "os_MkdirAll p (os_RemoveAll p d)")
  have "disk_ok d1" by (rule os_MkdirAll_ok [OF os_RemoveAll_ok [OF assms(1)] m])
  then show ?thesis using assms m
    by (auto simp: DownloadDir_def split: option.splits sum.splits prod.splits if_splits dest: download_files_ok)
qed

section \<open>What upload and download rely on\<close>

text \<open>
  The objects by key: a put that succeeds sets this object, one that fails may only damage this
  object, a delete removes no other, and a get returns the whole object or, if there is none, an error.
\<close>

locale object_store =
  fixes A :: "'s snap_api"
    and ok :: "'s \<Rightarrow> bool"
    and objs :: "'s \<Rightarrow> string \<Rightarrow> bytes option"
    and key_ok :: "string \<Rightarrow> bool"
  assumes put: "ok s \<Longrightarrow> key_ok k \<Longrightarrow> snPut A k (b, None) (int (length b)) s = (e, s') \<Longrightarrow>
      ok s' \<and> (e = None \<longrightarrow> objs s' k = Some b) \<and> (\<forall>k'. key_ok k' \<longrightarrow> k' \<noteq> k \<longrightarrow> objs s' k' = objs s k')"
    and get: "ok s \<Longrightarrow> key_ok k \<Longrightarrow>
      (case objs s k of Some b \<Rightarrow> snGet A k s = Inr (b, None) | None \<Rightarrow> \<exists>e. snGet A k s = Inl e)"
    and delete: "ok s \<Longrightarrow> key_ok k \<Longrightarrow> snDelete A k s = (e, s') \<Longrightarrow>
      ok s' \<and> (e = None \<longrightarrow> objs s' k = None) \<and> (\<forall>k'. key_ok k' \<longrightarrow> k' \<noteq> k \<longrightarrow> objs s' k' = objs s k')"
begin

text \<open>The object of a file, of which the codec makes the file again.\<close>

definition holds_file :: "snap_lib \<Rightarrow> 's \<Rightarrow> string \<Rightarrow> sfile \<Rightarrow> bool" where
  "holds_file L s key f \<longleftrightarrow> (\<exists>z res. objs s key = Some z
     \<and> writeContent (lbEncode L) (FileContent f) = Inr (z, res))"

lemma uploadFile_result:
  assumes "ok s" "key_ok key" "uploadFileZstd L A key lpath d s = (r, s')"
  shows "ok s' \<and> (\<forall>k'. key_ok k' \<longrightarrow> k' \<noteq> key \<longrightarrow> objs s' k' = objs s k')
    \<and> (\<forall>n. r = Inr n \<longrightarrow> (\<exists>f. os_Open lpath d = Inr f \<and> holds_file L s' key f))"
proof (cases "\<exists>f z w. os_Open lpath d = Inr f \<and> writeContent (lbEncode L) (FileContent f) = Inr (z, w)")
  case True
  then obtain f z w where f: "os_Open lpath d = Inr f"
    "writeContent (lbEncode L) (FileContent f) = Inr (z, w)" by blast
  obtain e s1 where p: "snPut A key (z, None) (int (length z)) s = (e, s1)"
    by (cases "snPut A key (z, None) (int (length z)) s")
  have "s' = s1" "\<forall>n. r = Inr n \<longrightarrow> e = None"
    using assms(3) f p by (auto simp: uploadFileZstd_def split: option.splits)
  then show ?thesis using put [OF assms(1,2) p] f by (auto simp: holds_file_def)
next
  case False
  then have "s' = s" "\<forall>n. r \<noteq> Inr n"
    using assms(3) by (auto simp: uploadFileZstd_def split: sum.splits prod.splits)
  then show ?thesis using assms(1) by auto
qed

lemma holds_file_other:
  "holds_file L s k f \<Longrightarrow> objs s' k = objs s k \<Longrightarrow> holds_file L s' k f"
  by (simp add: holds_file_def)

lemma upload_files_result:
  assumes "ok s" "\<And>n. n \<in> set names \<Longrightarrow> key_ok (objectPath prefx (blob_name n))" "distinct names"
    and "upload_files L A localDir prefx d names tot s = ((t, e), s')"
  shows "ok s' \<and> (\<forall>k. key_ok k \<longrightarrow> k \<notin> (\<lambda>n. objectPath prefx (blob_name n)) ` set names \<longrightarrow> objs s' k = objs s k)
    \<and> (e = None \<longrightarrow> (\<forall>n\<in>set names. \<exists>f. os_Open (filepath_Join [localDir, n]) d = Inr f
         \<and> holds_file L s' (objectPath prefx (blob_name n)) f))"
  using assms
proof (induction names arbitrary: tot s)
  case Nil
  then show ?case by simp
next
  case (Cons n ns)
  define key where "key = objectPath prefx (blob_name n)"
  obtain r s1 where up: "uploadFileZstd L A key (filepath_Join [localDir, n]) d s = (r, s1)"
    by (cases "uploadFileZstd L A key (filepath_Join [localDir, n]) d s")
  have kn: "key_ok key" using Cons.prems(2) by (simp add: key_def)
  note u = uploadFile_result [OF Cons.prems(1) kn up]
  show ?case
  proof (cases r)
    case (Inl x)
    then show ?thesis using Cons.prems(4) up u by (auto simp: key_def)
  next
    case (Inr m)
    have rest: "upload_files L A localDir prefx d ns (tot + m) s1 = ((t, e), s')"
      using Cons.prems(4) up Inr by (simp add: key_def)
    have "key \<notin> (\<lambda>n. objectPath prefx (blob_name n)) ` set ns"
      using Cons.prems(3) by (auto simp: key_def objectPath_def blob_name_def)
    moreover note ih = Cons.IH [OF _ _ _ rest]
    ultimately show ?thesis using u Inr kn Cons.prems(2,3) holds_file_other
      by (auto simp: key_def)
  qed
qed

end

section \<open>Keys and objects of the directory-backed store\<close>

definition rooted :: "string \<Rightarrow> bool" where
  "rooted p \<longleftrightarrow> p \<noteq> '''' \<and> hd p = slash"

definition fs_key :: "string \<Rightarrow> string \<Rightarrow> bool" where
  "fs_key rootd k \<longleftrightarrow> rooted rootd \<and> list_all plain_name (split_slash k)"

definition fs_objects :: "string \<Rightarrow> disk \<Rightarrow> string \<Rightarrow> bytes option" where
  "fs_objects rootd d k =
     (case mget d (resolve rootd @ split_slash k) of Some (FileNode f) \<Rightarrow> Some (contents f) | _ \<Rightarrow> None)"

lemma join_split: "join_slash (split_slash s) = s"
proof (induction s)
  case (Cons c s)
  obtain w ws where "split_slash s = w # ws" by (rule split_nonempty_list)
  then show ?case using Cons.IH by (cases ws) auto
qed simp

lemma split_inj: "split_slash s = split_slash t \<Longrightarrow> s = t"
  by (metis join_split)

lemma FS_path_resolve:
  assumes "fs_key rootd k"
  shows "resolve (FS_path rootd k) = resolve rootd @ split_slash k"
    and "resolve (filepath_Dir (FS_path rootd k)) = butlast (resolve rootd @ split_slash k)"
proof -
  have r: "rootd \<noteq> ''''" "hd rootd = slash" and k: "list_all plain_name (split_slash k)"
    using assms by (simp_all add: fs_key_def rooted_def)
  have e: "resolve (rootd @ slash # k) = resolve rootd @ split_slash k"
    using k by (simp add: resolve_append fold_plain)
  show "resolve (FS_path rootd k) = resolve rootd @ split_slash k"
    using Join_rooted(2) [OF r, of k] e by (simp add: FS_path_def)
  have "FS_path rootd k = slash # join_slash (resolve rootd @ split_slash k)"
    using Join_rooted(1) [OF r, of k] e by (simp add: FS_path_def)
  then show "resolve (filepath_Dir (FS_path rootd k)) = butlast (resolve rootd @ split_slash k)"
    using resolve_Dir [of "resolve rootd @ split_slash k"] k resolve_plain [of rootd] by simp
qed

lemma fs_objects_eq:
  assumes "fs_key rootd k" "\<And>f. mget d' (resolve (FS_path rootd k)) = Some (FileNode f)
      \<longleftrightarrow> mget d (resolve (FS_path rootd k)) = Some (FileNode f)"
  shows "fs_objects rootd d' k = fs_objects rootd d k"
  using assms(2) unfolding fs_objects_def FS_path_resolve(1) [OF assms(1)]
  by (auto split: option.split node.split) blast+

lemma fs_other_key:
  "fs_key rootd k \<Longrightarrow> fs_key rootd k' \<Longrightarrow> k' \<noteq> k \<Longrightarrow> resolve (FS_path rootd k') \<noteq> resolve (FS_path rootd k)"
  using split_inj [of k k'] by (auto simp: FS_path_resolve(1))

lemma FS_Put_effect:
  assumes "disk_ok d" "fs_key rootd k" "FS_Put rootd k (b, None) n d = (e, d')"
  shows "disk_ok d' \<and> (e = None \<longrightarrow> fs_objects rootd d' k = Some b)
    \<and> (\<forall>k'. fs_key rootd k' \<longrightarrow> k' \<noteq> k \<longrightarrow> fs_objects rootd d' k' = fs_objects rootd d k')"
proof -
  define p where "p = FS_path rootd k"
  obtain e1 d1 where m: "os_MkdirAll (filepath_Dir p) d = (e1, d1)" by (cases "os_MkdirAll (filepath_Dir p) d")
  have ok1: "disk_ok d1" by (rule os_MkdirAll_ok [OF assms(1) m])
  have same1: "fs_key rootd k' \<Longrightarrow> fs_objects rootd d1 k' = fs_objects rootd d k'" for k'
    by (rule fs_objects_eq) (simp_all add: os_MkdirAll_frame(1) [OF m])
  obtain e2 d2 where c: "os_Create p d1 = (e2, d2)" by (cases "os_Create p d1")
  note cr = os_Create_effect [OF ok1 c]
  show ?thesis
  proof (cases "e1 = None \<and> e2 = None")
    case False
    then have "d' = d1" "e \<noteq> None"
      using assms(3) m c cr(3) by (auto simp: FS_Put_def Let_def p_def [symmetric] split: option.splits)
    then show ?thesis using ok1 same1 by auto
  next
    case True
    then have d': "d' = put_file p (map Some b) d2" "e = None"
      using assms(3) m c by (auto simp: FS_Put_def Let_def p_def [symmetric])
    have ok: "disk_ok d'" using cr(4) True by (simp add: d')
    have "fs_objects rootd d' k = Some b"
      using FS_path_resolve(1) [OF assms(2)] by (simp add: fs_objects_def d' put_file_def p_def)
    moreover have "fs_objects rootd d' k' = fs_objects rootd d1 k'" if "fs_key rootd k'" "k' \<noteq> k" for k'
      using fs_other_key [OF assms(2) that] cr(2) True
      by (intro fs_objects_eq [OF that(1)]) (simp add: d' put_file_def p_def)
    ultimately show ?thesis using ok same1 by simp
  qed
qed

lemma FS_Get_effect:
  assumes "fs_key rootd k"
  shows "case fs_objects rootd d k of
      Some b \<Rightarrow> FS_Get rootd k d = Inr (b, None) | None \<Rightarrow> \<exists>e. FS_Get rootd k d = Inl e"
  using FS_path_resolve(1) [OF assms]
  by (simp add: fs_objects_def FS_Get_def os_Open_def split: option.split node.split)

lemma FS_Delete_effect:
  assumes "disk_ok d" "fs_key rootd k" "FS_Delete rootd k d = (e, d')"
  shows "disk_ok d' \<and> (e = None \<longrightarrow> fs_objects rootd d' k = None)
    \<and> (\<forall>k'. fs_key rootd k' \<longrightarrow> k' \<noteq> k \<longrightarrow> fs_objects rootd d' k' = fs_objects rootd d k')"
proof -
  note r = os_Remove_ok [OF assms(1) assms(3) [unfolded FS_Delete_def]]
  have "e = None \<longrightarrow> fs_objects rootd d' k = None"
    using r(2) FS_path_resolve(1) [OF assms(2)] by (simp add: fs_objects_def)
  moreover have "fs_objects rootd d' k' = fs_objects rootd d k'" if "fs_key rootd k'" "k' \<noteq> k" for k'
    using fs_other_key [OF assms(2) that] r(2,3)
    by (intro fs_objects_eq [OF that(1)]) (cases e, simp_all)
  ultimately show ?thesis using r(1) by blast
qed

interpretation fs_store: object_store "fs_snaps rootd" disk_ok "fs_objects rootd" "fs_key rootd"
  for rootd
proof unfold_locales
  fix d k e d' and b :: bytes
  show "disk_ok d \<Longrightarrow> fs_key rootd k \<Longrightarrow>
      snPut (fs_snaps rootd) k (b, None) (int (length b)) d = (e, d') \<Longrightarrow>
      disk_ok d' \<and> (e = None \<longrightarrow> fs_objects rootd d' k = Some b)
      \<and> (\<forall>k'. fs_key rootd k' \<longrightarrow> k' \<noteq> k \<longrightarrow> fs_objects rootd d' k' = fs_objects rootd d k')"
    using FS_Put_effect [of d rootd k b "int (length b)" e d'] by (simp add: fs_snaps_def)
  show "disk_ok d \<Longrightarrow> fs_key rootd k \<Longrightarrow>
      (case fs_objects rootd d k of Some b \<Rightarrow> snGet (fs_snaps rootd) k d = Inr (b, None)
       | None \<Rightarrow> \<exists>e. snGet (fs_snaps rootd) k d = Inl e)"
    using FS_Get_effect [of rootd k d] by (cases "fs_objects rootd d k") (simp_all add: fs_snaps_def)
  show "disk_ok d \<Longrightarrow> fs_key rootd k \<Longrightarrow> snDelete (fs_snaps rootd) k d = (e, d') \<Longrightarrow>
      disk_ok d' \<and> (e = None \<longrightarrow> fs_objects rootd d' k = None)
      \<and> (\<forall>k'. fs_key rootd k' \<longrightarrow> k' \<noteq> k \<longrightarrow> fs_objects rootd d' k' = fs_objects rootd d k')"
    using FS_Delete_effect [of d rootd k e d'] by (simp add: fs_snaps_def)
qed

section \<open>What a download makes\<close>

text \<open>
  The directory \<open>D\<close> during a download of the files \<open>all\<close>, of which \<open>done\<close> are there: besides them only
  directories on the way to a file of \<open>all\<close>.
\<close>

definition partial_tree ::
    "string list \<Rightarrow> (string list \<Rightarrow> sfile) \<Rightarrow> string list set \<Rightarrow> string list set \<Rightarrow> disk \<Rightarrow> bool" where
  "partial_tree D F all done' d \<longleftrightarrow> disk_ok d \<and> (\<forall>a. prefix a D \<longrightarrow> a \<noteq> [] \<longrightarrow> mget d a = Some DirNode)
     \<and> (\<forall>q nd. mget d q = Some nd \<longrightarrow> strict_prefix D q \<longrightarrow>
          nd = DirNode \<and> (\<exists>es\<in>all. strict_prefix q (D @ es)) \<or> (\<exists>es\<in>done'. q = D @ es \<and> nd = FileNode (F es)))
     \<and> (\<forall>es\<in>done'. mget d (D @ es) = Some (FileNode (F es)))"

lemma partial_treeD:
  assumes "partial_tree D F all done' d"
  shows "disk_ok d" and "prefix a D \<Longrightarrow> a \<noteq> [] \<Longrightarrow> mget d a = Some DirNode"
    and "mget d q = Some nd \<Longrightarrow> strict_prefix D q \<Longrightarrow>
      nd = DirNode \<and> (\<exists>es\<in>all. strict_prefix q (D @ es)) \<or> (\<exists>es\<in>done'. q = D @ es \<and> nd = FileNode (F es))"
    and "es \<in> done' \<Longrightarrow> mget d (D @ es) = Some (FileNode (F es))"
  using assms unfolding partial_tree_def by blast+

text \<open>A set of relative names that one directory can hold.\<close>

definition tree_names :: "string list set \<Rightarrow> bool" where
  "tree_names all \<longleftrightarrow> (\<forall>es\<in>all. es \<noteq> [] \<and> list_all plain_name es)
     \<and> (\<forall>es\<in>all. \<forall>es'\<in>all. \<not> strict_prefix es es')"

lemma strict_prefix_butlast: "es \<noteq> [] \<Longrightarrow> strict_prefix q es \<longleftrightarrow> prefix q (butlast es)"
  by (cases es rule: rev_cases) (auto simp: strict_prefix_def dest: prefix_length_le)

lemma tree_free:
  assumes "partial_tree D F all done' d" "tree_names all" "done' \<subseteq> all" "es \<in> all"
    and "prefix q (butlast (D @ es))" "q \<noteq> []"
  shows "dir_or_free d q"
proof (cases "prefix q D")
  case True
  then show ?thesis using partial_treeD(2) [OF assms(1)] assms(6) by (simp add: dir_or_free_def)
next
  case False
  have ne: "es \<noteq> []" using assms(2,4) by (auto simp: tree_names_def)
  have q: "strict_prefix q (D @ es)"
    using assms(5) ne strict_prefix_butlast [of "D @ es" q] by simp
  then have "prefix q D \<or> prefix D q" using prefix_same_cases [of q "D @ es" D] by (auto simp: strict_prefix_def)
  then have D: "strict_prefix D q" using False by (auto simp: strict_prefix_def)
  then obtain rs where rs: "q = D @ rs" by (auto simp: strict_prefix_def prefix_def)
  have "strict_prefix rs es" using q rs by (auto simp: strict_prefix_def)
  then have "rs \<notin> done'" using assms(2-4) by (auto simp: tree_names_def)
  then show ?thesis using partial_treeD(3) [OF assms(1) _ D] rs
    by (cases "mget d q") (auto simp: dir_or_free_def)
qed

lemma tree_add:
  assumes t: "partial_tree D F all done' d" and n: "tree_names all" "done' \<subseteq> all" "es \<in> all" "es \<notin> done'"
    and m: "os_MkdirAll p d = (None, d1)" "resolve p = butlast (D @ es)"
  shows "partial_tree D F all (insert es done') (mput (D @ es) (FileNode (F es)) d1)"
    and "mget d1 (D @ es) = None" and "a \<in> set (ancestors (D @ es)) \<Longrightarrow> mget d1 a = Some DirNode"
proof -
  have es: "es \<noteq> []" "list_all plain_name es" using n(1,3) by (auto simp: tree_names_def)
  have ok1: "disk_ok d1" by (rule os_MkdirAll_ok [OF partial_treeD(1) [OF t] m(1)])
  have made: "prefix q (butlast (D @ es)) \<Longrightarrow> q \<noteq> [] \<Longrightarrow> mget d1 q = Some DirNode" for q
    using os_MkdirAll_made [OF m(1)] m(2) by simp
  have chain: "strict_prefix q (D @ es) \<longleftrightarrow> prefix q (butlast (D @ es))" for q
    using es(1) strict_prefix_butlast [of "D @ es" q] by simp
  show anc: "mget d1 a = Some DirNode" if "a \<in> set (ancestors (D @ es))" for a
    using that made chain by (simp add: ancestors_iff)
  have absent: "mget d (D @ es) = None"
  proof (rule ccontr)
    assume "mget d (D @ es) \<noteq> None"
    then obtain nd where nd: "mget d (D @ es) = Some nd" by auto
    have "strict_prefix D (D @ es)" using es(1) by (auto simp: strict_prefix_def)
    from partial_treeD(3) [OF t nd this] n show False
      by (auto simp: tree_names_def strict_prefix_def)
  qed
  show absent1: "mget d1 (D @ es) = None"
  proof (rule ccontr)
    assume "mget d1 (D @ es) \<noteq> None"
    then have "prefix (D @ es) (butlast (D @ es))"
      using os_MkdirAll_frame(4) [OF m(1), of "D @ es"] absent m(2) by auto
    then show False using chain [of "D @ es"] by simp
  qed
  define d2 where "d2 = mput (D @ es) (FileNode (F es)) d1"
  have plain: "list_all plain_name (D @ es)"
    using es resolve_plain [of p] m(2) partial_treeD(2) [OF t, of D] disk_okD(2) [OF partial_treeD(1) [OF t]]
    by (cases "D = []") auto
  have "disk_ok d2" unfolding d2_def
    by (rule put_node_ok [OF ok1 _ plain]) (use es anc absent1 in auto)
  moreover have "mget d2 a = Some DirNode" if "prefix a D" "a \<noteq> []" for a
    using that es made [of a] chain [of a] by (auto simp: d2_def strict_prefix_def prefix_def)
  moreover have "nd = DirNode \<and> (\<exists>es'\<in>all. strict_prefix q (D @ es'))
      \<or> (\<exists>es'\<in>insert es done'. q = D @ es' \<and> nd = FileNode (F es'))"
    if q: "mget d2 q = Some nd" "strict_prefix D q" for q nd
  proof (cases "q = D @ es")
    case True
    then show ?thesis using q by (auto simp: d2_def)
  next
    case False
    then have q1: "mget d1 q = Some nd" using q(1) by (simp add: d2_def)
    show ?thesis
    proof (cases "mget d q = Some nd")
      case True
      then show ?thesis using partial_treeD(3) [OF t _ q(2)] by blast
    next
      case False
      then have pq: "prefix q (butlast (D @ es))" using os_MkdirAll_frame(4) [OF m(1), of q] q1 m(2) by simp
      have "q \<noteq> []" using q(2) by auto
      then have "nd = DirNode" using made [OF pq] q1 by simp
      then show ?thesis using chain pq n(3) by blast
    qed
  qed
  moreover have "mget d2 (D @ es') = Some (FileNode (F es'))" if "es' \<in> insert es done'" for es'
    using that partial_treeD(4) [OF t] os_MkdirAll_frame(1) [OF m(1)] by (auto simp: d2_def)
  ultimately show "partial_tree D F all (insert es done') (mput (D @ es) (FileNode (F es)) d1)"
    unfolding partial_tree_def d2_def [symmetric] by blast
qed

text \<open>A file that is downloaded.\<close>

lemma resolve_butlast: "rooted p \<Longrightarrow> list_all plain_name es \<Longrightarrow> es \<noteq> [] \<Longrightarrow>
  resolve (filepath_Dir (filepath_Join [p, join_slash es])) = butlast (resolve p @ es)"
  using Join_rooted(1) [of p "join_slash es"] resolve_Dir [of "resolve p @ es"] resolve_plain [of p]
  by (simp add: rooted_def resolve_append split_plain fold_plain)

lemma resolve_name: "rooted p \<Longrightarrow> list_all plain_name es \<Longrightarrow> es \<noteq> [] \<Longrightarrow>
  resolve (filepath_Join [p, join_slash es]) = resolve p @ es"
  by (rule resolve_Join_plain) (simp_all add: rooted_def)

context object_store
begin

lemma downloadFile_restores:
  assumes t: "partial_tree (resolve p) F all done' d" and n: "tree_names all" "done' \<subseteq> all" "es \<in> all" "es \<notin> done'"
    and p: "rooted p" and s: "ok s" "key_ok key" "holds_file L s key (F es)"
    and L: "zstd_codec (lbEncode L) (lbDecode L)" "in_int64 (int (length (F es)))"
  shows "\<exists>k d'. downloadFileZstd L A key (filepath_Join [p, join_slash es]) s d = ((k, None), d')
    \<and> partial_tree (resolve p) F all (insert es done') d'
    \<and> (\<forall>q. \<not> prefix (resolve p) q \<longrightarrow> mget d' q = mget d q)"
proof -
  define path where "path = filepath_Join [p, join_slash es]"
  have es: "list_all plain_name es" "es \<noteq> []" using n by (auto simp: tree_names_def)
  have rp: "resolve path = resolve p @ es" "resolve (filepath_Dir path) = butlast (resolve p @ es)"
    using resolve_name [OF p es] resolve_butlast [OF p es] by (simp_all add: path_def)
  obtain d1 where m: "os_MkdirAll (filepath_Dir path) d = (None, d1)"
    using os_MkdirAll_succeeds [of "filepath_Dir path" d] tree_free [OF t n(1-3)] rp(2) by auto
  note add = tree_add [OF t n m rp(2)]
  have c: "os_Create path d1 = (None, mput (resolve p @ es) (FileNode []) d1)"
    using os_Create_succeeds [of path d1] add es(2) rp(1) by simp
  obtain z res where z: "objs s key = Some z" "writeContent (lbEncode L) (FileContent (F es)) = Inr (z, res)"
    using s(3) by (auto simp: holds_file_def)
  have g: "snGet A key s = Inr (z, None)" using get [OF s(1,2)] z(1) by simp
  obtain lg pp where "writeSparseZstd (lbEncode L) (F es) = Inr (z, lg, pp)"
    using z(2) by (auto simp: writeContent_def split: sum.splits)
  from writeSparse_decodes(1) [OF L this]
  have dec: "decodeContent (lbDecode L) (OutFile []) (z, None) =
    (Inr \<lparr>drLogicalBytes = int (length (F es)), drWrittenBytes = 0, drSparse = True\<rparr>, OutFile (F es))" .
  have run: "downloadFileZstd L A key path s d = ((int (lbConsumed L (z, None)), None),
      put_file path (F es) (mput (resolve p @ es) (FileNode []) d1))"
    by (simp add: downloadFileZstd_def m c g dec)
  define d' where "d' = put_file path (F es) (mput (resolve p @ es) (FileNode []) d1)"
  have d': "d' = mput (resolve p @ es) (FileNode (F es)) d1"
    by (simp add: d'_def put_file_def rp(1) update_last)
  have "mget d' q = mget d q" if "\<not> prefix (resolve p) q" for q
  proof -
    have "mget d1 q = mget d q"
    proof (cases "prefix q (resolve p)")
      case True
      show ?thesis
      proof (cases "q = []")
        case False
        have pq: "prefix q (butlast (resolve p @ es))" using True es(2) by (simp add: butlast_append)
        show ?thesis
          using partial_treeD(2) [OF t True False] os_MkdirAll_made [OF m, of q] pq rp(2) False by simp
      next
        case True
        then have "q \<noteq> [] \<Longrightarrow> False" by simp
        then show ?thesis using True that os_MkdirAll_ok [OF partial_treeD(1) [OF t] m] partial_treeD(1) [OF t]
          disk_okD(1) by (metis not_None_eq)
      qed
    next
      case False
      then have "\<not> prefix q (butlast (resolve p @ es))" using that es(2)
        prefix_same_cases [of q "resolve p @ butlast es" "resolve p"] by (auto simp: butlast_append)
      then show ?thesis using os_MkdirAll_frame(4) [OF m, of q] rp(2) by auto
    qed
    moreover have "q \<noteq> resolve p @ es" using that by auto
    ultimately show ?thesis by (simp add: d')
  qed
  then show ?thesis using run add(1) d' unfolding path_def [symmetric] d'_def [symmetric] by auto
qed

lemma download_files_restores:
  assumes "partial_tree (resolve p) F all done' d" "tree_names all" "done' \<union> set ess = all"
    and "distinct ess" "done' \<inter> set ess = {}" and p: "rooted p" and s: "ok s"
    and h: "\<And>es. es \<in> all \<Longrightarrow> key_ok (objectPath prefx (blob_name (join_slash es)))
      \<and> holds_file L s (objectPath prefx (blob_name (join_slash es))) (F es) \<and> in_int64 (int (length (F es)))"
    and L: "zstd_codec (lbEncode L) (lbDecode L)"
  shows "\<exists>k d'. download_files L A prefx p s (map join_slash ess) tot d = ((k, None), d')
    \<and> partial_tree (resolve p) F all all d' \<and> (\<forall>q. \<not> prefix (resolve p) q \<longrightarrow> mget d' q = mget d q)"
  using assms(1,3,4,5)
proof (induction ess arbitrary: done' d tot)
  case Nil
  then show ?case by simp
next
  case (Cons es ess)
  have i: "done' \<subseteq> all" "es \<in> all" "es \<notin> done'" using Cons.prems by auto
  define key where "key = objectPath prefx (blob_name (join_slash es))"
  obtain k d1 where r: "downloadFileZstd L A key (filepath_Join [p, join_slash es]) s d = ((k, None), d1)"
    "partial_tree (resolve p) F all (insert es done') d1" "\<forall>q. \<not> prefix (resolve p) q \<longrightarrow> mget d1 q = mget d q"
    using downloadFile_restores [OF Cons.prems(1) assms(2) i p s _ _ L, of key] h [OF i(2)]
    unfolding key_def by blast
  have st: "insert es done' \<union> set ess = all" "insert es done' \<inter> set ess = {}" using Cons.prems by auto
  obtain k' d' where "download_files L A prefx p s (map join_slash ess) (tot + k) d1 = ((k', None), d')"
    "partial_tree (resolve p) F all all d'" "\<forall>q. \<not> prefix (resolve p) q \<longrightarrow> mget d' q = mget d1 q"
    using Cons.IH [OF r(2) st(1) _ st(2), of "tot + k"] Cons.prems(3) by auto
  then show ?case using r by (simp add: key_def)
qed

end

section \<open>The directory that is uploaded\<close>

definition image_names :: "string list \<Rightarrow> disk \<Rightarrow> string list list" where
  "image_names D d = filter (\<lambda>es. join_slash es \<noteq> manifestName)
     (sort (map (\<lambda>(q, _). drop (length D) q)
       (filter (\<lambda>(q, nd). below D q \<and> (case nd of FileNode _ \<Rightarrow> True | _ \<Rightarrow> False)) d)))"

lemma listRegularFiles_names:
  "listRegularFiles p d = Inr files \<Longrightarrow> files = map join_slash (image_names (resolve p) d)"
  by (auto simp: listRegularFiles_def walk_files_def image_names_def filter_map comp_def
      split: list.splits option.splits)

lemma image_names_iff:
  assumes "disk_ok d"
  shows "es \<in> set (image_names D d) \<longleftrightarrow>
    es \<noteq> [] \<and> join_slash es \<noteq> manifestName \<and> (\<exists>f. mget d (D @ es) = Some (FileNode f))"
proof -
  have g: "gomap_ok d" using assms by (simp add: disk_ok_def)
  define fs where "fs = filter (\<lambda>(q, nd). below D q \<and> (case nd of FileNode _ \<Rightarrow> True | _ \<Rightarrow> False)) d"
  have fs: "(q, nd) \<in> set fs \<longleftrightarrow> (\<exists>f. nd = FileNode f) \<and> (q, nd) \<in> set d \<and> strict_prefix D q" for q nd
    by (cases nd) (auto simp: fs_def below_def)
  have "es \<in> set (map (\<lambda>(q, _). drop (length D) q) fs) \<longleftrightarrow> es \<noteq> [] \<and> (\<exists>f. (D @ es, FileNode f) \<in> set d)"
  proof
    assume "es \<in> set (map (\<lambda>(q, _). drop (length D) q) fs)"
    then obtain q nd where q: "(q, nd) \<in> set fs" "es = drop (length D) q" by auto
    then obtain rs where "q = D @ rs" "rs \<noteq> []" unfolding fs by (auto simp: strict_prefix_def prefix_def)
    then show "es \<noteq> [] \<and> (\<exists>f. (D @ es, FileNode f) \<in> set d)" using q unfolding fs by auto
  next
    assume "es \<noteq> [] \<and> (\<exists>f. (D @ es, FileNode f) \<in> set d)"
    then obtain f where "(D @ es, FileNode f) \<in> set fs" unfolding fs by (auto simp: strict_prefix_def)
    then show "es \<in> set (map (\<lambda>(q, _). drop (length D) q) fs)" by (force simp: image_iff)
  qed
  then show ?thesis unfolding mget_mem [OF g] by (auto simp: image_names_def fs_def [symmetric])
qed

lemma image_names_distinct:
  assumes "disk_ok d"
  shows "distinct (image_names D d)"
proof -
  define fs where "fs = filter (\<lambda>(q, nd). below D q \<and> (case nd of FileNode _ \<Rightarrow> True | _ \<Rightarrow> False)) d"
  have "distinct (map fst d)" using assms by (simp add: disk_ok_def gomap_ok_def)
  then have "distinct (map fst fs)" by (simp add: fs_def distinct_map_filter)
  moreover have "inj_on (drop (length D)) (set (map fst fs))"
  proof (rule inj_on_inverseI [where g = "(@) D"])
    fix q assume "q \<in> set (map fst fs)"
    then have "prefix D q" by (auto simp: fs_def below_def)
    then show "D @ drop (length D) q = q" by (auto simp: prefix_def)
  qed
  ultimately have "distinct (map (drop (length D)) (map fst fs))" by (simp only: distinct_map)
  then have "distinct (map (\<lambda>(q, _). drop (length D) q) fs)" by (simp add: comp_def split_def)
  then show ?thesis by (simp add: image_names_def fs_def)
qed

lemma image_names_tree:
  assumes "disk_ok d"
  shows "tree_names (set (image_names D d))"
  unfolding tree_names_def
proof (intro conjI ballI)
  fix es assume es: "es \<in> set (image_names D d)"
  then obtain f where f: "mget d (D @ es) = Some (FileNode f)" "es \<noteq> []"
    by (auto simp: image_names_iff [OF assms])
  show "es \<noteq> []" by (rule f(2))
  show "list_all plain_name es" using disk_okD(2) [OF assms f(1)] by simp
  fix es' assume "es' \<in> set (image_names D d)"
  then obtain f' where f': "mget d (D @ es') = Some (FileNode f')" by (auto simp: image_names_iff [OF assms])
  show "\<not> strict_prefix es es'"
  proof
    assume "strict_prefix es es'"
    then have "D @ es \<in> set (ancestors (D @ es'))" using f(2) by (auto simp: ancestors_iff strict_prefix_def)
    then show False using disk_okD(3) [OF assms f'] f(1) by auto
  qed
qed

lemma join_inj: "list_all plain_name es \<Longrightarrow> list_all plain_name es' \<Longrightarrow> es \<noteq> [] \<Longrightarrow> es' \<noteq> [] \<Longrightarrow>
  join_slash es = join_slash es' \<Longrightarrow> es = es'"
  by (metis split_plain)

lemma distinct_join:
  assumes "distinct ess" "\<And>es. es \<in> set ess \<Longrightarrow> es \<noteq> [] \<and> list_all plain_name es"
  shows "distinct (map join_slash ess)"
  using assms join_inj by (auto simp: distinct_map intro!: inj_onI)

lemma blob_join:
  assumes "es \<noteq> []" "list_all plain_name es"
  shows "\<exists>bs. bs \<noteq> [] \<and> list_all plain_name bs \<and> blob_name (join_slash es) = join_slash bs"
proof -
  have "blob_name (join_slash es) = join_slash (butlast es @ [last es @ ''.zstd''])"
  proof (cases "butlast es = []")
    case True
    then have "es = [last es]" using assms(1) by (metis append_butlast_last_id append_Nil)
    then show ?thesis using True by (metis append_Nil blob_name_def join_slash.simps(2))
  next
    case False
    have "join_slash es = join_slash (butlast es) @ slash # last es"
      using join_snoc [OF False, of "last es"] assms(1) by simp
    then show ?thesis using join_snoc [OF False, of "last es @ ''.zstd''"] by (simp add: blob_name_def)
  qed
  moreover have "plain_name (last es)" using assms by (metis last_in_set list_all_iff)
  then have "plain_name (last es @ ''.zstd'')" by (auto simp: plain_name_def append_eq_Cons_conv)
  moreover have "list_all plain_name (butlast es)" using assms(2) by (metis in_set_butlastD list_all_iff)
  ultimately show ?thesis by (intro exI [of _ "butlast es @ [last es @ ''.zstd'']"]) simp
qed

lemma manifest_no_blob: "objectPath prefx manifestName \<noteq> objectPath prefx (blob_name n)"
proof
  assume "objectPath prefx manifestName = objectPath prefx (blob_name n)"
  then have "last manifestName = last (n @ ''.zstd'')" by (simp add: objectPath_def blob_name_def)
  then show False by (simp add: manifestName_def)
qed

text \<open>The files of an image directory, as bytes.\<close>

definition image_of :: "string \<Rightarrow> disk \<Rightarrow> string list \<Rightarrow> bytes option" where
  "image_of p d es = (case mget d (resolve p @ es) of Some (FileNode f) \<Rightarrow> Some (contents f) | _ \<Rightarrow> None)"

text \<open>What a prefix has to be for all its objects to be keys of the store.\<close>

definition prefix_keys :: "(string \<Rightarrow> bool) \<Rightarrow> string \<Rightarrow> bool" where
  "prefix_keys key_ok prefx \<longleftrightarrow>
     (\<forall>es. es \<noteq> [] \<longrightarrow> list_all plain_name es \<longrightarrow> key_ok (objectPath prefx (join_slash es)))"

context object_store
begin

lemma UploadDir_objects:
  assumes d: "disk_ok d" and s: "ok s" and k: "prefix_keys key_ok prefx" and p: "rooted p"
    and up: "UploadDir L A p prefx d s = ((n, None), s')"
  defines "ess \<equiv> image_names (resolve p) d"
  shows "ok s'" "ess \<noteq> []" "listRegularFiles p d = Inr (map join_slash ess)"
    and "objs s' (objectPath prefx manifestName) = Some (lbMarshal L (map join_slash ess))"
    and "\<And>es. es \<in> set ess \<Longrightarrow> \<exists>f. mget d (resolve p @ es) = Some (FileNode f)
      \<and> holds_file L s' (objectPath prefx (blob_name (join_slash es))) f"
proof -
  obtain files where files: "listRegularFiles p d = Inr files" "files \<noteq> []"
    using up by (auto simp: UploadDir_def split: sum.splits if_splits)
  have fe: "files = map join_slash ess" using listRegularFiles_names [OF files(1)] by (simp add: ess_def)
  show "ess \<noteq> []" "listRegularFiles p d = Inr (map join_slash ess)" using files fe by auto
  have names: "es \<in> set ess \<Longrightarrow> es \<noteq> [] \<and> list_all plain_name es" for es
    using image_names_tree [OF d] by (auto simp: tree_names_def ess_def)
  have keys: "x \<in> set files \<Longrightarrow> key_ok (objectPath prefx (blob_name x))" for x
    using names blob_join k unfolding fe prefix_keys_def by fastforce
  have mk: "key_ok (objectPath prefx manifestName)"
    using k [unfolded prefix_keys_def, rule_format, of "[manifestName]"]
    by (simp add: manifestName_def plain_name_def)
  obtain t e s1 where u: "upload_files L A p prefx d files 0 s = ((t, e), s1)"
    by (metis prod.exhaust)
  have dist: "distinct files" unfolding fe
    using names image_names_distinct [OF d] by (intro distinct_join) (auto simp: ess_def)
  note ur = upload_files_result [OF s keys dist u]
  have e: "e = None" using up files u by (cases e) (simp_all add: UploadDir_def)
  obtain e2 s2 where m: "snPut A (objectPath prefx manifestName) (lbMarshal L files, None)
      (int (length (lbMarshal L files))) s1 = (e2, s2)" by (metis prod.exhaust)
  have fin: "e2 = None" "s' = s2" using up files u e m
    by (cases e2; simp add: UploadDir_def Let_def)+
  have "ok s1" using ur by blast
  note pr = put [OF this mk m]
  show "ok s'" "objs s' (objectPath prefx manifestName) = Some (lbMarshal L (map join_slash ess))"
    using pr fin fe by auto
  fix es assume es: "es \<in> set ess"
  then have x: "join_slash es \<in> set files" by (simp add: fe)
  obtain f where f: "os_Open (filepath_Join [p, join_slash es]) d = Inr f"
    "holds_file L s1 (objectPath prefx (blob_name (join_slash es))) f" using ur e x by blast
  have "mget d (resolve p @ es) = Some (FileNode f)"
    using f(1) resolve_name [OF p] names [OF es] by (auto simp: os_Open_def split: option.splits node.splits)
  moreover have "objs s' (objectPath prefx (blob_name (join_slash es))) = objs s1 (objectPath prefx (blob_name (join_slash es)))"
    using pr fin(2) keys [OF x] manifest_no_blob [of prefx "join_slash es"] by auto
  ultimately show "\<exists>f. mget d (resolve p @ es) = Some (FileNode f)
      \<and> holds_file L s' (objectPath prefx (blob_name (join_slash es))) f"
    using f(2) holds_file_other by blast
qed

end

context object_store
begin

lemma directory_roundtrip:
  assumes d: "disk_ok d" and s: "ok s" and k: "prefix_keys key_ok prefx" and p: "rooted p"
    and L: "zstd_codec (lbEncode L) (lbDecode L)"
    and J: "\<forall>files. listRegularFiles p d = Inr files \<longrightarrow> lbUnmarshal L (lbMarshal L files) = Inr files"
    and small: "\<forall>q f. mget d q = Some (FileNode f) \<longrightarrow> in_int64 (int (length f))"
    and up: "UploadDir L A p prefx d s = ((n, None), s')"
    and d2: "disk_ok d2" and p2: "rooted p2" and free: "\<forall>q\<in>set (ancestors (resolve p2)). dir_or_free d2 q"
  shows "\<exists>m d2'. DownloadDir L A prefx p2 s' d2 = ((m, None), d2')
    \<and> (\<forall>es. es \<noteq> [] \<longrightarrow> image_of p2 d2' es = (if join_slash es = manifestName then None else image_of p d es))
    \<and> (\<forall>q. \<not> prefix (resolve p2) q \<longrightarrow> \<not> prefix q (resolve p2) \<longrightarrow> mget d2' q = mget d2 q)"
proof -
  define ess where "ess = image_names (resolve p) d"
  note u = UploadDir_objects [OF d s k p up, folded ess_def]
  define F where "F es = (case mget d (resolve p @ es) of Some (FileNode f) \<Rightarrow> f | _ \<Rightarrow> [])" for es
  have F: "mget d (resolve p @ es) = Some (FileNode (F es))" if "es \<in> set ess" for es
    using u(5) [OF that] by (auto simp: F_def)
  have tree: "tree_names (set ess)" using image_names_tree [OF d] by (simp add: ess_def)
  have mk: "key_ok (objectPath prefx manifestName)"
    using k [unfolded prefix_keys_def, rule_format, of "[manifestName]"]
    by (simp add: manifestName_def plain_name_def)
  define b where "b = lbMarshal L (map join_slash ess)"
  have gm: "snGet A (objectPath prefx manifestName) s' = Inr (b, None)"
    using get [OF u(1) mk] u(4) by (simp add: b_def)
  define d3 where "d3 = os_RemoveAll p2 d2"
  have g2: "gomap_ok d2" using d2 by (simp add: disk_ok_def)
  have ok3: "disk_ok d3" unfolding d3_def by (rule os_RemoveAll_ok [OF d2])
  have "dir_or_free d3 q" if "prefix q (resolve p2)" "q \<noteq> []" for q
  proof (cases "q = resolve p2")
    case True
    then show ?thesis by (simp add: dir_or_free_def d3_def os_RemoveAll_get [OF g2])
  next
    case False
    then have "q \<in> set (ancestors (resolve p2))" using that by (simp add: ancestors_iff strict_prefix_def)
    then show ?thesis using free by (simp add: dir_or_free_def d3_def os_RemoveAll_get [OF g2])
  qed
  then obtain d4 where m: "os_MkdirAll p2 d3 = (None, d4)" using os_MkdirAll_succeeds [of p2 d3] by blast
  have empty: "mget d4 q = None" if "strict_prefix (resolve p2) q" for q
  proof -
    have "\<not> prefix q (resolve p2)" using that by (auto simp: strict_prefix_def)
    then have "mget d4 q = mget d3 q" using os_MkdirAll_frame(4) [OF m, of q] by blast
    then show ?thesis using that by (simp add: d3_def os_RemoveAll_get [OF g2] strict_prefix_def)
  qed
  have t0: "partial_tree (resolve p2) F (set ess) {} d4"
    unfolding partial_tree_def using os_MkdirAll_ok [OF ok3 m] os_MkdirAll_made [OF m] empty by auto
  have keys: "key_ok (objectPath prefx (blob_name (join_slash es)))" if "es \<in> set ess" for es
    using blob_join [of es] tree k that unfolding tree_names_def prefix_keys_def by force
  have h: "key_ok (objectPath prefx (blob_name (join_slash es)))
      \<and> holds_file L s' (objectPath prefx (blob_name (join_slash es))) (F es) \<and> in_int64 (int (length (F es)))"
    if "es \<in> set ess" for es
    using u(5) [OF that] F [OF that] keys [OF that] small by auto
  have "{} \<union> set ess = set ess" "{} \<inter> set ess = {}" by simp_all
  from download_files_restores [OF t0 tree this(1) _ this(2) p2 u(1) h L, of "int (length b)"]
  obtain j d5 where dl: "download_files L A prefx p2 s' (map join_slash ess) (int (length b)) d4 = ((j, None), d5)"
    "partial_tree (resolve p2) F (set ess) (set ess) d5" "\<forall>q. \<not> prefix (resolve p2) q \<longrightarrow> mget d5 q = mget d4 q"
    using image_names_distinct [OF d] by (auto simp: ess_def)
  have run: "DownloadDir L A prefx p2 s' d2 = ((j, None), d5)"
    using gm J u(2,3) m dl(1) by (simp add: DownloadDir_def b_def d3_def)
  have img: "image_of p2 d5 es = (if join_slash es = manifestName then None else image_of p d es)"
    if ne: "es \<noteq> []" for es
  proof (cases "es \<in> set ess")
    case True
    then have "join_slash es \<noteq> manifestName" using image_names_iff [OF d] by (auto simp: ess_def)
    then show ?thesis using partial_treeD(4) [OF dl(2) True] F [OF True] by (simp add: image_of_def)
  next
    case False
    have "mget d5 (resolve p2 @ es) \<noteq> Some (FileNode f)" for f
    proof
      assume q: "mget d5 (resolve p2 @ es) = Some (FileNode f)"
      have "strict_prefix (resolve p2) (resolve p2 @ es)" using ne by (auto simp: strict_prefix_def)
      from partial_treeD(3) [OF dl(2) q this] False show False by auto
    qed
    then have "image_of p2 d5 es = None" by (auto simp: image_of_def split: option.split node.split)
    moreover have "join_slash es = manifestName \<or> image_of p d es = None"
      using False ne image_names_iff [OF d, of es] unfolding ess_def
      by (auto simp: image_of_def split: option.split node.split)
    ultimately show ?thesis by auto
  qed
  have "mget d5 q = mget d2 q" if "\<not> prefix (resolve p2) q" "\<not> prefix q (resolve p2)" for q
    using that dl(3) os_MkdirAll_frame(4) [OF m, of q] by (auto simp: d3_def os_RemoveAll_get [OF g2])
  then show ?thesis using run img by blast
qed

end

section \<open>Properties\<close>

text \<open>
  C7: a suspended image survives the directory-backed store. After an upload that reports no error,
  the download into any directory of any other disk, if no file is in the way of that directory,
  reports no error, and leaves in it exactly the files uploaded with the same bytes (a file called
  manifest.json at the top is not part of an image); nothing outside the directory changes but the
  directories on the way to it.
\<close>

theorem checkpoint_dir_roundtrip:
  assumes "disk_ok d" and "disk_ok st" and "prefix_keys (fs_key rootd) prefx" and "rooted p"
    and "zstd_codec (lbEncode L) (lbDecode L)"
    and "\<forall>files. listRegularFiles p d = Inr files \<longrightarrow> lbUnmarshal L (lbMarshal L files) = Inr files"
    and "\<forall>q f. mget d q = Some (FileNode f) \<longrightarrow> in_int64 (int (length f))"
    and "UploadDir L (fs_snaps rootd) p prefx d st = ((n, None), st')"
    and "disk_ok d2" and "rooted p2" and "\<forall>q\<in>set (ancestors (resolve p2)). dir_or_free d2 q"
  shows "\<exists>m d2'. DownloadDir L (fs_snaps rootd) prefx p2 st' d2 = ((m, None), d2')
    \<and> (\<forall>es. es \<noteq> [] \<longrightarrow> image_of p2 d2' es = (if join_slash es = manifestName then None else image_of p d es))
    \<and> (\<forall>q. \<not> prefix (resolve p2) q \<longrightarrow> \<not> prefix q (resolve p2) \<longrightarrow> mget d2' q = mget d2 q)"
  by (rule fs_store.directory_roundtrip [OF assms])

text \<open>A library to evaluate with: stored frames, names as character lists between marks.\<close>

fun stored_names :: "string list \<Rightarrow> bytes" where
  "stored_names [] = []"
| "stored_names ([] # ns) = 0 # stored_names ns"
| "stored_names ((c # cs) # ns) = 1 # of_nat (of_char c) # stored_names (cs # ns)"

fun read_names :: "string \<Rightarrow> bytes \<Rightarrow> string list" where
  "read_names acc (m # bs) =
     (if m = 0 then rev acc # read_names [] bs
      else case bs of [] \<Rightarrow> [] | b # bs \<Rightarrow> read_names (char_of (unat b) # acc) bs)"
| "read_names acc [] = []"

lemma char_byte: "char_of (unat (of_nat (of_char c) :: byte)) = c"
proof -
  have "(of_char c :: nat) < 256" by (rule nat_of_char_less_256)
  then have "unat (of_nat (of_char c) :: byte) = of_char c" by (simp add: unat_of_nat)
  then show ?thesis by simp
qed

lemma read_stored_names: "read_names acc (stored_names (n # ns)) = (rev acc @ n) # read_names [] (stored_names ns)"
  by (induction n arbitrary: acc) (simp_all add: char_byte)

definition stored_lib :: snap_lib where
  "stored_lib = \<lparr>lbEncode = stored_ze, lbDecode = stored_zd, lbConsumed = (\<lambda>st. length (fst st)),
     lbMarshal = stored_names, lbUnmarshal = (\<lambda>b. Inr (read_names [] b))\<rparr>"

lemma stored_lib_names: "lbUnmarshal stored_lib (lbMarshal stored_lib files) = Inr files"
proof -
  have "read_names [] (stored_names files) = files" by (induction files) (simp_all add: read_stored_names)
  then show ?thesis by (simp add: stored_lib_def)
qed

definition demo_disk :: disk where
  "demo_disk = [([''img''], DirNode), ([''img'', ''m''], DirNode), ([''img'', ''m'', ''a''], FileNode [None, Some 3])]"

definition demo_objects :: disk where "demo_objects = [([''objs''], DirNode)]"

lemma demo_disks: "disk_ok demo_disk" "disk_ok demo_objects"
  by (simp_all add: demo_disk_def demo_objects_def disk_ok_def gomap_ok_def ancestors_def plain_name_def
      upt_rec numeral_2_eq_2)

lemma demo_prefix: "prefix_keys (fs_key ''/objs'') ''sandboxes/u''"
  unfolding prefix_keys_def
proof (intro allI impI)
  fix es assume es: "es \<noteq> []" "list_all plain_name es"
  have "split_slash (objectPath ''sandboxes/u'' (join_slash es)) = [''sandboxes'', ''u''] @ es"
    using split_plain [OF es(2,1)] by (simp add: objectPath_def strings_TrimSuffix_def suffix_def)
  then show "fs_key ''/objs'' (objectPath ''sandboxes/u'' (join_slash es))"
    using es by (simp add: fs_key_def rooted_def plain_name_def)
qed

lemma demo_small: "\<forall>q f. mget demo_disk q = Some (FileNode f) \<longrightarrow> in_int64 (int (length f))"
  by (auto simp: demo_disk_def in_int64_def min_int64_def max_int64_def split: if_splits)

lemma demo_upload:
  "\<exists>n st'. UploadDir stored_lib (fs_snaps ''/objs'') ''/img'' ''sandboxes/u'' demo_disk demo_objects = ((n, None), st')"
proof -
  have "snd (fst (UploadDir stored_lib (fs_snaps ''/objs'') ''/img'' ''sandboxes/u'' demo_disk demo_objects)) = None"
    by code_simp
  then show ?thesis by (metis prod.collapse)
qed

theorem checkpoint_dir_roundtrip_witness:
  "\<exists>st' m d2'. DownloadDir stored_lib (fs_snaps ''/objs'') ''sandboxes/u'' ''/snap/w/u'' st' [] = ((m, None), d2')
     \<and> image_of ''/snap/w/u'' d2' [''m'', ''a''] = Some [0, 3]"
proof -
  obtain n st' where up: "UploadDir stored_lib (fs_snaps ''/objs'') ''/img'' ''sandboxes/u'' demo_disk demo_objects
      = ((n, None), st')" using demo_upload by blast
  have lib: "zstd_codec (lbEncode stored_lib) (lbDecode stored_lib)"
    using stored_codec by (simp add: stored_lib_def)
  have r: "rooted ''/img''" "rooted ''/snap/w/u''" by (simp_all add: rooted_def)
  have e: "disk_ok ([] :: disk)" by (simp add: disk_ok_def)
  obtain m d2' where d: "DownloadDir stored_lib (fs_snaps ''/objs'') ''sandboxes/u'' ''/snap/w/u'' st' [] = ((m, None), d2')"
    "\<forall>es. es \<noteq> [] \<longrightarrow> image_of ''/snap/w/u'' d2' es =
      (if join_slash es = manifestName then None else image_of ''/img'' demo_disk es)"
    using checkpoint_dir_roundtrip [OF demo_disks demo_prefix r(1) lib _ demo_small up e r(2)] stored_lib_names
    by (auto simp: dir_or_free_def)
  have "image_of ''/snap/w/u'' d2' [''m'', ''a''] = image_of ''/img'' demo_disk [''m'', ''a'']"
    using d(2) by (simp add: manifestName_def)
  also have "\<dots> = Some [0, 3]"
    by (simp add: image_of_def demo_disk_def contents_def resolve_def clean_step_def)
  finally show ?thesis using d(1) by blast
qed

text \<open>
  A download that fails leaves an image. Once a manifest that names a file is read and the directory
  is made, an error of any object, the first included, leaves the directory with an entry: the file is
  created before its object is asked for. A worker takes a directory with an entry for an image.
\<close>

lemma failed_download_leaves_image:
  assumes "disk_ok d" and "rooted p"
    and "snGet A (objectPath prefx manifestName) s = Inr (b, None)" and "lbUnmarshal L b = Inr (name # names)"
    and "os_MkdirAll p (os_RemoveAll p d) = (None, d0)" and "list_all plain_name (split_slash name)"
    and "DownloadDir L A prefx p s d = ((n, Some e), d')"
  shows "\<exists>x. mget d' (resolve p @ [hd (split_slash name)]) = Some x"
proof -
  define es where "es = split_slash name"
  have es: "es \<noteq> []" "list_all plain_name es" "name = join_slash es"
    using assms(6) join_split by (simp_all add: es_def)
  define path where "path = filepath_Join [p, name]"
  have rp: "resolve path = resolve p @ es" "resolve (filepath_Dir path) = butlast (resolve p @ es)"
    using resolve_name [OF assms(2) es(2,1)] resolve_butlast [OF assms(2) es(2,1)]
    by (simp_all add: path_def es(3))
  have entry: "mget d1 (resolve p @ [hd es]) = Some x \<Longrightarrow> downloadFileZstd L A k q s d1 = (r, d2) \<Longrightarrow>
      \<exists>x. mget d2 (resolve p @ [hd es]) = Some x" for d1 d2 k q r x
  proof -
    assume x: "mget d1 (resolve p @ [hd es]) = Some x" and q: "downloadFileZstd L A k q s d1 = (r, d2)"
    obtain e1 d3 where m: "os_MkdirAll (filepath_Dir q) d1 = (e1, d3)" by (cases "os_MkdirAll (filepath_Dir q) d1")
    have y: "\<exists>y. mget d3 (resolve p @ [hd es]) = Some y" using x os_MkdirAll_frame [OF m] by (cases x) auto
    obtain e2 d4 where c: "os_Create q d3 = (e2, d4)" by (cases "os_Create q d3")
    have "d4 = d3 \<or> d4 = mput (resolve q) (FileNode []) d3"
      using c by (auto simp: os_Create_def Let_def split: if_splits)
    with y have z: "\<exists>y. mget d4 (resolve p @ [hd es]) = Some y" by auto
    have "d2 = d3 \<or> d2 = d4 \<or> (\<exists>f. d2 = put_file q f d4)"
      using q m c by (auto simp: downloadFileZstd_def split: option.splits sum.splits prod.splits destination.splits)
    then show ?thesis using y z by (auto simp: put_file_def)
  qed
  have keep: "mget d1 (resolve p @ [hd es]) = Some x \<Longrightarrow> download_files L A prefx p s ns tot d1 = (r, d2) \<Longrightarrow>
      \<exists>x. mget d2 (resolve p @ [hd es]) = Some x" for ns d1 tot r d2 x
  proof (induction ns arbitrary: d1 tot x)
    case (Cons a ns)
    obtain k o1 d3 where f: "downloadFileZstd L A (objectPath prefx (blob_name a)) (filepath_Join [p, a]) s d1 = ((k, o1), d3)"
      by (metis prod.exhaust)
    obtain y where "mget d3 (resolve p @ [hd es]) = Some y" using entry [OF Cons.prems(1) f] by blast
    then show ?case using Cons.IH Cons.prems(2) f by (cases o1) auto
  qed auto
  have run: "download_files L A prefx p s (name # names) (int (length b)) d0 = ((n, Some e), d')"
    using assms(3,4,5,7) by (simp add: DownloadDir_def)
  obtain k o1 d1 where f: "downloadFileZstd L A (objectPath prefx (blob_name name)) path s d0 = ((k, o1), d1)"
    by (metis prod.exhaust)
  have g: "gomap_ok d" using assms(1) by (simp add: disk_ok_def)
  have ok0: "disk_ok d0" by (rule os_MkdirAll_ok [OF os_RemoveAll_ok [OF assms(1)] assms(5)])
  have base: "prefix a (resolve p) \<Longrightarrow> a \<noteq> [] \<Longrightarrow> mget d0 a = Some DirNode" for a
    by (rule os_MkdirAll_made [OF assms(5)])
  have empty: "mget d0 (resolve p @ q) = None" if "q \<noteq> []" for q
  proof -
    have "mget d0 (resolve p @ q) = mget (os_RemoveAll p d) (resolve p @ q)"
      using os_MkdirAll_frame(4) [OF assms(5)] that by (metis append_Nil2 prefix_append same_prefix_nil)
    then show ?thesis by (simp add: os_RemoveAll_get [OF g])
  qed
  have t0: "partial_tree (resolve p) (\<lambda>_. []) {es} {} d0"
    unfolding partial_tree_def using ok0 base empty by (auto simp: strict_prefix_def prefix_def)
  have tn: "tree_names {es}" using es by (simp add: tree_names_def)
  obtain d2 where m: "os_MkdirAll (filepath_Dir path) d0 = (None, d2)"
    using os_MkdirAll_succeeds [of "filepath_Dir path" d0] tree_free [OF t0 tn, of es] rp(2) by auto
  note add = tree_add [OF t0 tn _ _ _ m rp(2)]
  have c: "os_Create path d2 = (None, mput (resolve p @ es) (FileNode []) d2)"
    using os_Create_succeeds [of path d2] add es(1) rp(1) by simp
  define d3 where "d3 = mput (resolve p @ es) (FileNode []) d2"
  have "\<exists>x. mget d3 (resolve p @ [hd es]) = Some x"
  proof (cases "tl es = []")
    case True
    then have "es = [hd es]" using es(1) by (metis list.collapse)
    then show ?thesis by (metis d3_def fun_upd_same mget_mput)
  next
    case False
    then have "prefix (resolve p @ [hd es]) (butlast (resolve p @ es))"
      using es(1) by (cases es) (auto simp: butlast_append)
    then show ?thesis using os_MkdirAll_made [OF m] rp(2) by (auto simp: d3_def)
  qed
  moreover have "d1 = d3 \<or> (\<exists>g. d1 = put_file path g d3)"
    using f m c by (auto simp: downloadFileZstd_def d3_def split: sum.splits prod.splits destination.splits)
  ultimately have "\<exists>x. mget d1 (resolve p @ [hd es]) = Some x" by (auto simp: put_file_def)
  then obtain x where "mget d1 (resolve p @ [hd es]) = Some x" ..
  then show ?thesis using run f keep [of d1] unfolding path_def by (cases o1) (auto simp: es_def)
qed

definition demo_manifest_only :: disk where
  "demo_manifest_only = [([''objs''], DirNode), ([''objs'', ''k''], DirNode),
     ([''objs'', ''k'', ''manifest.json''], FileNode (map Some (stored_names [''a''])))]"

definition escape_object :: bytes where
  "escape_object = sparseMagic @ le_bytes 4 sparseVersion @ zstd_magic @ le64 1 @ le64 0 @ le64 1 @ [7]
     @ le64 sparseEndOffset"

text \<open>
  The names of a manifest are trusted. A name with ".." in the manifest of an object prefix makes the
  download write a file outside the image directory.
\<close>

theorem manifest_name_escapes:
  "\<exists>n d'. DownloadDir stored_lib (fs_snaps ''/objs'') ''k'' ''/snap/u''
       [([''objs''], DirNode), ([''objs'', ''k''], DirNode),
        ([''objs'', ''k'', ''manifest.json''], FileNode (map Some (stored_names [''../../etc/x'']))),
        ([''etc''], DirNode), ([''etc'', ''x.zstd''], FileNode (map Some escape_object))] [] = ((n, None), d')
     \<and> mget d' [''etc'', ''x''] = Some (FileNode [Some 7])"
proof -
  define r where "r = DownloadDir stored_lib (fs_snaps ''/objs'') ''k'' ''/snap/u''
       [([''objs''], DirNode), ([''objs'', ''k''], DirNode),
        ([''objs'', ''k'', ''manifest.json''], FileNode (map Some (stored_names [''../../etc/x'']))),
        ([''etc''], DirNode), ([''etc'', ''x.zstd''], FileNode (map Some escape_object))] []"
  have "snd (fst r) = None \<and> mget (snd r) [''etc'', ''x''] = Some (FileNode [Some 7])"
    unfolding r_def by code_simp
  then show ?thesis unfolding r_def by (metis prod.collapse)
qed

end
