(* ===== verification/S3.thy ===== *)
theory S3
  imports SnapshotStore
begin

text \<open>
  The snapshot store on an S3-compatible service, \<open>internal/snapshotstore/s3.go\<close>. The client of the
  AWS library is a parameter; what the store relies on is what the service documents of
  \<open>PutObject\<close>, \<open>GetObject\<close> and \<open>DeleteObject\<close>.
\<close>

section \<open>The client\<close>

record put_object_input =
  piBucket :: string
  piKey :: string
  piBody :: stream
  piContentLength :: int

record 's s3_client =
  s3PutObject :: "put_object_input \<Rightarrow> 's \<Rightarrow> go_error option \<times> 's"
  s3GetObject :: "string \<Rightarrow> string \<Rightarrow> 's \<Rightarrow> stream result"
  s3DeleteObject :: "string \<Rightarrow> string \<Rightarrow> 's \<Rightarrow> go_error option \<times> 's"

record s3_options =
  soRegion :: string
  soAccessKey :: string
  soSecretKey :: string
  soBaseEndpoint :: string
  soUsePathStyle :: bool

section \<open>The store\<close>

record S3Config =
  scEndpoint :: string
  scRegion :: string
  scBucket :: string
  scAccessKey :: string
  scSecretKey :: string
  scPathStyle :: bool

record 's S3_store =
  s3Client :: "'s s3_client"
  s3Bucket :: string

definition NewS3 :: "(s3_options \<Rightarrow> 's s3_client) \<Rightarrow> S3Config \<Rightarrow> 's S3_store result" where
  "NewS3 dial cfg =
     (if scBucket cfg = '''' then Inl (Errorf ''s3 bucket required'')
      else
        let cfg = (if scRegion cfg = '''' then cfg\<lparr>scRegion := ''us-east-1''\<rparr> else cfg)
        in Inr \<lparr>s3Client = dial \<lparr>soRegion = scRegion cfg, soAccessKey = scAccessKey cfg,
                  soSecretKey = scSecretKey cfg, soBaseEndpoint = scEndpoint cfg,
                  soUsePathStyle = scPathStyle cfg\<rparr>,
                s3Bucket = scBucket cfg\<rparr>)"

definition S3_Put :: "'s S3_store \<Rightarrow> string \<Rightarrow> stream \<Rightarrow> int \<Rightarrow> 's \<Rightarrow> go_error option \<times> 's" where
  "S3_Put st key r n s =
     s3PutObject (s3Client st) \<lparr>piBucket = s3Bucket st, piKey = key, piBody = r, piContentLength = n\<rparr> s"

definition S3_Get :: "'s S3_store \<Rightarrow> string \<Rightarrow> 's \<Rightarrow> stream result" where
  "S3_Get st key s =
     (case s3GetObject (s3Client st) (s3Bucket st) key s of Inl e \<Rightarrow> Inl e | Inr body \<Rightarrow> Inr body)"

definition S3_Delete :: "'s S3_store \<Rightarrow> string \<Rightarrow> 's \<Rightarrow> go_error option \<times> 's" where
  "S3_Delete st key s = s3DeleteObject (s3Client st) (s3Bucket st) key s"

definition s3_snaps :: "'s S3_store \<Rightarrow> 's snap_api" where
  "s3_snaps st = \<lparr>snPut = S3_Put st, snGet = S3_Get st, snDelete = S3_Delete st\<rparr>"

section \<open>What the service promises\<close>

text \<open>
  The objects by bucket and key, in the states in which the service answers. A put or delete touches no
  other object; one that reports no error has its effect; a get returns the whole object.
\<close>

definition s3_service :: "'s s3_client \<Rightarrow> ('s \<Rightarrow> bool) \<Rightarrow> ('s \<Rightarrow> string \<times> string \<Rightarrow> bytes option) \<Rightarrow> bool" where
  "s3_service cl up objs \<longleftrightarrow>
     (\<forall>bk k b s e s'. up s \<longrightarrow>
        s3PutObject cl \<lparr>piBucket = bk, piKey = k, piBody = (b, None), piContentLength = int (length b)\<rparr> s = (e, s') \<longrightarrow>
        up s' \<and> (e = None \<longrightarrow> objs s' (bk, k) = Some b) \<and> (\<forall>x. x \<noteq> (bk, k) \<longrightarrow> objs s' x = objs s x))
   \<and> (\<forall>bk k s. up s \<longrightarrow>
        (case objs s (bk, k) of Some b \<Rightarrow> s3GetObject cl bk k s = Inr (b, None)
         | None \<Rightarrow> \<exists>e. s3GetObject cl bk k s = Inl e))
   \<and> (\<forall>bk k s e s'. up s \<longrightarrow> s3DeleteObject cl bk k s = (e, s') \<longrightarrow>
        up s' \<and> (e = None \<longrightarrow> objs s' (bk, k) = None) \<and> (\<forall>x. x \<noteq> (bk, k) \<longrightarrow> objs s' x = objs s x))"

lemma s3_put:
  assumes "s3_service cl up objs" "up s"
    and "s3PutObject cl \<lparr>piBucket = bk, piKey = k, piBody = (b, None), piContentLength = int (length b)\<rparr> s = (e, s')"
  shows "up s' \<and> (e = None \<longrightarrow> objs s' (bk, k) = Some b) \<and> (\<forall>x. x \<noteq> (bk, k) \<longrightarrow> objs s' x = objs s x)"
  using assms unfolding s3_service_def by blast

lemma s3_get:
  assumes "s3_service cl up objs" "up s"
  shows "case objs s (bk, k) of Some b \<Rightarrow> s3GetObject cl bk k s = Inr (b, None)
    | None \<Rightarrow> \<exists>e. s3GetObject cl bk k s = Inl e"
  using assms unfolding s3_service_def by blast

lemma s3_delete:
  assumes "s3_service cl up objs" "up s" "s3DeleteObject cl bk k s = (e, s')"
  shows "up s' \<and> (e = None \<longrightarrow> objs s' (bk, k) = None) \<and> (\<forall>x. x \<noteq> (bk, k) \<longrightarrow> objs s' x = objs s x)"
  using assms unfolding s3_service_def by blast

text \<open>On such a service the store keeps the contract of the snapshot stores, for every key.\<close>

lemma s3_object_store:
  assumes "s3_service (s3Client st) up objs"
  shows "object_store (s3_snaps st) up (\<lambda>s k. objs s (s3Bucket st, k)) (\<lambda>_. True)"
proof unfold_locales
  fix s k e s' and b :: bytes
  show "up s' \<and> (e = None \<longrightarrow> objs s' (s3Bucket st, k) = Some b)
      \<and> (\<forall>k'. True \<longrightarrow> k' \<noteq> k \<longrightarrow> objs s' (s3Bucket st, k') = objs s (s3Bucket st, k'))"
    if "up s" "snPut (s3_snaps st) k (b, None) (int (length b)) s = (e, s')"
    using s3_put [OF assms that(1), of "s3Bucket st" k b e s'] that(2) by (simp add: s3_snaps_def S3_Put_def)
  show "case objs s (s3Bucket st, k) of Some b \<Rightarrow> snGet (s3_snaps st) k s = Inr (b, None)
      | None \<Rightarrow> \<exists>e. snGet (s3_snaps st) k s = Inl e" if "up s"
    using s3_get [OF assms that, of "s3Bucket st" k]
    by (auto simp: s3_snaps_def S3_Get_def split: option.splits)
  show "up s' \<and> (e = None \<longrightarrow> objs s' (s3Bucket st, k) = None)
      \<and> (\<forall>k'. True \<longrightarrow> k' \<noteq> k \<longrightarrow> objs s' (s3Bucket st, k') = objs s (s3Bucket st, k'))"
    if "up s" "snDelete (s3_snaps st) k s = (e, s')"
    using s3_delete [OF assms that(1), of "s3Bucket st" k e s'] that(2) by (simp add: s3_snaps_def S3_Delete_def)
qed

lemma s3_prefix [simp]: "prefix_keys (\<lambda>_. True) prefx"
  by (simp add: prefix_keys_def)

section \<open>A service to evaluate with\<close>

type_synonym s3_cells = "(string \<times> string, bytes) gomap"

definition s3_memory :: "s3_cells s3_client" where
  "s3_memory =
     \<lparr>s3PutObject = (\<lambda>inp s.
        if int (length (fst (piBody inp))) = piContentLength inp
        then (None, mput (piBucket inp, piKey inp) (fst (piBody inp)) s)
        else (Some (Errorf ''IncompleteBody''), s)),
      s3GetObject = (\<lambda>bk k s. case mget s (bk, k) of None \<Rightarrow> Inl (Errorf ''NoSuchKey'') | Some b \<Rightarrow> Inr (b, None)),
      s3DeleteObject = (\<lambda>bk k s. (None, mdel (bk, k) s))\<rparr>"

lemma s3_memory_service: "s3_service s3_memory (\<lambda>s. True) mget"
  by (auto simp: s3_service_def s3_memory_def split: option.split)

end
