(* ===== verification/Gvisor.thy ===== *)
theory Gvisor
  imports HostDisk GoText
begin

text \<open>
  The gVisor backend \<open>internal/runtime/gvisor/gvisor.go\<close>: what each operation does to the files of a
  worker and which commands it runs, in order. The commands themselves (\<open>runsc\<close>, \<open>cp\<close>) are external:
  running one is a parameter, with an error, the two outputs, and any effect on the files and the
  processes. A command that its context kills returns an error like any other.
\<close>

section \<open>Parameters and configuration\<close>

record gv_config =
  gvRunscPath :: string
  gvStateDir :: string
  gvBundleDir :: string
  gvRootfs :: string
  gvPlatform :: string
  gvNetwork :: string
  gvTimeout :: duration

text \<open>The bundle specification that \<open>writeBundle\<close> marshals; the constant parts are spelled out below.\<close>

record oci_spec =
  ociVersion :: string
  ociArgs :: "string list"
  ociEnv :: "string list"
  ociCwd :: string
  ociRootPath :: string
  ociReadonly :: bool
  ociHostname :: string
  ociNamespaces :: "string list"

record 'p machine =
  mcDisk :: disk
  mcProcs :: 'p

record 'p commands =
  cmRun :: "string \<Rightarrow> string list \<Rightarrow> 'p machine \<Rightarrow> (go_error option \<times> string \<times> string) \<times> 'p machine"
  cmLookPath :: "string \<Rightarrow> go_error option"
  cmMarshal :: "oci_spec \<Rightarrow> bytes"

definition on_disk :: "(disk \<Rightarrow> 'r \<times> disk) \<Rightarrow> 'p machine \<Rightarrow> 'r \<times> 'p machine" where
  "on_disk f m = (case f (mcDisk m) of (r, d) \<Rightarrow> (r, m\<lparr>mcDisk := d\<rparr>))"

definition remove_all :: "string \<Rightarrow> 'p machine \<Rightarrow> 'p machine" where
  "remove_all p m = m\<lparr>mcDisk := os_RemoveAll p (mcDisk m)\<rparr>"

text \<open>\<open>os.Stat\<close>.\<close>

definition os_Stat :: "string \<Rightarrow> disk \<Rightarrow> node result" where
  "os_Stat p d =
     (if resolve p = [] then Inr DirNode
      else case mget d (resolve p) of
        None \<Rightarrow> Inl (path_error ''stat'' p ''no such file or directory'')
      | Some nd \<Rightarrow> Inr nd)"

definition os_WriteFile :: "string \<Rightarrow> bytes \<Rightarrow> disk \<Rightarrow> go_error option \<times> disk" where
  "os_WriteFile p bs d =
     (case os_Create p d of (Some e, d) \<Rightarrow> (Some e, d) | (None, d) \<Rightarrow> (None, put_file p (map Some bs) d))"

definition or_default :: "string \<Rightarrow> string \<Rightarrow> string" where
  "or_default v def = (if v = '''' then def else v)"

definition gv_defaults :: "gv_config \<Rightarrow> gv_config" where
  "gv_defaults c =
     \<lparr>gvRunscPath = or_default (gvRunscPath c) ''runsc'',
      gvStateDir = or_default (gvStateDir c) ''/var/lib/actordock/runsc'',
      gvBundleDir = or_default (gvBundleDir c) ''/var/lib/actordock/bundles'',
      gvRootfs = or_default (gvRootfs c) ''/opt/actordock/rootfs'',
      gvPlatform = or_default (gvPlatform c) ''systrap'',
      gvNetwork = or_default (gvNetwork c) ''none'',
      gvTimeout = (if gvTimeout c \<le> 0 then 45 * second else gvTimeout c)\<rparr>"

definition gv_New :: "'p commands \<Rightarrow> gv_config \<Rightarrow> 'p machine \<Rightarrow> gv_config result \<times> 'p machine" where
  "gv_New C cfg m =
     (let cfg = gv_defaults cfg in
      case on_disk (os_MkdirAll (gvStateDir cfg)) m of
        (Some e, m) \<Rightarrow> (Inl e, m)
      | (None, m) \<Rightarrow>
          (case on_disk (os_MkdirAll (gvBundleDir cfg)) m of
             (Some e, m) \<Rightarrow> (Inl e, m)
           | (None, m) \<Rightarrow>
               (case os_Stat (gvRootfs cfg) (mcDisk m) of
                  Inl e \<Rightarrow> (Inl (Wrap (''rootfs '' @ go_quote (gvRootfs cfg) @ '': '') e ''''), m)
                | Inr _ \<Rightarrow>
                    (case cmLookPath C (gvRunscPath cfg) of
                       Some e \<Rightarrow> (Inl (Wrap (''runsc binary '' @ go_quote (gvRunscPath cfg) @ '': '') e ''''), m)
                     | None \<Rightarrow> (Inr cfg, m)))))"

section \<open>Commands\<close>

definition rootFor :: "gv_config \<Rightarrow> string \<Rightarrow> string" where
  "rootFor cfg sid = filepath_Join [gvStateDir cfg, sid]"

definition bundlePath :: "gv_config \<Rightarrow> string \<Rightarrow> string" where
  "bundlePath cfg sid = filepath_Join [gvBundleDir cfg, sid]"

definition runsc ::
    "'p commands \<Rightarrow> gv_config \<Rightarrow> string list \<Rightarrow> 'p machine \<Rightarrow> go_error option \<times> 'p machine" where
  "runsc C cfg args m =
     (let full = [''-log-format'', ''json'', ''--alsologtostderr'', ''-platform'', gvPlatform cfg,
                  ''-network'', gvNetwork cfg] @ args
      in case cmRun C (gvRunscPath cfg) full m of
           ((Some e, _, _), m) \<Rightarrow> (Some (Wrap (''runsc '' @ join_space args @ '': '') e ''''), m)
         | ((None, _, _), m) \<Rightarrow> (None, m))"

definition prepareRootfs ::
    "'p commands \<Rightarrow> gv_config \<Rightarrow> string \<Rightarrow> string \<Rightarrow> 'p machine \<Rightarrow> string result \<times> 'p machine" where
  "prepareRootfs C cfg sid template m =
     (let template = (if template = '''' then gvRootfs cfg else template);
          dest = filepath_Join [bundlePath cfg sid, ''rootfs''];
          m = remove_all dest m
      in case on_disk (os_MkdirAll (bundlePath cfg sid)) m of
           (Some e, m) \<Rightarrow> (Inl e, m)
         | (None, m) \<Rightarrow>
             (case cmRun C ''cp'' [''-a'', template, dest] m of
                ((Some e, out, errout), m) \<Rightarrow>
                  (Inl (Wrap (''cp rootfs '' @ go_quote template @ '' -> '' @ go_quote dest @ '': '') e
                     ('' ('' @ strings_TrimSpace (out @ errout) @ '')'')), m)
              | ((None, _, _), m) \<Rightarrow> (Inr dest, m)))"

definition bundle_spec :: "string \<Rightarrow> string \<Rightarrow> oci_spec" where
  "bundle_spec sid rootfs =
     \<lparr>ociVersion = ''1.0.2'', ociArgs = [''/bin/sleep'', ''infinity''],
      ociEnv = [''PATH=/usr/local/sbin:/usr/local/bin:/usr/sbin:/usr/bin:/sbin:/bin''], ociCwd = ''/'',
      ociRootPath = rootfs, ociReadonly = False, ociHostname = sid,
      ociNamespaces = [''pid'', ''ipc'', ''uts'', ''mount'']\<rparr>"

definition writeBundle ::
    "'p commands \<Rightarrow> gv_config \<Rightarrow> string \<Rightarrow> string \<Rightarrow> 'p machine \<Rightarrow> go_error option \<times> 'p machine" where
  "writeBundle C cfg sid template m =
     (case prepareRootfs C cfg sid template m of
        (Inl e, m) \<Rightarrow> (Some e, m)
      | (Inr rootfs, m) \<Rightarrow>
          on_disk (os_WriteFile (filepath_Join [bundlePath cfg sid, ''config.json''])
            (cmMarshal C (bundle_spec sid rootfs))) m)"

section \<open>Operations\<close>

definition gv_Boot ::
    "'p commands \<Rightarrow> gv_config \<Rightarrow> string \<Rightarrow> string \<Rightarrow> 'p machine \<Rightarrow> go_error option \<times> 'p machine" where
  "gv_Boot C cfg sid rootfs m =
     (let root = rootFor cfg sid;
          m = remove_all (bundlePath cfg sid) (remove_all root m)
      in case on_disk (os_MkdirAll root) m of
           (Some e, m) \<Rightarrow> (Some e, m)
         | (None, m) \<Rightarrow>
             (case writeBundle C cfg sid rootfs m of
                (Some e, m) \<Rightarrow> (Some e, m)
              | (None, m) \<Rightarrow>
                  (case runsc C cfg [''-root'', root, ''create'', ''-bundle'', bundlePath cfg sid, sid] m of
                     (Some e, m) \<Rightarrow> (Some e, m)
                   | (None, m) \<Rightarrow>
                       (case runsc C cfg [''-root'', root, ''-allow-connected-on-save'', ''start'', sid] m of
                          (Some e, m) \<Rightarrow>
                            (Some e, snd (runsc C cfg [''-root'', root, ''delete'', ''-force'', sid] m))
                        | (None, m) \<Rightarrow> (None, m)))))"

definition gv_Checkpoint ::
    "'p commands \<Rightarrow> gv_config \<Rightarrow> string \<Rightarrow> string \<Rightarrow> 'p machine \<Rightarrow> go_error option \<times> 'p machine" where
  "gv_Checkpoint C cfg sid imagePath m =
     (case on_disk (os_MkdirAll imagePath) (remove_all imagePath m) of
        (Some e, m) \<Rightarrow> (Some e, m)
      | (None, m) \<Rightarrow>
          let root = rootFor cfg sid in
          case runsc C cfg [''-root'', root, ''checkpoint'', ''-image-path'', imagePath, sid] m of
            (Some e, m) \<Rightarrow> (Some e, m)
          | (None, m) \<Rightarrow> (None, snd (runsc C cfg [''-root'', root, ''delete'', ''-force'', sid] m)))"

definition gv_Restore ::
    "'p commands \<Rightarrow> gv_config \<Rightarrow> string \<Rightarrow> string \<Rightarrow> 'p machine \<Rightarrow> go_error option \<times> 'p machine" where
  "gv_Restore C cfg sid imagePath m =
     (let root = rootFor cfg sid in
      case on_disk (os_MkdirAll root) (remove_all root m) of
        (Some e, m) \<Rightarrow> (Some e, m)
      | (None, m) \<Rightarrow>
          (case writeBundle C cfg sid '''' m of
             (Some e, m) \<Rightarrow> (Some e, m)
           | (None, m) \<Rightarrow>
               runsc C cfg [''-root'', root, ''-allow-connected-on-save'', ''restore'', ''-bundle'',
                 bundlePath cfg sid, ''-image-path'', imagePath, ''-background'', ''-direct'', ''-detach'',
                 sid] m))"

definition gv_Delete ::
    "'p commands \<Rightarrow> gv_config \<Rightarrow> string \<Rightarrow> 'p machine \<Rightarrow> go_error option \<times> 'p machine" where
  "gv_Delete C cfg sid m =
     (let root = rootFor cfg sid;
          m = snd (runsc C cfg [''-root'', root, ''kill'', sid, ''SIGKILL''] m);
          m = snd (runsc C cfg [''-root'', root, ''delete'', ''-force'', sid] m)
      in (None, remove_all (bundlePath cfg sid) (remove_all root m)))"

definition gv_Exists ::
    "'p commands \<Rightarrow> gv_config \<Rightarrow> string \<Rightarrow> 'p machine \<Rightarrow> bool result \<times> 'p machine" where
  "gv_Exists C cfg sid m =
     (case cmRun C (gvRunscPath cfg) [''-platform'', gvPlatform cfg, ''-network'', gvNetwork cfg,
         ''-root'', rootFor cfg sid, ''state'', sid] m of
        ((Some _, _, _), m) \<Rightarrow> (Inr False, m)
      | ((None, _, _), m) \<Rightarrow> (Inr True, m))"

text \<open>\<open>%v\<close> of a string slice.\<close>

definition show_argv :: "string list \<Rightarrow> string" where
  "show_argv argv = ''['' @ join_space argv @ '']''"

definition gv_Exec ::
    "'p commands \<Rightarrow> gv_config \<Rightarrow> string \<Rightarrow> string list \<Rightarrow> 'p machine \<Rightarrow> string result \<times> 'p machine" where
  "gv_Exec C cfg sid argv m =
     (if argv = [] then (Inl (Errorf ''argv required''), m)
      else case cmRun C (gvRunscPath cfg) ([''-platform'', gvPlatform cfg, ''-network'', gvNetwork cfg,
              ''-root'', rootFor cfg sid, ''exec'', sid] @ argv) m of
        ((Some e, _, errout), m) \<Rightarrow>
          (Inl (Wrap (''runsc exec '' @ sid @ '' '' @ show_argv argv @ '': '') e
             ('' ('' @ strings_TrimSpace errout @ '')'')), m)
      | ((None, out, _), m) \<Rightarrow> (Inr out, m))"

section \<open>Well-formed files\<close>

text \<open>What is asked of a command: the files it leaves form a tree again.\<close>

definition tidy :: "'p commands \<Rightarrow> bool" where
  "tidy C \<longleftrightarrow> (\<forall>prog args m r m'. disk_ok (mcDisk m) \<longrightarrow> cmRun C prog args m = (r, m') \<longrightarrow> disk_ok (mcDisk m'))"

lemma tidyD: "tidy C \<Longrightarrow> cmRun C prog args m = (r, m') \<Longrightarrow> disk_ok (mcDisk m) \<Longrightarrow> disk_ok (mcDisk m')"
  unfolding tidy_def by blast

lemma remove_all_ok: "disk_ok (mcDisk m) \<Longrightarrow> disk_ok (mcDisk (remove_all p m))"
  by (simp add: remove_all_def os_RemoveAll_ok)

lemma on_disk_ok:
  "on_disk f m = (r, m') \<Longrightarrow> (\<And>r' d. f (mcDisk m) = (r', d) \<Longrightarrow> disk_ok d) \<Longrightarrow> disk_ok (mcDisk m')"
  by (auto simp: on_disk_def split: prod.splits)

lemma mkdir_ok: "on_disk (os_MkdirAll p) m = (r, m') \<Longrightarrow> disk_ok (mcDisk m) \<Longrightarrow> disk_ok (mcDisk m')"
  by (erule on_disk_ok) (rule os_MkdirAll_ok)

lemma runsc_ok: "tidy C \<Longrightarrow> runsc C cfg args m = (e, m') \<Longrightarrow> disk_ok (mcDisk m) \<Longrightarrow> disk_ok (mcDisk m')"
  by (auto simp: runsc_def Let_def split: prod.splits option.splits dest: tidyD)

lemma runsc_snd_ok: "tidy C \<Longrightarrow> disk_ok (mcDisk m) \<Longrightarrow> disk_ok (mcDisk (snd (runsc C cfg args m)))"
  by (metis prod.collapse runsc_ok)

lemma os_WriteFile_ok: "disk_ok d \<Longrightarrow> os_WriteFile p bs d = (e, d') \<Longrightarrow> disk_ok d'"
  using os_Create_effect [of d p] by (auto simp: os_WriteFile_def split: prod.splits option.splits)

lemma writeBundle_ok:
  assumes "tidy C" "disk_ok (mcDisk m)" "writeBundle C cfg sid t m = (e, m')"
  shows "disk_ok (mcDisk m')"
proof -
  obtain r m1 where p: "prepareRootfs C cfg sid t m = (r, m1)" by (cases "prepareRootfs C cfg sid t m")
  have m1: "disk_ok (mcDisk m1)"
    using p assms(1) remove_all_ok [OF assms(2)]
    by (auto simp: prepareRootfs_def Let_def split: prod.splits option.splits dest: mkdir_ok tidyD)
  show ?thesis
  proof (cases r)
    case (Inl x)
    then show ?thesis using assms(3) p m1 by (simp add: writeBundle_def)
  next
    case (Inr rootfs)
    then have "on_disk (os_WriteFile (filepath_Join [bundlePath cfg sid, ''config.json''])
        (cmMarshal C (bundle_spec sid rootfs))) m1 = (e, m')"
      using assms(3) p by (simp add: writeBundle_def)
    then show ?thesis by (rule on_disk_ok) (rule os_WriteFile_ok [OF m1])
  qed
qed

lemma gv_Checkpoint_ok:
  assumes "tidy C" "disk_ok (mcDisk m)" "gv_Checkpoint C cfg sid img m = (e, m')"
  shows "disk_ok (mcDisk m')"
  using assms(3) remove_all_ok [OF assms(2), of img] runsc_snd_ok [OF assms(1)] assms(1)
  by (auto simp: gv_Checkpoint_def Let_def split: prod.splits option.splits dest: mkdir_ok runsc_ok)

lemma gv_Restore_ok:
  assumes "tidy C" "disk_ok (mcDisk m)" "gv_Restore C cfg sid img m = (e, m')"
  shows "disk_ok (mcDisk m')"
  using assms(3) remove_all_ok [OF assms(2), of "rootFor cfg sid"] assms(1)
  by (auto simp: gv_Restore_def Let_def split: prod.splits option.splits dest: mkdir_ok runsc_ok writeBundle_ok)

lemma gv_Boot_ok:
  assumes "tidy C" "disk_ok (mcDisk m)" "gv_Boot C cfg sid t m = (e, m')"
  shows "disk_ok (mcDisk m')"
proof -
  have run: "runsc C cfg args m = (e, m') \<Longrightarrow> disk_ok (mcDisk m) \<Longrightarrow> disk_ok (mcDisk m')" for args m e m'
    by (rule runsc_ok [OF assms(1)])
  have wb: "writeBundle C cfg sid t m = (e, m') \<Longrightarrow> disk_ok (mcDisk m) \<Longrightarrow> disk_ok (mcDisk m')" for m e m'
    by (rule writeBundle_ok [OF assms(1)])
  show ?thesis
    using assms(3) remove_all_ok [OF remove_all_ok [OF assms(2), of "rootFor cfg sid"], of "bundlePath cfg sid"]
      runsc_snd_ok [OF assms(1)]
    by (auto simp: gv_Boot_def Let_def split: prod.splits option.splits dest!: mkdir_ok run wb)
qed

lemma gv_Delete_ok:
  assumes "tidy C" "disk_ok (mcDisk m)"
  shows "disk_ok (mcDisk (snd (gv_Delete C cfg sid m)))"
  using assms by (simp add: gv_Delete_def Let_def remove_all_ok runsc_snd_ok)

lemma gv_Exec_ok:
  "tidy C \<Longrightarrow> disk_ok (mcDisk m) \<Longrightarrow> gv_Exec C cfg sid argv m = (r, m') \<Longrightarrow> disk_ok (mcDisk m')"
  by (auto simp: gv_Exec_def split: prod.splits option.splits if_splits dest: tidyD)

section \<open>The image directory of a checkpoint\<close>

lemma emptied_directory:
  assumes "disk_ok d" "os_MkdirAll p (os_RemoveAll p d) = (None, d')" "es \<noteq> []"
  shows "mget d' (resolve p @ es) = None"
proof -
  have g: "gomap_ok d" using assms(1) by (simp add: disk_ok_def)
  have "\<not> prefix (resolve p @ es) (resolve p)" using assms(3) by simp
  then have "mget d' (resolve p @ es) = mget (os_RemoveAll p d) (resolve p @ es)"
    using os_MkdirAll_frame(4) [OF assms(2)] by blast
  then show ?thesis by (simp add: os_RemoveAll_get [OF g])
qed

text \<open>
  C39: checkpoint images are fresh. A checkpoint that succeeds has run \<open>runsc checkpoint\<close> on a machine
  whose image directory existed and was empty, so no file of an earlier checkpoint is left in the image,
  and has then force-deleted the container, whatever that command answered.
\<close>

theorem checkpoint_image_fresh:
  assumes "disk_ok (mcDisk m)" and "gv_Checkpoint C cfg sid img m = (None, m')"
  shows "\<exists>m1 m2. (\<forall>es. es \<noteq> [] \<longrightarrow> mget (mcDisk m1) (resolve img @ es) = None)
    \<and> (resolve img = [] \<or> mget (mcDisk m1) (resolve img) = Some DirNode) \<and> mcProcs m1 = mcProcs m
    \<and> runsc C cfg [''-root'', rootFor cfg sid, ''checkpoint'', ''-image-path'', img, sid] m1 = (None, m2)
    \<and> m' = snd (runsc C cfg [''-root'', rootFor cfg sid, ''delete'', ''-force'', sid] m2)"
proof -
  obtain d1 where mk: "os_MkdirAll img (os_RemoveAll img (mcDisk m)) = (None, d1)"
    using assms(2) by (auto simp: gv_Checkpoint_def on_disk_def remove_all_def split: prod.splits option.splits)
  define m1 where "m1 = m\<lparr>mcDisk := d1\<rparr>"
  have eq: "on_disk (os_MkdirAll img) (remove_all img m) = (None, m1)"
    by (simp add: on_disk_def remove_all_def mk m1_def)
  obtain m2 where "runsc C cfg [''-root'', rootFor cfg sid, ''checkpoint'', ''-image-path'', img, sid] m1 = (None, m2)"
    "m' = snd (runsc C cfg [''-root'', rootFor cfg sid, ''delete'', ''-force'', sid] m2)"
    using assms(2) by (auto simp: gv_Checkpoint_def eq Let_def split: prod.splits option.splits)
  moreover have "resolve img = [] \<or> mget (mcDisk m1) (resolve img) = Some DirNode"
    using os_MkdirAll_made [OF mk] by (auto simp: m1_def)
  moreover have "\<forall>es. es \<noteq> [] \<longrightarrow> mget (mcDisk m1) (resolve img @ es) = None" "mcProcs m1 = mcProcs m"
    using emptied_directory [OF assms(1) mk] by (simp_all add: m1_def)
  ultimately show ?thesis by blast
qed

text \<open>
  Commands to evaluate with: the list of the processes, and a \<open>runsc\<close> that writes one file on
  \<open>checkpoint\<close> and needs the image directory on \<open>restore\<close>.
\<close>

definition demo_run ::
    "string \<Rightarrow> string list \<Rightarrow> (string list) machine \<Rightarrow>
     (go_error option \<times> string \<times> string) \<times> (string list) machine" where
  "demo_run prog args m =
     (let sid = last args in
      if list_ex (\<lambda>a. a = ''checkpoint'') args then
        (if sid \<in> set (mcProcs m) then
           (case os_WriteFile (filepath_Join [args ! (length args - 2), ''checkpoint.img'']) [1, 2] (mcDisk m) of
              (e, d) \<Rightarrow> ((e, '''', ''''), m\<lparr>mcDisk := d\<rparr>))
         else ((Some (Errorf ''exit status 128''), '''', ''container does not exist''), m))
      else if list_ex (\<lambda>a. a = ''restore'' \<or> a = ''create'') args
      then ((None, '''', ''''), m\<lparr>mcProcs := sid # mcProcs m\<rparr>)
      else if list_ex (\<lambda>a. a = ''delete'') args
      then ((None, '''', ''''), m\<lparr>mcProcs := removeAll sid (mcProcs m)\<rparr>)
      else ((None, '''', ''''), m))"

definition demo_commands :: "(string list) commands" where
  "demo_commands = \<lparr>cmRun = demo_run, cmLookPath = (\<lambda>_. None), cmMarshal = (\<lambda>_. [])\<rparr>"

definition demo_gv :: gv_config where
  "demo_gv = gv_defaults \<lparr>gvRunscPath = '''', gvStateDir = '''', gvBundleDir = '''', gvRootfs = '''',
     gvPlatform = '''', gvNetwork = '''', gvTimeout = 0\<rparr>"

definition demo_machine :: "string list \<Rightarrow> (string list) machine" where
  "demo_machine procs = \<lparr>mcDisk = [([''img''], DirNode), ([''img'', ''old''], FileNode [])], mcProcs = procs\<rparr>"

lemma demo_tidy: "tidy demo_commands"
  by (auto simp: tidy_def demo_commands_def demo_run_def Let_def split: prod.splits if_splits dest: os_WriteFile_ok)

lemma demo_machine_ok: "disk_ok (mcDisk (demo_machine procs))"
  by (simp add: demo_machine_def disk_ok_def gomap_ok_def ancestors_def plain_name_def upt_rec numeral_2_eq_2)

theorem checkpoint_image_fresh_witness:
  "\<exists>m'. gv_Checkpoint demo_commands demo_gv ''u'' ''/img'' (demo_machine [''u'']) = (None, m')
     \<and> (\<exists>m1 :: (string list) machine. mget (mcDisk m1) (resolve ''/img'' @ [''old'']) = None)"
proof -
  define r where "r = gv_Checkpoint demo_commands demo_gv ''u'' ''/img'' (demo_machine [''u''])"
  have "fst r = None" unfolding r_def by code_simp
  then obtain m' where run: "gv_Checkpoint demo_commands demo_gv ''u'' ''/img'' (demo_machine [''u'']) = (None, m')"
    unfolding r_def by (metis prod.collapse)
  from checkpoint_image_fresh [OF demo_machine_ok run] run show ?thesis by blast
qed

end
