(* ===== verification/WorkerHost.thy ===== *)
theory WorkerHost
  imports Gvisor SnapshotStore WorkerServer
begin

text \<open>
  The worker as \<open>cmd/worker/main.go\<close> builds it: the handlers of the worker server on the gVisor backend,
  the local files and an object store. It instantiates the host that the server is modelled over.
\<close>

section \<open>The host\<close>

record ('p, 's) worker_host =
  whMachine :: "'p machine"
  whObjects :: 's

definition on_machine ::
    "('p machine \<Rightarrow> 'r \<times> 'p machine) \<Rightarrow> ('p, 's) worker_host \<Rightarrow> 'r \<times> ('p, 's) worker_host" where
  "on_machine f h = (case f (whMachine h) of (r, m) \<Rightarrow> (r, h\<lparr>whMachine := m\<rparr>))"

definition host_disk :: "('p, 's) worker_host \<Rightarrow> disk" where
  "host_disk h = mcDisk (whMachine h)"

text \<open>\<open>os.ReadDir\<close>: the names in a directory.\<close>

definition dir_entries :: "string \<Rightarrow> disk \<Rightarrow> string list" where
  "dir_entries p d =
     sort (map last (filter (\<lambda>q. q \<noteq> [] \<and> butlast q = resolve p) (map fst d)))"

definition is_dir :: "string \<Rightarrow> disk \<Rightarrow> bool" where
  "is_dir p d = (case os_Stat p d of Inr nd \<Rightarrow> nd = DirNode | Inl _ \<Rightarrow> False)"

definition node_bytes :: "node \<Rightarrow> nat" where
  "node_bytes nd = (case nd of FileNode f \<Rightarrow> length f | _ \<Rightarrow> 0)"

definition dirSize :: "string \<Rightarrow> disk \<Rightarrow> 64 word" where
  "dirSize rootd d =
     (if rootd = '''' then 0
      else fold (\<lambda>(q, nd) t. t + of_nat (node_bytes nd))
             (filter (\<lambda>(q, nd). prefix (resolve rootd) q \<and> nd \<noteq> DirNode) d) 0)"

definition transfer_result :: "int \<times> go_error option \<Rightarrow> int result" where
  "transfer_result r = (case r of (n, Some e) \<Rightarrow> Inl e | (n, None) \<Rightarrow> Inr n)"

definition agent_host ::
    "'p commands \<Rightarrow> gv_config \<Rightarrow> snap_lib \<Rightarrow> 's snap_api option \<Rightarrow> ('p, 's) worker_host host_api" where
  "agent_host C cfg L snaps =
     \<lparr>hoBoot = (\<lambda>sid. on_machine (gv_Boot C cfg sid '''')),
      hoCheckpoint = (\<lambda>sid img. on_machine (gv_Checkpoint C cfg sid img)),
      hoRestore = (\<lambda>sid img. on_machine (gv_Restore C cfg sid img)),
      hoDelete = (\<lambda>sid. on_machine (gv_Delete C cfg sid)),
      hoExec = (\<lambda>sid argv. on_machine (gv_Exec C cfg sid argv)),
      hoIsDir = (\<lambda>p h. is_dir p (host_disk h)),
      hoReadDir = (\<lambda>p h. dir_entries p (host_disk h)),
      hoDirSize = (\<lambda>p h. dirSize p (host_disk h)),
      hoHasSnaps = (snaps \<noteq> None),
      hoUploadDir = (\<lambda>p key h. case snaps of
          None \<Rightarrow> (Inl (Errorf ''nil snapshot store''), h)
        | Some A \<Rightarrow>
            (case UploadDir L A p key (host_disk h) (whObjects h) of
               (r, s) \<Rightarrow> (transfer_result r, h\<lparr>whObjects := s\<rparr>))),
      hoDownloadDir = (\<lambda>key p h. case snaps of
          None \<Rightarrow> (Inl (Errorf ''nil snapshot store''), h)
        | Some A \<Rightarrow>
            (case DownloadDir L A key p (whObjects h) (host_disk h) of
               (r, d) \<Rightarrow> (transfer_result r, h\<lparr>whMachine := (whMachine h)\<lparr>mcDisk := d\<rparr>\<rparr>)))\<rparr>"

section \<open>Suspend here, resume there\<close>

lemma dir_entries_mem: "mget d (resolve p @ [x]) = Some nd \<Longrightarrow> x \<in> set (dir_entries p d)"
  by (force simp: dir_entries_def image_iff dest: map_of_SomeD)

text \<open>A successful suspend uploaded the directory as it is afterwards.\<close>

lemma checkpoint_uploaded:
  assumes "handleCheckpoint (agent_host C cfg L (Some A)) d sid (Some (img, key)) s = (HttpOK c n, s')"
    and "key \<noteq> ''''" "tidy C" "disk_ok (host_disk (wsHost s))"
  shows "\<exists>t o0. UploadDir L A img key (host_disk (wsHost s')) o0 = ((t, None), whObjects (wsHost s'))
      \<and> disk_ok (host_disk (wsHost s')) \<and> o0 = whObjects (wsHost s)"
proof -
  define s1 where "s1 = setCheckpointing sid True s"
  have img: "img \<noteq> ''''" using assms(1) by (auto simp: handleCheckpoint_def split: if_splits)
  obtain r s2 where body: "checkpoint_body (agent_host C cfg L (Some A)) d sid img key s1 = (r, s2)"
    by (cases "checkpoint_body (agent_host C cfg L (Some A)) d sid img key s1")
  have r: "r = HttpOK c n" "s' = setCheckpointing sid False s2"
    using assms(1) img body by (simp_all add: handleCheckpoint_def s1_def)
  obtain e m where ck: "gv_Checkpoint C cfg sid img (whMachine (wsHost s)) = (e, m)"
    by (cases "gv_Checkpoint C cfg sid img (whMachine (wsHost s))")
  obtain t e2 o1 where up: "UploadDir L A img key (mcDisk m) (whObjects (wsHost s)) = ((t, e2), o1)"
    by (metis prod.exhaust)
  have "e = None \<and> e2 = None \<and> wsHost s2 = (wsHost s)\<lparr>whMachine := m, whObjects := o1\<rparr>"
    using body r(1) assms(2) ck up
    by (cases e; cases e2) (auto simp: checkpoint_body_def agent_host_def on_machine_def transfer_result_def
        host_disk_def s1_def Let_def)
  then have h: "e = None" "e2 = None" "wsHost s' = (wsHost s)\<lparr>whMachine := m, whObjects := o1\<rparr>"
    by (simp_all add: r(2))
  have "disk_ok (mcDisk m)" using gv_Checkpoint_ok [OF assms(3) _ ck] assms(4) by (simp add: host_disk_def)
  then show ?thesis using up h by (simp add: host_disk_def)
qed

lemma restore_downloads:
  assumes "slot_ok s" "ws_slot s \<in> {None, Some sid}" "img \<noteq> ''''" "key \<noteq> ''''"
    and "is_dir img (host_disk (wsHost s)) \<Longrightarrow> dir_entries img (host_disk (wsHost s)) = []"
    and "DownloadDir L A key img (whObjects (wsHost s)) (host_disk (wsHost s)) = ((n, None), d')"
  shows "\<exists>hB. handleRestore (agent_host C cfg L (Some A)) now d sid (Some (img, key)) s =
      restore_run (agent_host C cfg L (Some A)) now sid img
        (s\<lparr>wsAlive := [(sid, ())], wsHost := hB, wsMetrics := RecordTransfer ''download'' d n (wsMetrics s)\<rparr>)
    \<and> host_disk hB = d' \<and> mcProcs (whMachine hB) = mcProcs (whMachine (wsHost s)) \<and> whObjects hB = whObjects (wsHost s)"
proof -
  define hB where "hB = (wsHost s)\<lparr>whMachine := (whMachine (wsHost s))\<lparr>mcDisk := d'\<rparr>\<rparr>"
  have "hoDownloadDir (agent_host C cfg L (Some A)) key img (wsHost s) = (Inr n, hB)"
    using assms(6) by (simp add: agent_host_def transfer_result_def hB_def)
  moreover have "hoHasSnaps (agent_host C cfg L (Some A))" by (simp add: agent_host_def)
  moreover have "hoIsDir (agent_host C cfg L (Some A)) img (wsHost s) \<Longrightarrow>
      hoReadDir (agent_host C cfg L (Some A)) img (wsHost s) = []"
    using assms(5) by (simp add: agent_host_def)
  ultimately have "handleRestore (agent_host C cfg L (Some A)) now d sid (Some (img, key)) s =
      restore_run (agent_host C cfg L (Some A)) now sid img
        (s\<lparr>wsAlive := [(sid, ())], wsHost := hB, wsMetrics := RecordTransfer ''download'' d n (wsMetrics s)\<rparr>)"
    using assms(1-4) by (auto simp: handleRestore_def claim_result Let_def)
  then show ?thesis by (auto simp: hB_def host_disk_def)
qed

text \<open>The two workers may be configured differently; they share the library and the objects.\<close>

lemma resume_elsewhere:
  assumes "zstd_codec (lbEncode L) (lbDecode L)" and "\<forall>fs. lbUnmarshal L (lbMarshal L fs) = Inr fs"
    and "object_store A ok objs key_ok" and "prefix_keys key_ok key" and "key \<noteq> ''''"
    and "tidy CA" and "rooted imgA" and "disk_ok (host_disk (wsHost a))" and "ok (whObjects (wsHost a))"
    and "handleCheckpoint (agent_host CA cfgA L (Some A)) t sid (Some (imgA, key)) a = (HttpOK c n, a')"
    and "\<forall>q f. mget (host_disk (wsHost a')) q = Some (FileNode f) \<longrightarrow> in_int64 (int (length f))"
    and "slot_ok b" and "ws_slot b = None" and "rooted imgB" and "disk_ok (host_disk (wsHost b))"
    and "\<forall>q\<in>set (ancestors (resolve imgB)). dir_or_free (host_disk (wsHost b)) q"
    and "is_dir imgB (host_disk (wsHost b)) \<longrightarrow> dir_entries imgB (host_disk (wsHost b)) = []"
    and "whObjects (wsHost b) = whObjects (wsHost a')"
  shows "\<exists>b1. handleRestore (agent_host C cfg L (Some A)) now t' sid (Some (imgB, key)) b =
        restore_run (agent_host C cfg L (Some A)) now sid imgB b1
      \<and> mcProcs (whMachine (wsHost b1)) = mcProcs (whMachine (wsHost b)) \<and> ws_slot b1 = Some sid
      \<and> (\<forall>es. es \<noteq> [] \<longrightarrow> image_of imgB (host_disk (wsHost b1)) es =
           (if join_slash es = manifestName then None else image_of imgA (host_disk (wsHost a')) es))"
proof -
  obtain k where up: "UploadDir L A imgA key (host_disk (wsHost a')) (whObjects (wsHost a)) = ((k, None), whObjects (wsHost a'))"
    and ok': "disk_ok (host_disk (wsHost a'))"
    using checkpoint_uploaded [OF assms(10,5,6,8)] by blast
  have un: "\<forall>files. listRegularFiles imgA (host_disk (wsHost a')) = Inr files \<longrightarrow>
      lbUnmarshal L (lbMarshal L files) = Inr files" using assms(2) by blast
  obtain m d' where down: "DownloadDir L A key imgB (whObjects (wsHost b)) (host_disk (wsHost b)) = ((m, None), d')"
    and img: "\<forall>es. es \<noteq> [] \<longrightarrow> image_of imgB d' es =
      (if join_slash es = manifestName then None else image_of imgA (host_disk (wsHost a')) es)"
    using object_store.directory_roundtrip [OF assms(3) ok' assms(9,4,7,1) un assms(11) up assms(15,14,16)]
    unfolding assms(18) by blast
  have ne: "imgB \<noteq> ''''" using assms(14) by (simp add: rooted_def)
  have sl: "ws_slot b \<in> {None, Some sid}" using assms(13) by simp
  obtain hB where hB: "handleRestore (agent_host C cfg L (Some A)) now t' sid (Some (imgB, key)) b =
      restore_run (agent_host C cfg L (Some A)) now sid imgB
        (b\<lparr>wsAlive := [(sid, ())], wsHost := hB, wsMetrics := RecordTransfer ''download'' t' m (wsMetrics b)\<rparr>)"
    "host_disk hB = d'" "mcProcs (whMachine hB) = mcProcs (whMachine (wsHost b))"
    using restore_downloads [OF assms(12) sl ne assms(5) _ down, of C cfg now t'] assms(17) by blast
  show ?thesis
    using hB img by (intro exI [of _ "b\<lparr>wsAlive := [(sid, ())], wsHost := hB,
      wsMetrics := RecordTransfer ''download'' t' m (wsMetrics b)\<rparr>"]) (simp add: ws_slot_def)
qed

text \<open>
  A sandbox resumes elsewhere from the image it was suspended with. After a suspend with upload that
  worker A answers with success, a restore on worker B that has no image of the sandbox, with the
  objects A left, hands to the runtime of B an image directory with the same files and bytes as the
  one on A, on a machine where nothing has been started yet.
\<close>

theorem resumes_from_suspended_image:
  assumes "zstd_codec (lbEncode L) (lbDecode L)" and "\<forall>fs. lbUnmarshal L (lbMarshal L fs) = Inr fs"
    and "object_store A ok objs key_ok" and "prefix_keys key_ok key" and "key \<noteq> ''''"
    and "tidy C" and "rooted imgA" and "disk_ok (host_disk (wsHost a))" and "ok (whObjects (wsHost a))"
    and "handleCheckpoint (agent_host C cfg L (Some A)) t sid (Some (imgA, key)) a = (HttpOK c n, a')"
    and "\<forall>q f. mget (host_disk (wsHost a')) q = Some (FileNode f) \<longrightarrow> in_int64 (int (length f))"
    and "slot_ok b" and "ws_slot b = None" and "rooted imgB" and "disk_ok (host_disk (wsHost b))"
    and "\<forall>q\<in>set (ancestors (resolve imgB)). dir_or_free (host_disk (wsHost b)) q"
    and "is_dir imgB (host_disk (wsHost b)) \<longrightarrow> dir_entries imgB (host_disk (wsHost b)) = []"
    and "whObjects (wsHost b) = whObjects (wsHost a')"
  shows "\<exists>b1. handleRestore (agent_host C cfg L (Some A)) now t' sid (Some (imgB, key)) b =
        restore_run (agent_host C cfg L (Some A)) now sid imgB b1
      \<and> mcProcs (whMachine (wsHost b1)) = mcProcs (whMachine (wsHost b)) \<and> ws_slot b1 = Some sid
      \<and> (\<forall>es. es \<noteq> [] \<longrightarrow> image_of imgB (host_disk (wsHost b1)) es =
           (if join_slash es = manifestName then None else image_of imgA (host_disk (wsHost a')) es))"
  using resume_elsewhere [OF assms] by blast

text \<open>A worker to evaluate with: the demonstration commands, stored frames, a directory of objects.\<close>

definition demo_host_of :: "string list \<Rightarrow> disk \<Rightarrow> (string list, disk) worker_host" where
  "demo_host_of procs objs = \<lparr>whMachine = demo_machine procs, whObjects = objs\<rparr>"

definition demo_agent :: "(string list, disk) worker_host host_api" where
  "demo_agent = agent_host demo_commands demo_gv stored_lib (Some (fs_snaps ''/objs''))"

definition demo_suspend :: "64 word http_response \<times> (string list, disk) worker_host worker_server" where
  "demo_suspend = handleCheckpoint demo_agent 1 ''u'' (Some (''/img'', ''sandboxes/u''))
     ((New ''a'' (demo_host_of [''u''] demo_objects) None None)\<lparr>wsAlive := [(''u'', ())]\<rparr>)"

lemma demo_suspend_ok: "case fst demo_suspend of HttpOK c n \<Rightarrow> True | HttpError _ _ \<Rightarrow> False"
  by code_simp

lemma demo_suspend_small:
  "list_all (\<lambda>(q, nd). case nd of FileNode f \<Rightarrow> length f < 100 | _ \<Rightarrow> True) (host_disk (wsHost (snd demo_suspend)))"
  by code_simp

theorem resumes_from_suspended_image_witness:
  "\<exists>b1. handleRestore demo_agent 0 1 ''u'' (Some (''/snap/b/u'', ''sandboxes/u''))
       (New ''b'' (demo_host_of [] (whObjects (wsHost (snd demo_suspend)))) None None)
     = restore_run demo_agent 0 ''u'' ''/snap/b/u'' b1
     \<and> image_of ''/snap/b/u'' (host_disk (wsHost b1)) [''checkpoint.img'']
       = image_of ''/img'' (host_disk (wsHost (snd demo_suspend))) [''checkpoint.img'']"
proof -
  define a where "a = (New ''a'' (demo_host_of [''u''] demo_objects) None None)\<lparr>wsAlive := [(''u'', ())]\<rparr>"
  define b where "b = New ''b'' (demo_host_of [] (whObjects (wsHost (snd demo_suspend)))) None None"
  obtain r a' where ra: "demo_suspend = (r, a')" by (cases demo_suspend)
  then obtain c n where run: "demo_suspend = (HttpOK c n, a')"
    using demo_suspend_ok unfolding ra by (cases r) auto
  have sus: "handleCheckpoint (agent_host demo_commands demo_gv stored_lib (Some (fs_snaps ''/objs''))) 1 ''u''
      (Some (''/img'', ''sandboxes/u'')) a = (HttpOK c n, a')"
    using run by (simp add: demo_suspend_def demo_agent_def a_def)
  have lib: "zstd_codec (lbEncode stored_lib) (lbDecode stored_lib)"
    using stored_codec by (simp add: stored_lib_def)
  have names: "\<forall>fs. lbUnmarshal stored_lib (lbMarshal stored_lib fs) = Inr fs"
    using stored_lib_names by blast
  have small: "\<forall>q f. mget (host_disk (wsHost a')) q = Some (FileNode f) \<longrightarrow> in_int64 (int (length f))"
  proof (intro allI impI)
    fix q f assume "mget (host_disk (wsHost a')) q = Some (FileNode f)"
    then have "(q, FileNode f) \<in> set (host_disk (wsHost a'))" by (rule map_of_SomeD)
    then have "length f < 100"
      using bspec [OF demo_suspend_small [unfolded run snd_conv list_all_iff], of "(q, FileNode f)"] by simp
    then show "in_int64 (int (length f))" by (simp add: in_int64_def min_int64_def max_int64_def)
  qed
  have pre: "''sandboxes/u'' \<noteq> ''''" "rooted ''/img''" "rooted ''/snap/b/u''" by (simp_all add: rooted_def)
  have da: "disk_ok (host_disk (wsHost a))" "disk_ok (whObjects (wsHost a))"
    using demo_machine_ok demo_disks by (simp_all add: a_def New_def demo_host_of_def host_disk_def)
  have sb: "slot_ok b" "ws_slot b = None" by (simp_all add: b_def New_def slot_ok_def ws_slot_def)
  have db: "disk_ok (host_disk (wsHost b))"
    using demo_machine_ok by (simp add: b_def New_def demo_host_of_def host_disk_def)
  have free: "\<forall>q\<in>set (ancestors (resolve ''/snap/b/u'')). dir_or_free (host_disk (wsHost b)) q"
    "is_dir ''/snap/b/u'' (host_disk (wsHost b)) \<longrightarrow> dir_entries ''/snap/b/u'' (host_disk (wsHost b)) = []"
    by (simp_all add: b_def New_def demo_host_of_def host_disk_def demo_machine_def dir_or_free_def
        ancestors_def is_dir_def os_Stat_def resolve_def clean_step_def upt_rec)
  have same: "whObjects (wsHost b) = whObjects (wsHost a')"
    unfolding b_def run by (simp add: New_def demo_host_of_def)
  obtain b1 where b1: "handleRestore (agent_host demo_commands demo_gv stored_lib (Some (fs_snaps ''/objs''))) 0 1
      ''u'' (Some (''/snap/b/u'', ''sandboxes/u'')) b =
      restore_run (agent_host demo_commands demo_gv stored_lib (Some (fs_snaps ''/objs''))) 0 ''u'' ''/snap/b/u'' b1"
    "\<forall>es. es \<noteq> [] \<longrightarrow> image_of ''/snap/b/u'' (host_disk (wsHost b1)) es =
      (if join_slash es = manifestName then None else image_of ''/img'' (host_disk (wsHost a')) es)"
    using resumes_from_suspended_image [OF lib names fs_store.object_store_axioms demo_prefix pre(1) demo_tidy
      pre(2) da sus small sb pre(3) db free same] by blast
  have "image_of ''/snap/b/u'' (host_disk (wsHost b1)) [''checkpoint.img'']
      = image_of ''/img'' (host_disk (wsHost a')) [''checkpoint.img'']"
    using b1(2) by (simp add: manifestName_def)
  with b1(1) show ?thesis unfolding demo_agent_def b_def run snd_conv by blast
qed

text \<open>
  C40: a torn image is resumed from. When the download of a restore fails after the manifest was read and
  the image directory made, the request fails and the slot is free again; but the next restore of the
  sandbox on this worker finds the directory with an entry, downloads nothing, whatever object key it
  is given, and runs the torn image.
\<close>

theorem torn_image_is_restored:
  assumes "disk_ok (host_disk (wsHost s))" and "rooted img" and "slot_ok s" and "ws_slot s \<in> {None, Some sid}"
    and "key \<noteq> ''''" and "is_dir img (host_disk (wsHost s)) \<longrightarrow> dir_entries img (host_disk (wsHost s)) = []"
    and "snGet A (objectPath key manifestName) (whObjects (wsHost s)) = Inr (b, None)"
    and "lbUnmarshal L b = Inr (name # names)" and "list_all plain_name (split_slash name)"
    and "os_MkdirAll img (os_RemoveAll img (host_disk (wsHost s))) = (None, d0)"
    and "DownloadDir L A key img (whObjects (wsHost s)) (host_disk (wsHost s)) = ((n, Some e), d1)"
    and "handleRestore (agent_host C cfg L (Some A)) now t sid (Some (img, key)) s = (r, s')"
  shows "r = HttpError 500 (err_Error e) \<and> ws_slot s' = None \<and> host_disk (wsHost s') = d1
    \<and> (\<forall>now' t' key'. handleRestore (agent_host C cfg L (Some A)) now' t' sid (Some (img, key')) s' =
         restore_run (agent_host C cfg L (Some A)) now' sid img (s'\<lparr>wsAlive := [(sid, ())]\<rparr>))"
proof -
  define h where "h = (wsHost s)\<lparr>whMachine := (whMachine (wsHost s))\<lparr>mcDisk := d1\<rparr>\<rparr>"
  have ne: "img \<noteq> ''''" using assms(2) by (simp add: rooted_def)
  have api: "hoDownloadDir (agent_host C cfg L (Some A)) key img (wsHost s) = (Inl e, h)"
    "hoHasSnaps (agent_host C cfg L (Some A))"
    "hoIsDir (agent_host C cfg L (Some A)) img g = is_dir img (host_disk g)"
    "hoReadDir (agent_host C cfg L (Some A)) img g = dir_entries img (host_disk g)" for g
    using assms(11) by (simp_all add: agent_host_def transfer_result_def h_def)
  define s1 where "s1 = s\<lparr>wsAlive := [(sid, ())], wsHost := h\<rparr>"
  have "(r, s') = (HttpError 500 (err_Error e), release sid s1)"
    using assms(12,3-6) ne api
    by (cases "is_dir img (host_disk (wsHost s))") (simp_all add: handleRestore_def claim_result Let_def s1_def)
  then have r: "r = HttpError 500 (err_Error e)" "s' = release sid s1" by simp_all
  have s1: "slot_ok s1" "ws_slot s1 = Some sid" by (simp_all add: s1_def slot_ok_def ws_slot_def)
  have s': "slot_ok s'" "ws_slot s' = None" "wsHost s' = h"
    using release_slot [OF s1(1), of sid] s1(2) by (simp_all add: r(2) freed_def s1_def)
  have d1: "host_disk h = d1" by (simp add: h_def host_disk_def)
  obtain x where x: "mget d1 (resolve img @ [hd (split_slash name)]) = Some x"
    using failed_download_leaves_image [OF assms(1,2,7,8,10,9,11)] by blast
  then have entries: "dir_entries img d1 \<noteq> []" using dir_entries_mem [OF x] by auto
  have ok1: "disk_ok d1" by (rule DownloadDir_ok [OF assms(1,11)])
  have "resolve img = [] \<or> mget d1 (resolve img) = Some DirNode"
    using disk_okD(3) [OF ok1 x] by (auto simp: ancestors_iff strict_prefix_def)
  then have "is_dir img d1" by (auto simp: is_dir_def os_Stat_def)
  then have "handleRestore (agent_host C cfg L (Some A)) now' t' sid (Some (img, key')) s' =
      restore_run (agent_host C cfg L (Some A)) now' sid img (s'\<lparr>wsAlive := [(sid, ())]\<rparr>)" for now' t' key'
    using ne entries s' api d1 by (simp add: handleRestore_def claim_result Let_def)
  then show ?thesis using r(1) s'(2,3) d1 by simp
qed

definition torn_start :: "(string list, disk) worker_host worker_server" where
  "torn_start = New ''b'' (demo_host_of [] demo_manifest_only) None None"

theorem torn_image_is_restored_witness:
  "\<exists>r s' e. handleRestore demo_agent 0 1 ''u'' (Some (''/snap'', ''k'')) torn_start = (HttpError 500 e, s')
     \<and> handleRestore demo_agent 0 1 ''u'' (Some (''/snap'', r)) s'
        = restore_run demo_agent 0 ''u'' ''/snap'' (s'\<lparr>wsAlive := [(''u'', ())]\<rparr>)"
proof -
  define D where "D = DownloadDir stored_lib (fs_snaps ''/objs'') ''k'' ''/snap''
    (whObjects (wsHost torn_start)) (host_disk (wsHost torn_start))"
  have "snd (fst D) \<noteq> None" unfolding D_def by code_simp
  then obtain n e d1 where dl: "DownloadDir stored_lib (fs_snaps ''/objs'') ''k'' ''/snap''
    (whObjects (wsHost torn_start)) (host_disk (wsHost torn_start)) = ((n, Some e), d1)"
    unfolding D_def by (metis not_None_eq prod.collapse)
  define M where "M = os_MkdirAll ''/snap'' (os_RemoveAll ''/snap'' (host_disk (wsHost torn_start)))"
  have "fst M = None" unfolding M_def by code_simp
  then obtain d0 where mk: "os_MkdirAll ''/snap'' (os_RemoveAll ''/snap'' (host_disk (wsHost torn_start))) = (None, d0)"
    unfolding M_def by (metis prod.collapse)
  have man: "snGet (fs_snaps ''/objs'') (objectPath ''k'' manifestName) (whObjects (wsHost torn_start))
      = Inr (stored_names [''a''], None)" by code_simp
  have un: "lbUnmarshal stored_lib (stored_names [''a'']) = Inr (''a'' # [])"
    using stored_lib_names [of "[''a'']"] by (simp add: stored_lib_def)
  have pl: "list_all plain_name (split_slash ''a'')" by (simp add: plain_name_def)
  have ok: "disk_ok (host_disk (wsHost torn_start))"
    using demo_machine_ok by (simp add: torn_start_def New_def demo_host_of_def host_disk_def)
  have sl: "slot_ok torn_start" "ws_slot torn_start \<in> {None, Some ''u''}"
    by (simp_all add: torn_start_def New_def slot_ok_def ws_slot_def)
  have nd: "is_dir ''/snap'' (host_disk (wsHost torn_start)) \<longrightarrow>
      dir_entries ''/snap'' (host_disk (wsHost torn_start)) = []" by code_simp
  have k: "''k'' \<noteq> ''''" "rooted ''/snap''" by (simp_all add: rooted_def)
  obtain r s' where run: "handleRestore (agent_host demo_commands demo_gv stored_lib (Some (fs_snaps ''/objs''))) 0 1
      ''u'' (Some (''/snap'', ''k'')) torn_start = (r, s')" by (metis prod.exhaust)
  from torn_image_is_restored [OF ok k(2) sl k(1) nd man un pl mk dl run] run show ?thesis
    unfolding demo_agent_def by blast
qed

end
