(* ===== verification/ControlPlane.thy ===== *)
theory ControlPlane
  imports Deployed
begin

text \<open>
  The HTTP API of \<open>internal/controlplane/server.go\<close>: one function per handler, and \<open>Handler\<close> for the
  routes of the mux. The server shares the store and the signal store with the scheduler, as
  \<open>cmd/controlplane/main.go\<close> builds it, so its state is the scheduler's; \<open>metricsHandler\<close> is the flag
  of the configured exporter. A JSON body arrives decoded, or as the error of \<open>Decode\<close>. \<open>Resume\<close> is
  run for a number of steps; without a response within them there is no answer yet.
\<close>

section \<open>Requests and responses\<close>

datatype api_body =
    NoBody
  | TextBody string
  | SandboxBody sandbox
  | SandboxesBody "sandbox list"
  | WorkerBody worker
  | WorkersBody "worker list"
  | FieldBody string string
  | SignalsBody sandbox_signals
  | SandboxSignalsBody "sandbox_signals list"
  | WorkerSignalsBody "worker_resource list"
  | MetricsBody

type_synonym api_response = "api_body http_response"

datatype api_request =
    GetHealthz
  | GetMetrics
  | GetPolicy
  | PostGoldenEnsure
  | GetGoldenKey
  | PostSandboxes
  | GetSandboxes
  | GetSandboxID string
  | DeleteSandboxID string
  | PostResume string
  | PostPause string
  | PostSuspend string
  | PostExec string "string list result"
  | PostRegister "worker result"
  | GetWorkers
  | PostResourceSignals "push result"
  | PostSemanticSignals "semantic_push result"
  | GetSandboxSignals
  | GetSandboxSignalsID string
  | GetWorkerSignals

text \<open>\<open>writeJSON(w, code, v)\<close> and \<open>http.Error(w, err.Error(), code)\<close> of a result.\<close>

definition respond :: "nat \<Rightarrow> nat \<Rightarrow> ('a \<Rightarrow> api_body) \<Rightarrow> 'a result \<Rightarrow> api_response" where
  "respond ok bad body r = (case r of Inl e \<Rightarrow> HttpError bad (err_Error e) | Inr v \<Rightarrow> HttpOK ok (body v))"

lemma respond_error: "respond ok bad body r = HttpError c msg \<longleftrightarrow> (\<exists>e. r = Inl e \<and> c = bad \<and> msg = err_Error e)"
  by (auto simp: respond_def split: sum.split)

section \<open>Sandboxes\<close>

definition createSandbox ::
    "('m, 'w) sched_cfg \<Rightarrow> ('m, 'w) scheduler \<Rightarrow> api_response \<times> ('m, 'w) scheduler" where
  "createSandbox cfg s = (case Create cfg s of (r, s) \<Rightarrow> (respond 201 500 SandboxBody r, s))"

definition listSandboxes ::
    "('m, 'w) sched_cfg \<Rightarrow> ('m, 'w) scheduler \<Rightarrow> api_response \<times> ('m, 'w) scheduler" where
  "listSandboxes cfg s = (respond 200 500 SandboxesBody (List_all cfg s), s)"

definition getSandbox ::
    "('m, 'w) sched_cfg \<Rightarrow> string \<Rightarrow> ('m, 'w) scheduler \<Rightarrow> api_response \<times> ('m, 'w) scheduler" where
  "getSandbox cfg sid s = (respond 200 404 SandboxBody (Get cfg sid s), s)"

definition deleteSandbox ::
    "('m, 'w) sched_cfg \<Rightarrow> string \<Rightarrow> ('m, 'w) scheduler \<Rightarrow> api_response \<times> ('m, 'w) scheduler" where
  "deleteSandbox cfg sid s =
     (case Delete cfg sid s of
        (Some e, s) \<Rightarrow> (HttpError 500 (err_Error e), s)
      | (None, s) \<Rightarrow> (HttpOK 204 NoBody, s))"

definition resumeSandbox ::
    "('m, 'w) sched_cfg \<Rightarrow> nat \<Rightarrow> string \<Rightarrow> ('m, 'w) scheduler \<Rightarrow>
     api_response option \<times> ('m, 'w) scheduler" where
  "resumeSandbox cfg fuel sid s =
     (case Resume cfg fuel sid s of (r, s) \<Rightarrow> (map_option (respond 200 409 SandboxBody) r, s))"

definition pauseSandbox ::
    "('m, 'w) sched_cfg \<Rightarrow> string \<Rightarrow> ('m, 'w) scheduler \<Rightarrow> api_response \<times> ('m, 'w) scheduler" where
  "pauseSandbox cfg sid s = (case Pause cfg sid s of (r, s) \<Rightarrow> (respond 200 409 SandboxBody r, s))"

definition suspendSandbox ::
    "('m, 'w) sched_cfg \<Rightarrow> string \<Rightarrow> ('m, 'w) scheduler \<Rightarrow> api_response \<times> ('m, 'w) scheduler" where
  "suspendSandbox cfg sid s = (case Suspend cfg sid s of (r, s) \<Rightarrow> (respond 200 409 SandboxBody r, s))"

definition execSandbox ::
    "('m, 'w) sched_cfg \<Rightarrow> string \<Rightarrow> string list result \<Rightarrow> ('m, 'w) scheduler \<Rightarrow>
     api_response \<times> ('m, 'w) scheduler" where
  "execSandbox cfg sid req s =
     (case req of
        Inl _ \<Rightarrow> (HttpError 400 ''argv required'', s)
      | Inr argv \<Rightarrow>
          if length argv = 0 then (HttpError 400 ''argv required'', s)
          else case Exec cfg sid argv s of (r, s) \<Rightarrow> (respond 200 409 (FieldBody ''stdout'') r, s))"

section \<open>Golden snapshot and workers\<close>

definition ensureGolden ::
    "('m, 'w) sched_cfg \<Rightarrow> ('m, 'w) scheduler \<Rightarrow> api_response \<times> ('m, 'w) scheduler" where
  "ensureGolden cfg s =
     (case EnsureGolden cfg s of (r, s) \<Rightarrow> (respond 200 503 (FieldBody ''objectKey'') r, s))"

definition getGolden ::
    "('m, 'w) sched_cfg \<Rightarrow> ('m, 'w) scheduler \<Rightarrow> api_response \<times> ('m, 'w) scheduler" where
  "getGolden cfg s =
     (respond 200 404 (FieldBody ''objectKey'') (stGetGolden (cfStore cfg) (sdStore s)), s)"

definition listWorkers ::
    "('m, 'w) sched_cfg \<Rightarrow> ('m, 'w) scheduler \<Rightarrow> api_response \<times> ('m, 'w) scheduler" where
  "listWorkers cfg s = (respond 200 500 WorkersBody (stListWorkers (cfStore cfg) (sdStore s)), s)"

definition registerWorker ::
    "('m, 'w) sched_cfg \<Rightarrow> worker result \<Rightarrow> ('m, 'w) scheduler \<Rightarrow>
     api_response \<times> ('m, 'w) scheduler" where
  "registerWorker cfg body s =
     (case body of
        Inl e \<Rightarrow> (HttpError 400 (err_Error e), s)
      | Inr req \<Rightarrow>
          if wkID req = '''' \<or> wkAddress req = '''' then (HttpError 400 ''id and address required'', s)
          else
            let req = req\<lparr>wkMaxSlots := 1, wkHealthy := True\<rparr>;
                (req, s) = (if IsZero (wkRegisteredAt req)
                            then case time_Now cfg s of (now, s) \<Rightarrow> (req\<lparr>wkRegisteredAt := now\<rparr>, s)
                            else (req, s))
            in case on_store (stPutWorker (cfStore cfg) req) s of
                 (Some e, s) \<Rightarrow> (HttpError 500 (err_Error e), s)
               | (None, s) \<Rightarrow> (HttpOK 201 (WorkerBody req), s))"

definition getPolicy ::
    "('m, 'w) sched_cfg \<Rightarrow> ('m, 'w) scheduler \<Rightarrow> api_response \<times> ('m, 'w) scheduler" where
  "getPolicy cfg s = (HttpOK 200 (FieldBody ''policy'' (PolicyName cfg)), s)"

section \<open>Signals\<close>

text \<open>A sample of a push: it belongs to the pushing worker, and is dated if it is not.\<close>

definition attributed_sample :: "string \<Rightarrow> gotime \<Rightarrow> sandbox_signals \<Rightarrow> sandbox_signals" where
  "attributed_sample wid now sg =
     (let sg = NormalizeLegacy (sg\<lparr>sgWorkerID := wid\<rparr>)
      in if IsZero (sgReportedAt sg) then sg\<lparr>sgReportedAt := now\<rparr> else sg)"

definition attributed_push :: "gotime \<Rightarrow> push \<Rightarrow> push" where
  "attributed_push now req =
     (let req = req\<lparr>puSamples := map (attributed_sample (puWorkerID req) now) (puSamples req)\<rparr>;
          req = (if wrWorkerID (puWorker req) = ''''
                 then req\<lparr>puWorker := (puWorker req)\<lparr>wrWorkerID := puWorkerID req\<rparr>\<rparr> else req)
      in if IsZero (wrReportedAt (puWorker req))
         then req\<lparr>puWorker := (puWorker req)\<lparr>wrReportedAt := now\<rparr>\<rparr> else req)"

definition postResourceSignals ::
    "('m, 'w) sched_cfg \<Rightarrow> push result \<Rightarrow> ('m, 'w) scheduler \<Rightarrow> api_response \<times> ('m, 'w) scheduler" where
  "postResourceSignals cfg body s =
     (if sdSignals s = None then (HttpError 503 ''resource signals disabled'', s)
      else case body of
        Inl e \<Rightarrow> (HttpError 400 (err_Error e), s)
      | Inr req \<Rightarrow>
          if puWorkerID req = '''' then (HttpError 400 ''workerID required'', s)
          else case time_Now cfg s of
            (now, s) \<Rightarrow> (HttpOK 204 NoBody, on_signals (ApplyPush (attributed_push now req) now) s))"

definition postSemanticSignals ::
    "('m, 'w) sched_cfg \<Rightarrow> semantic_push result \<Rightarrow> ('m, 'w) scheduler \<Rightarrow>
     api_response \<times> ('m, 'w) scheduler" where
  "postSemanticSignals cfg body s =
     (if sdSignals s = None then (HttpError 503 ''signals disabled'', s)
      else case body of
        Inl e \<Rightarrow> (HttpError 400 (err_Error e), s)
      | Inr req \<Rightarrow>
          if spSandboxID req = '''' then (HttpError 400 ''sandboxID required'', s)
          else case time_Now cfg s of
            (now, s) \<Rightarrow> (HttpOK 204 NoBody, on_signals (ApplySemantic req now) s))"

definition listSandboxSignals ::
    "('m, 'w) sched_cfg \<Rightarrow> ('m, 'w) scheduler \<Rightarrow> api_response \<times> ('m, 'w) scheduler" where
  "listSandboxSignals cfg s =
     (case sdSignals s of
        None \<Rightarrow> (HttpError 503 ''resource signals disabled'', s)
      | Some sg \<Rightarrow>
          (case time_Now cfg s of
             (now, s) \<Rightarrow> (HttpOK 200 (SandboxSignalsBody (map snd (ListSandboxes sg now))), s)))"

definition getSandboxSignals ::
    "('m, 'w) sched_cfg \<Rightarrow> string \<Rightarrow> ('m, 'w) scheduler \<Rightarrow> api_response \<times> ('m, 'w) scheduler" where
  "getSandboxSignals cfg sid s =
     (case sdSignals s of
        None \<Rightarrow> (HttpError 503 ''resource signals disabled'', s)
      | Some sg \<Rightarrow>
          (case time_Now cfg s of
             (now, s) \<Rightarrow>
               (case GetSandbox sg sid now of
                  None \<Rightarrow> (HttpError 404 ''sandbox signals not found'', s)
                | Some sig \<Rightarrow> (HttpOK 200 (SignalsBody sig), s))))"

definition listWorkerSignals ::
    "('m, 'w) sched_cfg \<Rightarrow> ('m, 'w) scheduler \<Rightarrow> api_response \<times> ('m, 'w) scheduler" where
  "listWorkerSignals cfg s =
     (case sdSignals s of
        None \<Rightarrow> (HttpError 503 ''resource signals disabled'', s)
      | Some sg \<Rightarrow>
          (case time_Now cfg s of
             (now, s) \<Rightarrow> (HttpOK 200 (WorkerSignalsBody (map snd (ListWorkers sg now))), s)))"

section \<open>The routes\<close>

text \<open>\<open>resumeSandbox\<close> apart, a request is answered in one step.\<close>

fun Handler ::
    "('m, 'w) sched_cfg \<Rightarrow> bool \<Rightarrow> nat \<Rightarrow> api_request \<Rightarrow> ('m, 'w) scheduler \<Rightarrow>
     api_response option \<times> ('m, 'w) scheduler" where
  "Handler cfg mx fuel GetHealthz s = (Some (HttpOK 200 (TextBody ''ok'')), s)"
| "Handler cfg mx fuel GetMetrics s =
     (Some (if mx then HttpOK 200 MetricsBody else HttpError 404 ''404 page not found''), s)"
| "Handler cfg mx fuel GetPolicy s = apfst Some (getPolicy cfg s)"
| "Handler cfg mx fuel PostGoldenEnsure s = apfst Some (ensureGolden cfg s)"
| "Handler cfg mx fuel GetGoldenKey s = apfst Some (getGolden cfg s)"
| "Handler cfg mx fuel PostSandboxes s = apfst Some (createSandbox cfg s)"
| "Handler cfg mx fuel GetSandboxes s = apfst Some (listSandboxes cfg s)"
| "Handler cfg mx fuel (GetSandboxID sid) s = apfst Some (getSandbox cfg sid s)"
| "Handler cfg mx fuel (DeleteSandboxID sid) s = apfst Some (deleteSandbox cfg sid s)"
| "Handler cfg mx fuel (PostResume sid) s = resumeSandbox cfg fuel sid s"
| "Handler cfg mx fuel (PostPause sid) s = apfst Some (pauseSandbox cfg sid s)"
| "Handler cfg mx fuel (PostSuspend sid) s = apfst Some (suspendSandbox cfg sid s)"
| "Handler cfg mx fuel (PostExec sid body) s = apfst Some (execSandbox cfg sid body s)"
| "Handler cfg mx fuel (PostRegister body) s = apfst Some (registerWorker cfg body s)"
| "Handler cfg mx fuel GetWorkers s = apfst Some (listWorkers cfg s)"
| "Handler cfg mx fuel (PostResourceSignals body) s = apfst Some (postResourceSignals cfg body s)"
| "Handler cfg mx fuel (PostSemanticSignals body) s = apfst Some (postSemanticSignals cfg body s)"
| "Handler cfg mx fuel GetSandboxSignals s = apfst Some (listSandboxSignals cfg s)"
| "Handler cfg mx fuel (GetSandboxSignalsID sid) s = apfst Some (getSandboxSignals cfg sid s)"
| "Handler cfg mx fuel GetWorkerSignals s = apfst Some (listWorkerSignals cfg s)"

section \<open>Histories of requests\<close>

text \<open>
  Requests and the steps of the resumes in flight, interleaved. As for \<open>sys_step\<close>, at most one resume
  of a sandbox is in flight and a worker registers with the address it had.
\<close>

definition keeps_address :: "('m, 'w) sched_cfg \<Rightarrow> api_request \<Rightarrow> ('m, 'w) scheduler \<Rightarrow> bool" where
  "keeps_address cfg req s \<longleftrightarrow>
     (case req of
        PostRegister (Inr w) \<Rightarrow>
          (\<forall>v. stGetWorker (cfStore cfg) (wkID w) (sdStore s) = Inr v \<longrightarrow> wkAddress v = wkAddress w)
      | _ \<Rightarrow> True)"

inductive api_step ::
    "('m, 'w) sched_cfg \<Rightarrow> bool \<Rightarrow> ('m, 'w) system \<Rightarrow> ('m, 'w) system \<Rightarrow> bool"
  for cfg :: "('m, 'w) sched_cfg" and mx :: bool where
  request: "\<forall>sid. req \<noteq> PostResume sid \<Longrightarrow> keeps_address cfg req s \<Longrightarrow>
    Handler cfg mx fuel req s = (r, s') \<Longrightarrow> api_step cfg mx (s, cs) (s', cs)"
| resume: "\<forall>pc. cs sid = Some pc \<longrightarrow> \<not> in_flight pc \<Longrightarrow> resume_begin cfg sid s = (pc', s') \<Longrightarrow>
    api_step cfg mx (s, cs) (s', cs(sid \<mapsto> pc'))"
| resuming: "cs sid = Some pc \<Longrightarrow> resume_step cfg d pc s = (pc', s') \<Longrightarrow>
    api_step cfg mx (s, cs) (s', cs(sid \<mapsto> pc'))"

lemma clocked: "time_Now cfg s = (now, s') \<Longrightarrow> sys_reachable cfg (s, cs) (s', cs)"
  using sys_step.clock [of cfg s cs] by (auto simp: time_Now_def)

lemma signalled: "sys_reachable cfg (s, cs) (on_signals f s, cs)"
  by (intro r_into_rtranclp sys_step.signal)

text \<open>The worker that is stored, and the state after its date is read.\<close>

definition dated_worker :: "('m, 'w) sched_cfg \<Rightarrow> worker \<Rightarrow> ('m, 'w) scheduler \<Rightarrow> worker" where
  "dated_worker cfg w s = w\<lparr>wkMaxSlots := 1, wkHealthy := True,
     wkRegisteredAt := (if IsZero (wkRegisteredAt w) then fst (time_Now cfg s) else wkRegisteredAt w)\<rparr>"

definition dated_state :: "('m, 'w) sched_cfg \<Rightarrow> worker \<Rightarrow> ('m, 'w) scheduler \<Rightarrow> ('m, 'w) scheduler" where
  "dated_state cfg w s = (if IsZero (wkRegisteredAt w) then snd (time_Now cfg s) else s)"

lemma registerWorker_eq:
  assumes "wkID w \<noteq> ''''" "wkAddress w \<noteq> ''''"
  shows "registerWorker cfg (Inr w) s =
    (case on_store (stPutWorker (cfStore cfg) (dated_worker cfg w s)) (dated_state cfg w s) of
       (Some e, s') \<Rightarrow> (HttpError 500 (err_Error e), s')
     | (None, s') \<Rightarrow> (HttpOK 201 (WorkerBody (dated_worker cfg w s)), s'))"
  using assms by (cases "IsZero (wkRegisteredAt w)")
    (auto simp: registerWorker_def dated_worker_def dated_state_def time_Now_def Let_def
      split: prod.split option.split)

lemma registerWorker_steps:
  assumes "keeps_address cfg (PostRegister body) s" "registerWorker cfg body s = (r, s')"
  shows "sys_reachable cfg (s, cs) (s', cs)"
proof (cases "\<exists>w. body = Inr w \<and> wkID w \<noteq> '''' \<and> wkAddress w \<noteq> ''''")
  case True
  then obtain w where w: "body = Inr w" "wkID w \<noteq> ''''" "wkAddress w \<noteq> ''''" by blast
  obtain e where put: "on_store (stPutWorker (cfStore cfg) (dated_worker cfg w s)) (dated_state cfg w s) = (e, s')"
    using assms(2) w(1) registerWorker_eq [OF w(2,3), of cfg s]
    by (cases "on_store (stPutWorker (cfStore cfg) (dated_worker cfg w s)) (dated_state cfg w s)")
      (auto split: option.splits)
  have "sys_reachable cfg (s, cs) (dated_state cfg w s, cs)"
    by (auto simp: dated_state_def intro: clocked [OF surjective_pairing])
  moreover have "sys_step cfg (dated_state cfg w s, cs) (s', cs)"
    by (rule sys_step.register [OF put]) (use assms(1) w(1) in
      \<open>simp add: keeps_address_def dated_worker_def dated_state_def time_Now_def\<close>)
  ultimately show ?thesis by (rule rtranclp.rtrancl_into_rtrancl)
qed (use assms in \<open>auto simp: registerWorker_def split: sum.splits if_splits\<close>)

lemma resource_signals_steps:
  "postResourceSignals cfg body s = (r, s') \<Longrightarrow> sys_reachable cfg (s, cs) (s', cs)"
  by (auto simp: postResourceSignals_def split: if_splits sum.splits prod.splits
      intro: rtranclp_trans [OF clocked signalled])

lemma semantic_signals_steps:
  "postSemanticSignals cfg body s = (r, s') \<Longrightarrow> sys_reachable cfg (s, cs) (s', cs)"
  by (auto simp: postSemanticSignals_def split: if_splits sum.splits prod.splits
      intro: rtranclp_trans [OF clocked signalled])

lemmas lifecycle_handlers = createSandbox_def deleteSandbox_def pauseSandbox_def suspendSandbox_def
  execSandbox_def ensureGolden_def

lemmas lifecycle_steps = sys_step.create sys_step.del sys_step.pause sys_step.suspend sys_step.exec sys_step.golden

lemmas reading_handlers = getPolicy_def getGolden_def listSandboxes_def getSandbox_def listWorkers_def
  listSandboxSignals_def getSandboxSignals_def listWorkerSignals_def

lemma apfst_Some: "apfst Some p = (r, s') \<Longrightarrow> \<exists>q. p = (q, s')"
  by (cases p) auto

lemma request_steps:
  assumes "\<forall>sid. req \<noteq> PostResume sid" "keeps_address cfg req s" "Handler cfg mx fuel req s = (r, s')"
  shows "sys_reachable cfg (s, cs) (s', cs)"
proof (cases req)
  case (PostRegister body)
  then obtain q where "registerWorker cfg body s = (q, s')" using assms(3) by (auto dest: apfst_Some)
  then show ?thesis using registerWorker_steps assms(2) PostRegister by blast
next
  case (PostResourceSignals body)
  then obtain q where "postResourceSignals cfg body s = (q, s')" using assms(3) by (auto dest: apfst_Some)
  then show ?thesis by (rule resource_signals_steps)
next
  case (PostSemanticSignals body)
  then obtain q where "postSemanticSignals cfg body s = (q, s')" using assms(3) by (auto dest: apfst_Some)
  then show ?thesis by (rule semantic_signals_steps)
next
  case (PostResume sid)
  then show ?thesis using assms(1) by blast
qed (use assms(3) in \<open>auto simp: lifecycle_handlers reading_handlers
    intro: clocked r_into_rtranclp lifecycle_steps
    dest!: apfst_Some split: prod.splits option.splits sum.splits if_splits\<close>)

lemma api_reachable:
  "(api_step cfg mx)\<^sup>*\<^sup>* sys sys' \<Longrightarrow> sys_reachable cfg sys sys'"
proof (induction rule: rtranclp_induct)
  case (step y z)
  from step.hyps(2) have "sys_reachable cfg y z"
    by cases (auto intro: request_steps sys_step.start sys_step.step)
  with step.IH show ?case by (rule rtranclp_trans)
qed simp


section \<open>Properties\<close>


lemma demo_request_running:
  assumes "mget (mmSandboxes (sdStore s)) ''u'' = Some sb"
  shows "Handler demo_cfg True 0 (GetSandboxID ''u'') s = (Some (HttpOK 200 (SandboxBody sb)), s)"
  using assms by (simp add: getSandbox_def respond_def Get_def demo_cfg_def memory_defs)

lemma resume_api_reachable:
  "resume_run cfg n (pc, s) = (pc', s') \<Longrightarrow>
   (api_step cfg mx)\<^sup>*\<^sup>* (s, cs(sid \<mapsto> pc)) (s', cs(sid \<mapsto> pc'))"
proof (induction n arbitrary: pc s)
  case (Suc n)
  obtain pc1 s1 where st: "resume_step cfg False pc s = (pc1, s1)" by (cases "resume_step cfg False pc s")
  have "api_step cfg mx (s, cs(sid \<mapsto> pc)) (s1, (cs(sid \<mapsto> pc))(sid \<mapsto> pc1))"
    by (rule api_step.resuming [OF _ st]) simp
  then have "api_step cfg mx (s, cs(sid \<mapsto> pc)) (s1, cs(sid \<mapsto> pc1))" by simp
  moreover have "resume_run cfg n (pc1, s1) = (pc', s')" using Suc.prems st by simp
  ultimately show ?case using Suc.IH by (meson converse_rtranclp_into_rtranclp)
qed simp




definition same_but_clock :: "('m, 'w) scheduler \<Rightarrow> ('m, 'w) scheduler \<Rightarrow> bool" where
  "same_but_clock s s' \<longleftrightarrow> s'\<lparr>sdTick := 0\<rparr> = s\<lparr>sdTick := 0\<rparr>"

text \<open>
  C38: error codes. Every error the API answers carries one of five codes, and after 400 or 404 stores,
  workers, signals and waiters are as they were: only clock readings may have been made.
\<close>

theorem api_errors:
  assumes "Handler cfg mx fuel req s = (Some (HttpError c msg), s')"
  shows "c \<in> {400, 404, 409, 500, 503} \<and> (c \<in> {400, 404} \<longrightarrow> same_but_clock s s')"
proof (cases "\<exists>body. req = PostRegister body")
  case True
  then show ?thesis using assms
    by (auto simp: registerWorker_def Let_def apfst_def same_but_clock_def split: prod.splits option.splits sum.splits if_splits)
next
  case False
  have tick: "same_but_clock s s" "same_but_clock s (tick s)" by (simp_all add: same_but_clock_def tick_def)
  show ?thesis
    by (cases req) (use assms False tick in \<open>auto simp: lifecycle_handlers reading_handlers resumeSandbox_def
        postResourceSignals_def postSemanticSignals_def respond_error time_Now_def apfst_def map_prod_def
        split: prod.splits option.splits sum.splits if_splits\<close>)
qed

theorem api_errors_witness:
  "Handler demo_cfg True 0 (PostExec ''u'' (Inr [])) demo_start
     = (Some (HttpError 400 ''argv required''), demo_start) \<and> same_but_clock demo_start demo_start"
proof -
  have h: "Handler demo_cfg True 0 (PostExec ''u'' (Inr [])) demo_start
     = (Some (HttpError 400 ''argv required''), demo_start)" by (simp add: execSandbox_def)
  from api_errors [OF h] h show ?thesis by simp
qed

end
