(* ===== verification/Redis.thy ===== *)
theory Redis
  imports Store
begin

text \<open>
  The metadata store of \<open>internal/store/redis.go\<close>. The Redis client and \<open>encoding/json\<close> are parameters:
  the client is a record of the five calls the source makes, a transaction pipeline is the list of the
  commands it holds. What is used of the server is stated by \<open>redis_server\<close>, what is used of the codec
  by \<open>json_lossless\<close>. Each method is one step, as for the in-process store: the reads of a listing are
  not interleaved with writes.
\<close>

section \<open>The client and the codec\<close>

datatype redis_cmd =
    CmdSet string string
  | CmdDel string
  | CmdSAdd string string
  | CmdSRem string string

text \<open>\<open>Inr None\<close> of a \<open>GET\<close> is \<open>redis.Nil\<close>.\<close>

record 'r redis_client =
  rcPing :: "'r \<Rightarrow> go_error option"
  rcGet :: "string \<Rightarrow> 'r \<Rightarrow> string option result"
  rcSet :: "string \<Rightarrow> string \<Rightarrow> 'r \<Rightarrow> go_error option \<times> 'r"
  rcSMembers :: "string \<Rightarrow> 'r \<Rightarrow> string list result"
  rcTxExec :: "redis_cmd list \<Rightarrow> 'r \<Rightarrow> go_error option \<times> 'r"

record json_codec =
  jsSandbox :: "sandbox \<Rightarrow> string result"
  jsSandboxOf :: "string \<Rightarrow> sandbox result"
  jsWorker :: "worker \<Rightarrow> string result"
  jsWorkerOf :: "string \<Rightarrow> worker result"

section \<open>The store\<close>

definition keySandboxPrefix :: string where "keySandboxPrefix = ''actordock:sandbox:''"
definition keySandboxes :: string where "keySandboxes = ''actordock:sandboxes''"
definition keyWorkerPrefix :: string where "keyWorkerPrefix = ''actordock:worker:''"
definition keyWorkers :: string where "keyWorkers = ''actordock:workers''"
definition keyGolden :: string where "keyGolden = ''actordock:golden:default''"

definition Redis_Ping :: "'r redis_client \<Rightarrow> 'r \<Rightarrow> go_error option" where
  "Redis_Ping C r = rcPing C r"

definition Redis_PutSandbox ::
    "'r redis_client \<Rightarrow> json_codec \<Rightarrow> sandbox \<Rightarrow> 'r \<Rightarrow> go_error option \<times> 'r" where
  "Redis_PutSandbox C J sb r =
     (case jsSandbox J sb of
        Inl e \<Rightarrow> (Some e, r)
      | Inr b \<Rightarrow> rcTxExec C [CmdSet (keySandboxPrefix @ sbID sb) b, CmdSAdd keySandboxes (sbID sb)] r)"

definition Redis_GetSandbox ::
    "'r redis_client \<Rightarrow> json_codec \<Rightarrow> string \<Rightarrow> 'r \<Rightarrow> sandbox result" where
  "Redis_GetSandbox C J sid r =
     (case rcGet C (keySandboxPrefix @ sid) r of
        Inl e \<Rightarrow> Inl e
      | Inr None \<Rightarrow> Inl (Errorf (''sandbox '' @ go_quote sid @ '' not found''))
      | Inr (Some b) \<Rightarrow> jsSandboxOf J b)"

definition Redis_DeleteSandbox :: "'r redis_client \<Rightarrow> string \<Rightarrow> 'r \<Rightarrow> go_error option \<times> 'r" where
  "Redis_DeleteSandbox C sid r =
     rcTxExec C [CmdDel (keySandboxPrefix @ sid), CmdSRem keySandboxes sid] r"

text \<open>The results of the reads that succeed, in the order of the names.\<close>

fun collect :: "(string \<Rightarrow> 'a result) \<Rightarrow> string list \<Rightarrow> 'a list" where
  "collect get [] = []"
| "collect get (sid # ids) =
     (case get sid of Inl _ \<Rightarrow> collect get ids | Inr v \<Rightarrow> v # collect get ids)"

definition Redis_ListSandboxes :: "'r redis_client \<Rightarrow> json_codec \<Rightarrow> 'r \<Rightarrow> sandbox list result" where
  "Redis_ListSandboxes C J r =
     (case rcSMembers C keySandboxes r of
        Inl e \<Rightarrow> Inl e
      | Inr ids \<Rightarrow> Inr (collect (\<lambda>sid. Redis_GetSandbox C J sid r) ids))"

definition Redis_PutWorker ::
    "'r redis_client \<Rightarrow> json_codec \<Rightarrow> worker \<Rightarrow> 'r \<Rightarrow> go_error option \<times> 'r" where
  "Redis_PutWorker C J w r =
     (case jsWorker J w of
        Inl e \<Rightarrow> (Some e, r)
      | Inr b \<Rightarrow> rcTxExec C [CmdSet (keyWorkerPrefix @ wkID w) b, CmdSAdd keyWorkers (wkID w)] r)"

definition Redis_GetWorker ::
    "'r redis_client \<Rightarrow> json_codec \<Rightarrow> string \<Rightarrow> 'r \<Rightarrow> worker result" where
  "Redis_GetWorker C J wid r =
     (case rcGet C (keyWorkerPrefix @ wid) r of
        Inl e \<Rightarrow> Inl e
      | Inr None \<Rightarrow> Inl (Errorf (''worker '' @ go_quote wid @ '' not found''))
      | Inr (Some b) \<Rightarrow> jsWorkerOf J b)"

definition Redis_DeleteWorker :: "'r redis_client \<Rightarrow> string \<Rightarrow> 'r \<Rightarrow> go_error option \<times> 'r" where
  "Redis_DeleteWorker C wid r =
     rcTxExec C [CmdDel (keyWorkerPrefix @ wid), CmdSRem keyWorkers wid] r"

definition Redis_ListWorkers :: "'r redis_client \<Rightarrow> json_codec \<Rightarrow> 'r \<Rightarrow> worker list result" where
  "Redis_ListWorkers C J r =
     (case rcSMembers C keyWorkers r of
        Inl e \<Rightarrow> Inl e
      | Inr ids \<Rightarrow> Inr (collect (\<lambda>wid. Redis_GetWorker C J wid r) ids))"

definition Redis_PutGolden :: "'r redis_client \<Rightarrow> string \<Rightarrow> 'r \<Rightarrow> go_error option \<times> 'r" where
  "Redis_PutGolden C objectPrefix r = rcSet C keyGolden objectPrefix r"

definition Redis_GetGolden :: "'r redis_client \<Rightarrow> 'r \<Rightarrow> string result" where
  "Redis_GetGolden C r =
     (case rcGet C keyGolden r of
        Inl e \<Rightarrow> Inl e
      | Inr None \<Rightarrow> Inl (Errorf ''golden snapshot not ready'')
      | Inr (Some v) \<Rightarrow> Inr v)"

definition Redis :: "'r redis_client \<Rightarrow> json_codec \<Rightarrow> 'r store_api" where
  "Redis C J =
     \<lparr>stPutSandbox = Redis_PutSandbox C J, stGetSandbox = Redis_GetSandbox C J,
      stDeleteSandbox = Redis_DeleteSandbox C, stListSandboxes = Redis_ListSandboxes C J,
      stPutWorker = Redis_PutWorker C J, stGetWorker = Redis_GetWorker C J,
      stDeleteWorker = Redis_DeleteWorker C, stListWorkers = Redis_ListWorkers C J,
      stPutGolden = Redis_PutGolden C, stGetGolden = Redis_GetGolden C\<rparr>"

lemmas redis_defs = Redis_def Redis_PutSandbox_def Redis_GetSandbox_def Redis_DeleteSandbox_def
  Redis_ListSandboxes_def Redis_PutWorker_def Redis_GetWorker_def Redis_DeleteWorker_def
  Redis_ListWorkers_def Redis_PutGolden_def Redis_GetGolden_def

section \<open>What is used of the server and of the codec\<close>

datatype redis_value = RString string | RSet "string set"

definition members :: "(string \<Rightarrow> redis_value option) \<Rightarrow> string \<Rightarrow> string set" where
  "members m k = (case m k of Some (RSet x) \<Rightarrow> x | _ \<Rightarrow> {})"

definition put_members :: "string \<Rightarrow> string set \<Rightarrow> (string \<Rightarrow> redis_value option) \<Rightarrow> string \<Rightarrow> redis_value option" where
  "put_members k x m = m(k := (if x = {} then None else Some (RSet x)))"

text \<open>The effect of a command; Redis drops a set with its last element.\<close>

fun redis_effect :: "redis_cmd \<Rightarrow> (string \<Rightarrow> redis_value option) \<Rightarrow> string \<Rightarrow> redis_value option" where
  "redis_effect (CmdSet k v) m = m(k \<mapsto> RString v)"
| "redis_effect (CmdDel k) m = m(k := None)"
| "redis_effect (CmdSAdd k v) m = put_members k (insert v (members m k)) m"
| "redis_effect (CmdSRem k v) m = put_members k (members m k - {v}) m"

fun right_type :: "(string \<Rightarrow> redis_value option) \<Rightarrow> redis_cmd \<Rightarrow> bool" where
  "right_type m (CmdSAdd k v) = (\<forall>b. m k \<noteq> Some (RString b))"
| "right_type m (CmdSRem k v) = (\<forall>b. m k \<noteq> Some (RString b))"
| "right_type m _ = True"

text \<open>
  A server that answers, with the values it holds: reads change nothing, a transaction whose commands
  have the right types runs as a whole.
\<close>

definition redis_server ::
    "'r redis_client \<Rightarrow> ('r \<Rightarrow> bool) \<Rightarrow> ('r \<Rightarrow> string \<Rightarrow> redis_value option) \<Rightarrow> bool" where
  "redis_server C up vals \<longleftrightarrow>
     (\<forall>r k. up r \<longrightarrow> vals r k = None \<longrightarrow> rcGet C k r = Inr None \<and> rcSMembers C k r = Inr [])
   \<and> (\<forall>r k b. up r \<longrightarrow> vals r k = Some (RString b) \<longrightarrow> rcGet C k r = Inr (Some b))
   \<and> (\<forall>r k x. up r \<longrightarrow> vals r k = Some (RSet x) \<longrightarrow>
        (\<exists>l. rcSMembers C k r = Inr l \<and> set l = x \<and> distinct l))
   \<and> (\<forall>r k b. up r \<longrightarrow> (\<exists>r'. rcSet C k b r = (None, r') \<and> up r'
        \<and> vals r' = redis_effect (CmdSet k b) (vals r)))
   \<and> (\<forall>r c1 c2. up r \<longrightarrow> right_type (vals r) c1 \<longrightarrow> right_type (redis_effect c1 (vals r)) c2 \<longrightarrow>
        (\<exists>r'. rcTxExec C [c1, c2] r = (None, r') \<and> up r'
          \<and> vals r' = redis_effect c2 (redis_effect c1 (vals r))))"

text \<open>
  What is encoded without error is read back. Of \<open>encoding/json\<close> this holds for valid UTF-8 strings, named
  states and years of four digits, the values that the program stores.
\<close>

definition json_lossless :: "json_codec \<Rightarrow> bool" where
  "json_lossless J \<longleftrightarrow>
     (\<forall>sb. \<exists>b. jsSandbox J sb = Inr b \<and> jsSandboxOf J b = Inr sb)
   \<and> (\<forall>w. \<exists>b. jsWorker J w = Inr b \<and> jsWorkerOf J b = Inr w)"

section \<open>A table: one string per entry and the set of its names\<close>

definition table_ok ::
    "string \<Rightarrow> string \<Rightarrow> (string \<Rightarrow> 'a result) \<Rightarrow> ('a \<Rightarrow> string) \<Rightarrow> (string \<Rightarrow> redis_value option) \<Rightarrow> bool" where
  "table_ok P X dec key m \<longleftrightarrow>
     (\<forall>b. m X \<noteq> Some (RString b)) \<and> m X \<noteq> Some (RSet {}) \<and> (\<forall>sid x. m (P @ sid) \<noteq> Some (RSet x))
   \<and> (\<forall>sid b. m (P @ sid) = Some (RString b) \<longrightarrow> (\<exists>v. dec b = Inr v \<and> key v = sid))
   \<and> (\<forall>sid. sid \<in> members m X \<longleftrightarrow> m (P @ sid) \<noteq> None)"

definition entry ::
    "string \<Rightarrow> (string \<Rightarrow> 'a result) \<Rightarrow> (string \<Rightarrow> redis_value option) \<Rightarrow> string \<Rightarrow> 'a option" where
  "entry P dec m sid =
     (case m (P @ sid) of
        Some (RString b) \<Rightarrow> (case dec b of Inr v \<Rightarrow> Some v | Inl _ \<Rightarrow> None)
      | _ \<Rightarrow> None)"

lemma entry_iff:
  assumes "table_ok P X dec key m"
  shows "entry P dec m sid = Some v \<longleftrightarrow> (\<exists>b. m (P @ sid) = Some (RString b) \<and> dec b = Inr v)"
    and "entry P dec m sid = Some v \<Longrightarrow> key v = sid"
  using assms by (fastforce simp: table_ok_def entry_def split: option.splits redis_value.splits sum.splits)+

lemma entry_None:
  "table_ok P X dec key m \<Longrightarrow> entry P dec m sid = None \<longleftrightarrow> m (P @ sid) = None"
  by (fastforce simp: table_ok_def entry_def split: option.splits redis_value.splits sum.splits)

lemma table_members:
  "table_ok P X dec key m \<Longrightarrow> members m X = dom (entry P dec m)"
  using entry_None [of P X dec key m] by (auto simp: table_ok_def dom_def)

lemma table_frame:
  assumes "m' X = m X" "\<And>sid. m' (P @ sid) = m (P @ sid)"
  shows "table_ok P X dec key m' = table_ok P X dec key m" "entry P dec m' = entry P dec m"
  using assms by (simp_all add: table_ok_def entry_def members_def fun_eq_iff)

lemma table_put:
  assumes "table_ok P X dec key m" "\<And>sid. P @ sid \<noteq> X" "dec b = Inr v"
    and "m' = redis_effect (CmdSAdd X (key v)) (redis_effect (CmdSet (P @ key v) b) m)"
  shows "table_ok P X dec key m'" "entry P dec m' = (entry P dec m)(key v \<mapsto> v)"
proof -
  have X: "m' X = Some (RSet (insert (key v) (members m X)))"
    and e: "m' (P @ sid) = (if sid = key v then Some (RString b) else m (P @ sid))" for sid
    using assms(2) [of "key v"] assms(2) [of sid] by (auto simp: assms(4) put_members_def members_def)
  show "table_ok P X dec key m'"
    using assms(1,3) by (auto simp: table_ok_def X e members_def)
  show "entry P dec m' = (entry P dec m)(key v \<mapsto> v)"
    using assms(3) by (simp add: entry_def fun_eq_iff e)
qed

lemma table_del:
  assumes "table_ok P X dec key m" "\<And>sid. P @ sid \<noteq> X"
    and "m' = redis_effect (CmdSRem X sid) (redis_effect (CmdDel (P @ sid)) m)"
  shows "table_ok P X dec key m'" "entry P dec m' = (entry P dec m)(sid := None)"
proof -
  have X: "m' X = (if members m X - {sid} = {} then None else Some (RSet (members m X - {sid})))"
    and e: "m' (P @ s) = (if s = sid then None else m (P @ s))" for s
    using assms(2) [of sid] assms(2) [of s] by (auto simp: assms(3) put_members_def members_def)
  have "members m' X = members m X - {sid}" by (auto simp: members_def X)
  then show "table_ok P X dec key m'"
    using assms(1) by (auto simp: table_ok_def X e)
  show "entry P dec m' = (entry P dec m)(sid := None)"
    by (simp add: entry_def fun_eq_iff e)
qed

lemma collect_ran:
  assumes "set ids = dom f" "\<And>sid v. (get sid = Inr v) = (f sid = Some v)"
    and "\<And>sid v. f sid = Some v \<Longrightarrow> key v = sid"
  shows "set (collect get ids) = ran f" "map key (collect get ids) = ids"
proof -
  have g: "sid \<in> dom f \<Longrightarrow> \<exists>v. get sid = Inr v \<and> f sid = Some v" for sid using assms(2) by auto
  have all: "map key (collect get xs) = xs \<and> set (collect get xs) = {v. \<exists>sid\<in>set xs. f sid = Some v}"
    if "set xs \<subseteq> dom f" for xs
    using that
  proof (induction xs)
    case (Cons sid xs)
    then obtain v where "get sid = Inr v" "f sid = Some v" using g [of sid] by auto
    then show ?case using Cons assms(3) by auto
  qed simp
  show "set (collect get ids) = ran f" "map key (collect get ids) = ids"
    using all [of ids] assms(1) by (auto simp: ran_def)
qed

section \<open>The contract of the metadata store\<close>

definition redis_ok ::
    "json_codec \<Rightarrow> ('r \<Rightarrow> bool) \<Rightarrow> ('r \<Rightarrow> string \<Rightarrow> redis_value option) \<Rightarrow> 'r \<Rightarrow> bool" where
  "redis_ok J up vals r \<longleftrightarrow> up r
     \<and> table_ok keySandboxPrefix keySandboxes (jsSandboxOf J) sbID (vals r)
     \<and> table_ok keyWorkerPrefix keyWorkers (jsWorkerOf J) wkID (vals r)
     \<and> vals r keyGolden \<noteq> Some (RString '''') \<and> (\<forall>x. vals r keyGolden \<noteq> Some (RSet x))"

definition redis_sandboxes :: "json_codec \<Rightarrow> ('r \<Rightarrow> string \<Rightarrow> redis_value option) \<Rightarrow> 'r \<Rightarrow> string \<Rightarrow> sandbox option" where
  "redis_sandboxes J vals r = entry keySandboxPrefix (jsSandboxOf J) (vals r)"

definition redis_workers :: "json_codec \<Rightarrow> ('r \<Rightarrow> string \<Rightarrow> redis_value option) \<Rightarrow> 'r \<Rightarrow> string \<Rightarrow> worker option" where
  "redis_workers J vals r = entry keyWorkerPrefix (jsWorkerOf J) (vals r)"

definition redis_golden :: "('r \<Rightarrow> string \<Rightarrow> redis_value option) \<Rightarrow> 'r \<Rightarrow> string" where
  "redis_golden vals r = (case vals r keyGolden of Some (RString g) \<Rightarrow> g | _ \<Rightarrow> '''')"

lemma redis_keys:
  "keySandboxPrefix @ sid \<noteq> keySandboxes" "keyWorkerPrefix @ wid \<noteq> keyWorkers"
  "keySandboxPrefix @ sid \<noteq> keyWorkers" "keyWorkerPrefix @ wid \<noteq> keySandboxes"
  "keySandboxPrefix @ sid \<noteq> keyWorkerPrefix @ wid" "keySandboxPrefix @ sid \<noteq> keyGolden"
  "keyWorkerPrefix @ wid \<noteq> keyGolden" "keySandboxes \<noteq> keyWorkers" "keySandboxes \<noteq> keyGolden"
  "keyWorkers \<noteq> keyGolden"
  by (simp_all add: keySandboxPrefix_def keySandboxes_def keyWorkerPrefix_def keyWorkers_def keyGolden_def)

lemmas redis_other = redis_keys redis_keys [symmetric] put_members_def

lemma serverD:
  assumes "redis_server C up vals" "up r"
  shows "vals r k = None \<Longrightarrow> rcGet C k r = Inr None" "vals r k = None \<Longrightarrow> rcSMembers C k r = Inr []"
    "vals r k = Some (RString b) \<Longrightarrow> rcGet C k r = Inr (Some b)"
    "vals r k = Some (RSet x) \<Longrightarrow> \<exists>l. rcSMembers C k r = Inr l \<and> set l = x \<and> distinct l"
    "\<exists>r'. rcSet C k b r = (None, r') \<and> up r' \<and> vals r' = redis_effect (CmdSet k b) (vals r)"
    "right_type (vals r) c1 \<Longrightarrow> right_type (redis_effect c1 (vals r)) c2 \<Longrightarrow>
       \<exists>r'. rcTxExec C [c1, c2] r = (None, r') \<and> up r' \<and> vals r' = redis_effect c2 (redis_effect c1 (vals r))"
  by (use assms in \<open>unfold redis_server_def, elim conjE, meson\<close>)+

text \<open>The index of a table is a set or absent, so its two commands run.\<close>

lemma table_exec:
  assumes "redis_server C up vals" "up r" "table_ok P X dec key (vals r)" "P @ sid \<noteq> X"
  shows "\<exists>r'. rcTxExec C [CmdSet (P @ sid) b, CmdSAdd X sid] r = (None, r') \<and> up r'
      \<and> vals r' = redis_effect (CmdSAdd X sid) (redis_effect (CmdSet (P @ sid) b) (vals r))"
    and "\<exists>r'. rcTxExec C [CmdDel (P @ sid), CmdSRem X sid] r = (None, r') \<and> up r'
      \<and> vals r' = redis_effect (CmdSRem X sid) (redis_effect (CmdDel (P @ sid)) (vals r))"
proof -
  have "right_type (vals r) (CmdSet (P @ sid) b)"
    "right_type (redis_effect (CmdSet (P @ sid) b) (vals r)) (CmdSAdd X sid)"
    "right_type (vals r) (CmdDel (P @ sid))"
    "right_type (redis_effect (CmdDel (P @ sid)) (vals r)) (CmdSRem X sid)"
    using assms(3,4) by (auto simp: table_ok_def)
  note ty = this
  show "\<exists>r'. rcTxExec C [CmdSet (P @ sid) b, CmdSAdd X sid] r = (None, r') \<and> up r'
      \<and> vals r' = redis_effect (CmdSAdd X sid) (redis_effect (CmdSet (P @ sid) b) (vals r))"
    "\<exists>r'. rcTxExec C [CmdDel (P @ sid), CmdSRem X sid] r = (None, r') \<and> up r'
      \<and> vals r' = redis_effect (CmdSRem X sid) (redis_effect (CmdDel (P @ sid)) (vals r))"
    by (rule serverD(6) [OF assms(1,2)]; rule ty)+
qed

lemma table_list:
  assumes "redis_server C up vals" "up r" "table_ok P X dec key (vals r)"
  shows "\<exists>ids. rcSMembers C X r = Inr ids \<and> set ids = dom (entry P dec (vals r)) \<and> distinct ids"
proof (cases "vals r X")
  case None
  then show ?thesis
    using serverD(2) [OF assms(1,2)] table_members [OF assms(3)] by (auto simp: members_def)
next
  case (Some v)
  then obtain x where "vals r X = Some (RSet x)" using assms(3) by (cases v) (auto simp: table_ok_def)
  then show ?thesis
    using serverD(4) [OF assms(1,2)] table_members [OF assms(3)] by (fastforce simp: members_def)
qed

text \<open>A read of a table through \<open>GET\<close>.\<close>

definition table_get :: "'r redis_client \<Rightarrow> string \<Rightarrow> (string \<Rightarrow> 'a result) \<Rightarrow> go_error \<Rightarrow> string \<Rightarrow> 'r \<Rightarrow> 'a result" where
  "table_get C P dec e sid r =
     (case rcGet C (P @ sid) r of Inl err \<Rightarrow> Inl err | Inr None \<Rightarrow> Inl e | Inr (Some b) \<Rightarrow> dec b)"

lemma table_get_entry:
  assumes "redis_server C up vals" "up r" "table_ok P X dec key (vals r)"
  shows "table_get C P dec e sid r = (case entry P dec (vals r) sid of None \<Rightarrow> Inl e | Some v \<Rightarrow> Inr v)"
proof (cases "vals r (P @ sid)")
  case None
  then show ?thesis using serverD(1) [OF assms(1,2) None] by (simp add: table_get_def entry_def)
next
  case (Some v)
  then obtain b where "vals r (P @ sid) = Some (RString b)"
    using assms(3) by (cases v) (auto simp: table_ok_def)
  then obtain w where b: "vals r (P @ sid) = Some (RString b)" "dec b = Inr w"
    using assms(3) unfolding table_ok_def by meson
  then show ?thesis using serverD(3) [OF assms(1,2) b(1)] by (simp add: table_get_def entry_def)
qed

lemma Redis_gets:
  "Redis_GetSandbox C J sid r = table_get C keySandboxPrefix (jsSandboxOf J)
     (Errorf (''sandbox '' @ go_quote sid @ '' not found'')) sid r"
  "Redis_GetWorker C J wid r = table_get C keyWorkerPrefix (jsWorkerOf J)
     (Errorf (''worker '' @ go_quote wid @ '' not found'')) wid r"
  unfolding Redis_GetSandbox_def Redis_GetWorker_def table_get_def by (rule refl)+

section \<open>Every operation on a server that answers\<close>

lemmas redis_views = redis_ok_def redis_sandboxes_def redis_workers_def redis_golden_def

lemma redis_okD:
  assumes "redis_ok J up vals r"
  shows "up r" "table_ok keySandboxPrefix keySandboxes (jsSandboxOf J) sbID (vals r)"
    "table_ok keyWorkerPrefix keyWorkers (jsWorkerOf J) wkID (vals r)"
    "vals r keyGolden = None \<or> (\<exists>g. g \<noteq> '''' \<and> vals r keyGolden = Some (RString g))"
  using assms by (simp_all add: redis_ok_def)
    (metis option.exhaust redis_value.exhaust)

text \<open>Writes to the keys of one table leave the other and the golden prefix alone.\<close>

lemma sandbox_keys_only:
  assumes "redis_ok J up vals r" "up r'" "table_ok keySandboxPrefix keySandboxes (jsSandboxOf J) sbID (vals r')"
    and "\<And>k. k \<noteq> keySandboxes \<Longrightarrow> k \<noteq> keySandboxPrefix @ sid \<Longrightarrow> vals r' k = vals r k"
  shows "redis_ok J up vals r'" "redis_workers J vals r' = redis_workers J vals r"
    "redis_golden vals r' = redis_golden vals r"
proof -
  have same: "vals r' keyWorkers = vals r keyWorkers" "\<And>wid. vals r' (keyWorkerPrefix @ wid) = vals r (keyWorkerPrefix @ wid)"
    "vals r' keyGolden = vals r keyGolden"
    by (rule assms(4); simp add: redis_other)+
  then show "redis_ok J up vals r'" "redis_workers J vals r' = redis_workers J vals r"
    "redis_golden vals r' = redis_golden vals r"
    using assms(1-3) table_frame [where dec = "jsWorkerOf J" and X = keyWorkers and P = keyWorkerPrefix
      and m' = "vals r'" and m = "vals r", OF same(1,2)]
    by (simp_all add: redis_views)
qed

lemma worker_keys_only:
  assumes "redis_ok J up vals r" "up r'" "table_ok keyWorkerPrefix keyWorkers (jsWorkerOf J) wkID (vals r')"
    and "\<And>k. k \<noteq> keyWorkers \<Longrightarrow> k \<noteq> keyWorkerPrefix @ wid \<Longrightarrow> vals r' k = vals r k"
  shows "redis_ok J up vals r'" "redis_sandboxes J vals r' = redis_sandboxes J vals r"
    "redis_golden vals r' = redis_golden vals r"
proof -
  have same: "vals r' keySandboxes = vals r keySandboxes" "\<And>sid. vals r' (keySandboxPrefix @ sid) = vals r (keySandboxPrefix @ sid)"
    "vals r' keyGolden = vals r keyGolden"
    by (rule assms(4); simp add: redis_other)+
  then show "redis_ok J up vals r'" "redis_sandboxes J vals r' = redis_sandboxes J vals r"
    "redis_golden vals r' = redis_golden vals r"
    using assms(1-3) table_frame [where dec = "jsSandboxOf J" and X = keySandboxes and P = keySandboxPrefix
      and m' = "vals r'" and m = "vals r", OF same(1,2)]
    by (simp_all add: redis_views)
qed

lemma redis_put_sandbox:
  assumes C: "redis_server C up vals" and J: "json_lossless J" and r: "redis_ok J up vals r"
  shows "\<exists>r'. Redis_PutSandbox C J sb r = (None, r') \<and> redis_ok J up vals r'
    \<and> redis_sandboxes J vals r' = (redis_sandboxes J vals r)(sbID sb \<mapsto> sb)
    \<and> redis_workers J vals r' = redis_workers J vals r \<and> redis_golden vals r' = redis_golden vals r"
proof -
  obtain b where b: "jsSandbox J sb = Inr b" "jsSandboxOf J b = Inr sb" using J unfolding json_lossless_def by meson
  obtain r' where r': "rcTxExec C [CmdSet (keySandboxPrefix @ sbID sb) b, CmdSAdd keySandboxes (sbID sb)] r = (None, r')"
      "up r'" and v: "vals r' = redis_effect (CmdSAdd keySandboxes (sbID sb))
        (redis_effect (CmdSet (keySandboxPrefix @ sbID sb) b) (vals r))"
    using table_exec(1) [OF C redis_okD(1,2) [OF r] redis_keys(1)] by blast
  note t = table_put [OF redis_okD(2) [OF r] redis_keys(1) b(2) v]
  have "redis_ok J up vals r'" "redis_workers J vals r' = redis_workers J vals r"
    "redis_golden vals r' = redis_golden vals r"
    by (rule sandbox_keys_only [OF r r'(2) t(1), of "sbID sb"]; simp add: v put_members_def)+
  then show ?thesis using r'(1) t(2) by (simp add: Redis_PutSandbox_def b(1) redis_sandboxes_def)
qed

lemma redis_del_sandbox:
  assumes C: "redis_server C up vals" and r: "redis_ok J up vals r"
  shows "\<exists>r'. Redis_DeleteSandbox C sid r = (None, r') \<and> redis_ok J up vals r'
    \<and> redis_sandboxes J vals r' = (redis_sandboxes J vals r)(sid := None)
    \<and> redis_workers J vals r' = redis_workers J vals r \<and> redis_golden vals r' = redis_golden vals r"
proof -
  obtain r' where r': "rcTxExec C [CmdDel (keySandboxPrefix @ sid), CmdSRem keySandboxes sid] r = (None, r')"
      "up r'" and v: "vals r' = redis_effect (CmdSRem keySandboxes sid)
        (redis_effect (CmdDel (keySandboxPrefix @ sid)) (vals r))"
    using table_exec(2) [OF C redis_okD(1,2) [OF r] redis_keys(1)] by blast
  note t = table_del [OF redis_okD(2) [OF r] redis_keys(1) v]
  have "redis_ok J up vals r'" "redis_workers J vals r' = redis_workers J vals r"
    "redis_golden vals r' = redis_golden vals r"
    by (rule sandbox_keys_only [OF r r'(2) t(1), of sid]; simp add: v put_members_def)+
  then show ?thesis using r'(1) t(2) by (simp add: Redis_DeleteSandbox_def redis_sandboxes_def)
qed

lemma redis_put_worker:
  assumes C: "redis_server C up vals" and J: "json_lossless J" and r: "redis_ok J up vals r"
  shows "\<exists>r'. Redis_PutWorker C J w r = (None, r') \<and> redis_ok J up vals r'
    \<and> redis_workers J vals r' = (redis_workers J vals r)(wkID w \<mapsto> w)
    \<and> redis_sandboxes J vals r' = redis_sandboxes J vals r \<and> redis_golden vals r' = redis_golden vals r"
proof -
  obtain b where b: "jsWorker J w = Inr b" "jsWorkerOf J b = Inr w" using J unfolding json_lossless_def by meson
  obtain r' where r': "rcTxExec C [CmdSet (keyWorkerPrefix @ wkID w) b, CmdSAdd keyWorkers (wkID w)] r = (None, r')"
      "up r'" and v: "vals r' = redis_effect (CmdSAdd keyWorkers (wkID w))
        (redis_effect (CmdSet (keyWorkerPrefix @ wkID w) b) (vals r))"
    using table_exec(1) [OF C redis_okD(1,3) [OF r] redis_keys(2)] by blast
  note t = table_put [OF redis_okD(3) [OF r] redis_keys(2) b(2) v]
  have "redis_ok J up vals r'" "redis_sandboxes J vals r' = redis_sandboxes J vals r"
    "redis_golden vals r' = redis_golden vals r"
    by (rule worker_keys_only [OF r r'(2) t(1), of "wkID w"]; simp add: v put_members_def)+
  then show ?thesis using r'(1) t(2) by (simp add: Redis_PutWorker_def b(1) redis_workers_def)
qed

lemma redis_del_worker:
  assumes C: "redis_server C up vals" and r: "redis_ok J up vals r"
  shows "\<exists>r'. Redis_DeleteWorker C wid r = (None, r') \<and> redis_ok J up vals r'
    \<and> redis_workers J vals r' = (redis_workers J vals r)(wid := None)
    \<and> redis_sandboxes J vals r' = redis_sandboxes J vals r \<and> redis_golden vals r' = redis_golden vals r"
proof -
  obtain r' where r': "rcTxExec C [CmdDel (keyWorkerPrefix @ wid), CmdSRem keyWorkers wid] r = (None, r')"
      "up r'" and v: "vals r' = redis_effect (CmdSRem keyWorkers wid)
        (redis_effect (CmdDel (keyWorkerPrefix @ wid)) (vals r))"
    using table_exec(2) [OF C redis_okD(1,3) [OF r] redis_keys(2)] by blast
  note t = table_del [OF redis_okD(3) [OF r] redis_keys(2) v]
  have "redis_ok J up vals r'" "redis_sandboxes J vals r' = redis_sandboxes J vals r"
    "redis_golden vals r' = redis_golden vals r"
    by (rule worker_keys_only [OF r r'(2) t(1), of wid]; simp add: v put_members_def)+
  then show ?thesis using r'(1) t(2) by (simp add: Redis_DeleteWorker_def redis_workers_def)
qed

lemma redis_put_golden:
  assumes C: "redis_server C up vals" and r: "redis_ok J up vals r" and "g \<noteq> ''''"
  shows "\<exists>r'. Redis_PutGolden C g r = (None, r') \<and> redis_ok J up vals r' \<and> redis_golden vals r' = g
    \<and> redis_sandboxes J vals r' = redis_sandboxes J vals r \<and> redis_workers J vals r' = redis_workers J vals r"
proof -
  obtain r' where r': "rcSet C keyGolden g r = (None, r')" "up r'"
      and v: "vals r' = redis_effect (CmdSet keyGolden g) (vals r)"
    using serverD(5) [OF C redis_okD(1) [OF r]] by blast
  have same: "vals r' keySandboxes = vals r keySandboxes" "vals r' keyWorkers = vals r keyWorkers"
    "\<And>sid. vals r' (keySandboxPrefix @ sid) = vals r (keySandboxPrefix @ sid)"
    "\<And>wid. vals r' (keyWorkerPrefix @ wid) = vals r (keyWorkerPrefix @ wid)"
    by (simp_all add: v redis_other)
  note fr = table_frame [where m = "vals r" and m' = "vals r'", OF same(1,3)]
    table_frame [where m = "vals r" and m' = "vals r'", OF same(2,4)]
  have tables: "table_ok keySandboxPrefix keySandboxes (jsSandboxOf J) sbID (vals r')"
    "table_ok keyWorkerPrefix keyWorkers (jsWorkerOf J) wkID (vals r')"
    "redis_sandboxes J vals r' = redis_sandboxes J vals r" "redis_workers J vals r' = redis_workers J vals r"
    using redis_okD(2,3) [OF r] unfolding redis_sandboxes_def redis_workers_def by (simp_all only: fr)
  then show ?thesis using r' assms(3) by (simp add: Redis_PutGolden_def redis_ok_def redis_golden_def v)
qed

lemma redis_reads:
  assumes C: "redis_server C up vals" and r: "redis_ok J up vals r"
  shows "Redis_GetSandbox C J sid r = (case redis_sandboxes J vals r sid of
      None \<Rightarrow> Inl (Errorf (''sandbox '' @ go_quote sid @ '' not found'')) | Some sb \<Rightarrow> Inr sb)"
    and "Redis_GetWorker C J wid r = (case redis_workers J vals r wid of
      None \<Rightarrow> Inl (Errorf (''worker '' @ go_quote wid @ '' not found'')) | Some w \<Rightarrow> Inr w)"
    and "Redis_GetGolden C r = (if redis_golden vals r = '''' then Inl (Errorf ''golden snapshot not ready'')
      else Inr (redis_golden vals r))"
proof -
  show "Redis_GetSandbox C J sid r = (case redis_sandboxes J vals r sid of
      None \<Rightarrow> Inl (Errorf (''sandbox '' @ go_quote sid @ '' not found'')) | Some sb \<Rightarrow> Inr sb)"
    unfolding Redis_gets redis_sandboxes_def by (rule table_get_entry [OF C redis_okD(1,2) [OF r]])
  show "Redis_GetWorker C J wid r = (case redis_workers J vals r wid of
      None \<Rightarrow> Inl (Errorf (''worker '' @ go_quote wid @ '' not found'')) | Some w \<Rightarrow> Inr w)"
    unfolding Redis_gets redis_workers_def by (rule table_get_entry [OF C redis_okD(1,3) [OF r]])
  show "Redis_GetGolden C r = (if redis_golden vals r = '''' then Inl (Errorf ''golden snapshot not ready'')
      else Inr (redis_golden vals r))"
    using redis_okD(4) [OF r] serverD(1,3) [OF C redis_okD(1) [OF r], of keyGolden]
    by (auto simp: Redis_GetGolden_def redis_golden_def)
qed

lemma redis_lists:
  assumes C: "redis_server C up vals" and r: "redis_ok J up vals r"
  shows "\<exists>l. Redis_ListSandboxes C J r = Inr l \<and> set l = ran (redis_sandboxes J vals r) \<and> distinct (map sbID l)"
    and "\<exists>l. Redis_ListWorkers C J r = Inr l \<and> set l = ran (redis_workers J vals r) \<and> distinct (map wkID l)"
proof -
  have get: "(Redis_GetSandbox C J sid r = Inr sb) = (redis_sandboxes J vals r sid = Some sb)"
    and wget: "(Redis_GetWorker C J wid r = Inr w) = (redis_workers J vals r wid = Some w)" for sid sb wid w
    by (simp_all add: redis_reads [OF C r] split: option.split)
  have key: "redis_sandboxes J vals r sid = Some sb \<Longrightarrow> sbID sb = sid"
    and wkey: "redis_workers J vals r wid = Some w \<Longrightarrow> wkID w = wid" for sid sb wid w
    unfolding redis_sandboxes_def redis_workers_def
    by (rule entry_iff(2) [OF redis_okD(2) [OF r]], assumption)
      (rule entry_iff(2) [OF redis_okD(3) [OF r]])
  obtain ids where ids: "rcSMembers C keySandboxes r = Inr ids"
      "set ids = dom (redis_sandboxes J vals r)" "distinct ids"
    using table_list [OF C redis_okD(1,2) [OF r]] unfolding redis_sandboxes_def by blast
  have c: "set (collect (\<lambda>sid. Redis_GetSandbox C J sid r) ids) = ran (redis_sandboxes J vals r)"
    "map sbID (collect (\<lambda>sid. Redis_GetSandbox C J sid r) ids) = ids"
    using collect_ran [where get = "\<lambda>sid. Redis_GetSandbox C J sid r" and key = sbID, OF ids(2) get key] by simp_all
  show "\<exists>l. Redis_ListSandboxes C J r = Inr l \<and> set l = ran (redis_sandboxes J vals r) \<and> distinct (map sbID l)"
    using ids(1,3) c by (simp add: Redis_ListSandboxes_def)
  obtain wids where wids: "rcSMembers C keyWorkers r = Inr wids"
      "set wids = dom (redis_workers J vals r)" "distinct wids"
    using table_list [OF C redis_okD(1,3) [OF r]] unfolding redis_workers_def by blast
  have w: "set (collect (\<lambda>wid. Redis_GetWorker C J wid r) wids) = ran (redis_workers J vals r)"
    "map wkID (collect (\<lambda>wid. Redis_GetWorker C J wid r) wids) = wids"
    using collect_ran [where get = "\<lambda>wid. Redis_GetWorker C J wid r" and key = wkID, OF wids(2) wget wkey] by simp_all
  show "\<exists>l. Redis_ListWorkers C J r = Inr l \<and> set l = ran (redis_workers J vals r) \<and> distinct (map wkID l)"
    using wids(1,3) w by (simp add: Redis_ListWorkers_def)
qed

lemma redis_metadata_store:
  assumes "redis_server C up vals" and "json_lossless J"
  shows "metadata_store (Redis C J) (redis_ok J up vals) (redis_sandboxes J vals) (redis_workers J vals)
    (redis_golden vals)"
proof -
  have key: "redis_ok J up vals r \<Longrightarrow> redis_sandboxes J vals r sid = Some sb \<Longrightarrow> sbID sb = sid"
    "redis_ok J up vals r \<Longrightarrow> redis_workers J vals r wid = Some w \<Longrightarrow> wkID w = wid" for r sid sb wid w
    unfolding redis_sandboxes_def redis_workers_def
    by (rule entry_iff(2) [OF redis_okD(2)], assumption+)
      (rule entry_iff(2) [OF redis_okD(3)], assumption+)
  show ?thesis
  proof (unfold_locales, goal_cases)
    case (1 m sb) then show ?case using redis_put_sandbox [OF assms] by (simp add: Redis_def)
  next
    case (2 m sid) then show ?case using redis_del_sandbox [OF assms(1)] by (simp add: Redis_def)
  next
    case (3 m w) then show ?case using redis_put_worker [OF assms] by (simp add: Redis_def)
  next
    case (4 m wid) then show ?case using redis_del_worker [OF assms(1)] by (simp add: Redis_def)
  next
    case (5 m g) then show ?case using redis_put_golden [OF assms(1)] by (simp add: Redis_def)
  next
    case (6 m sid sb) then show ?case
      using redis_reads(1) [OF assms(1), of J m sid] by (simp add: Redis_def split: option.split)
  next
    case (7 m wid w) then show ?case
      using redis_reads(2) [OF assms(1), of J m wid] by (simp add: Redis_def split: option.split)
  next
    case (8 m g) then show ?case
      using redis_reads(3) [OF assms(1), of J m] by (auto simp: Redis_def)
  next
    case (9 m) then show ?case using redis_lists(1) [OF assms(1)] by (simp add: Redis_def)
  next
    case (10 m) then show ?case using redis_lists(2) [OF assms(1)] by (simp add: Redis_def)
  qed (erule (1) key)+
qed

section \<open>The two stores give the same answers\<close>

datatype store_op =
    PutSb sandbox | GetSb string | DelSb string | ListSb
  | PutWk worker | GetWk string | DelWk string | ListWk
  | PutGd string | GetGd

datatype store_answer =
    AnsWrite "go_error option"
  | AnsSandbox "sandbox result"
  | AnsSandboxes "sandbox list result"
  | AnsWorker "worker result"
  | AnsWorkers "worker list result"
  | AnsGolden "string result"

fun store_step :: "'m store_api \<Rightarrow> store_op \<Rightarrow> 'm \<Rightarrow> store_answer \<times> 'm" where
  "store_step st (PutSb sb) m = apfst AnsWrite (stPutSandbox st sb m)"
| "store_step st (GetSb sid) m = (AnsSandbox (stGetSandbox st sid m), m)"
| "store_step st (DelSb sid) m = apfst AnsWrite (stDeleteSandbox st sid m)"
| "store_step st ListSb m = (AnsSandboxes (stListSandboxes st m), m)"
| "store_step st (PutWk w) m = apfst AnsWrite (stPutWorker st w m)"
| "store_step st (GetWk wid) m = (AnsWorker (stGetWorker st wid m), m)"
| "store_step st (DelWk wid) m = apfst AnsWrite (stDeleteWorker st wid m)"
| "store_step st ListWk m = (AnsWorkers (stListWorkers st m), m)"
| "store_step st (PutGd g) m = apfst AnsWrite (stPutGolden st g m)"
| "store_step st GetGd m = (AnsGolden (stGetGolden st m), m)"

fun store_run :: "'m store_api \<Rightarrow> store_op list \<Rightarrow> 'm \<Rightarrow> store_answer list" where
  "store_run st [] m = []"
| "store_run st (x # xs) m = (case store_step st x m of (a, m) \<Rightarrow> a # store_run st xs m)"

text \<open>Answers are compared up to the order of a listing, which neither store promises.\<close>

fun same_answer :: "store_answer \<Rightarrow> store_answer \<Rightarrow> bool" where
  "same_answer (AnsSandboxes (Inr l)) (AnsSandboxes (Inr l')) \<longleftrightarrow> mset l = mset l'"
| "same_answer (AnsWorkers (Inr l)) (AnsWorkers (Inr l')) \<longleftrightarrow> mset l = mset l'"
| "same_answer a b \<longleftrightarrow> a = b"

definition same_contents ::
    "json_codec \<Rightarrow> ('r \<Rightarrow> bool) \<Rightarrow> ('r \<Rightarrow> string \<Rightarrow> redis_value option) \<Rightarrow> memory \<Rightarrow> 'r \<Rightarrow> bool" where
  "same_contents J up vals m r \<longleftrightarrow> memory_ok m \<and> redis_ok J up vals r
     \<and> redis_sandboxes J vals r = mget (mmSandboxes m) \<and> redis_workers J vals r = mget (mmWorkers m)
     \<and> redis_golden vals r = mmGolden m"

lemma same_listing:
  assumes "set l = set l'" "distinct (map f l)" "distinct (map f l')"
  shows "mset l = mset l'"
  using assms by (simp add: distinct_map set_eq_iff_mset_eq_distinct [symmetric])

lemma same_step:
  assumes C: "redis_server C up vals" and J: "json_lossless J" and s: "same_contents J up vals m r"
    and g: "x \<noteq> PutGd ''''"
    and m': "store_step Memory x m = (a, m')" and r': "store_step (Redis C J) x r = (b, r')"
  shows "same_answer a b \<and> same_contents J up vals m' r'"
proof -
  have ok: "memory_ok m" "redis_ok J up vals r" using s by (simp_all add: same_contents_def)
  have e: "redis_sandboxes J vals r = mget (mmSandboxes m)" "redis_workers J vals r = mget (mmWorkers m)"
    "redis_golden vals r = mmGolden m" using s by (simp_all add: same_contents_def)
  note reads = redis_reads [OF C ok(2), unfolded e]
  show ?thesis
  proof (cases x)
    case (PutSb sb)
    then show ?thesis
      using redis_put_sandbox [OF C J ok(2), of sb] memory.put_sandbox [OF ok(1), of sb] m' r' e
      by (auto simp: same_contents_def Redis_def)
  next
    case (DelSb sid)
    then show ?thesis
      using redis_del_sandbox [OF C ok(2), of sid] memory.del_sandbox [OF ok(1), of sid] m' r' e
      by (auto simp: same_contents_def Redis_def)
  next
    case (PutWk w)
    then show ?thesis
      using redis_put_worker [OF C J ok(2), of w] memory.put_worker [OF ok(1), of w] m' r' e
      by (auto simp: same_contents_def Redis_def)
  next
    case (DelWk wid)
    then show ?thesis
      using redis_del_worker [OF C ok(2), of wid] memory.del_worker [OF ok(1), of wid] m' r' e
      by (auto simp: same_contents_def Redis_def)
  next
    case (PutGd p)
    then show ?thesis
      using redis_put_golden [OF C ok(2), of p] memory.put_golden [OF ok(1), of p] m' r' e g
      by (auto simp: same_contents_def Redis_def)
  next
    case ListSb
    obtain l l' where "set l' = set l" "distinct (map sbID l')" "distinct (map sbID l)"
        "fst (store_step (Redis C J) ListSb r) = AnsSandboxes (Inr l)"
        "fst (store_step Memory ListSb m) = AnsSandboxes (Inr l')"
      using redis_lists(1) [OF C ok(2)] memory.list_sandboxes [OF ok(1)] unfolding e by (auto simp: Redis_def)
    then show ?thesis using same_listing [of l' l sbID] m' r' s ListSb by auto
  next
    case ListWk
    obtain l l' where "set l' = set l" "distinct (map wkID l')" "distinct (map wkID l)"
        "fst (store_step (Redis C J) ListWk r) = AnsWorkers (Inr l)"
        "fst (store_step Memory ListWk m) = AnsWorkers (Inr l')"
      using redis_lists(2) [OF C ok(2)] memory.list_workers [OF ok(1)] unfolding e by (auto simp: Redis_def)
    then show ?thesis using same_listing [of l' l wkID] m' r' s ListWk by auto
  qed (use m' r' s reads in \<open>auto simp: Redis_def memory_defs split: option.split\<close>)
qed

text \<open>A server and a codec to evaluate with: cells in a table, fields with marked characters.\<close>

datatype redis_cell = CellString string | CellSet "string list"

type_synonym redis_cells = "(string, redis_cell) gomap"

fun cell_value :: "redis_cell \<Rightarrow> redis_value" where
  "cell_value (CellString b) = RString b"
| "cell_value (CellSet l) = RSet (set l)"

definition cells_vals :: "redis_cells \<Rightarrow> string \<Rightarrow> redis_value option" where
  "cells_vals r k = map_option cell_value (mget r k)"

fun cell_ok :: "redis_cell \<Rightarrow> bool" where
  "cell_ok (CellString b) = True"
| "cell_ok (CellSet l) = (l \<noteq> [] \<and> distinct l)"

definition cells_up :: "redis_cells \<Rightarrow> bool" where
  "cells_up r \<longleftrightarrow> (\<forall>k. case mget r k of None \<Rightarrow> True | Some c \<Rightarrow> cell_ok c)"

lemma cells_upD: "cells_up r \<Longrightarrow> mget r k = Some (CellSet l) \<Longrightarrow> l \<noteq> [] \<and> distinct l"
  unfolding cells_up_def by (metis cell_ok.simps(2) option.simps(5))

definition wrong_type :: go_error where
  "wrong_type = Errorf ''WRONGTYPE Operation against a key holding the wrong kind of value''"

definition put_cell :: "string \<Rightarrow> string list \<Rightarrow> redis_cells \<Rightarrow> redis_cells" where
  "put_cell k l r = (if l = [] then mdel k r else mput k (CellSet l) r)"

fun run_cmd :: "redis_cmd \<Rightarrow> redis_cells \<Rightarrow> go_error option \<times> redis_cells" where
  "run_cmd (CmdSet k v) r = (None, mput k (CellString v) r)"
| "run_cmd (CmdDel k) r = (None, mdel k r)"
| "run_cmd (CmdSAdd k v) r =
     (case mget r k of
        None \<Rightarrow> (None, put_cell k [v] r)
      | Some (CellSet l) \<Rightarrow> (None, put_cell k (List.insert v l) r)
      | Some (CellString _) \<Rightarrow> (Some wrong_type, r))"
| "run_cmd (CmdSRem k v) r =
     (case mget r k of
        None \<Rightarrow> (None, r)
      | Some (CellSet l) \<Rightarrow> (None, put_cell k (remove1 v l) r)
      | Some (CellString _) \<Rightarrow> (Some wrong_type, r))"

fun run_cmds :: "redis_cmd list \<Rightarrow> redis_cells \<Rightarrow> go_error option \<times> redis_cells" where
  "run_cmds [] r = (None, r)"
| "run_cmds (c # cs) r =
     (case run_cmd c r of (e, r) \<Rightarrow> (case run_cmds cs r of (e', r) \<Rightarrow> (if e = None then e' else e, r)))"

definition cells_client :: "redis_cells redis_client" where
  "cells_client =
     \<lparr>rcPing = (\<lambda>r. None),
      rcGet = (\<lambda>k r. case mget r k of None \<Rightarrow> Inr None | Some (CellString b) \<Rightarrow> Inr (Some b)
        | Some (CellSet _) \<Rightarrow> Inl wrong_type),
      rcSet = (\<lambda>k v. run_cmd (CmdSet k v)),
      rcSMembers = (\<lambda>k r. case mget r k of None \<Rightarrow> Inr [] | Some (CellSet l) \<Rightarrow> Inr l
        | Some (CellString _) \<Rightarrow> Inl wrong_type),
      rcTxExec = run_cmds\<rparr>"

lemma cells_vals_put:
  "cells_vals (mput k c r) = (cells_vals r)(k \<mapsto> cell_value c)" "cells_vals (mdel k r) = (cells_vals r)(k := None)"
  "cells_vals (put_cell k l r) = put_members k (set l) (cells_vals r)"
  by (simp_all add: cells_vals_def put_cell_def put_members_def fun_eq_iff)

lemma cells_up_put:
  assumes "cells_up r"
  shows "cells_up (mput k (CellString b) r)" "cells_up (mdel k r)" "distinct l \<Longrightarrow> cells_up (put_cell k l r)"
  using assms by (simp_all add: cells_up_def put_cell_def)

lemma run_cmd_effect:
  assumes "cells_up r" "right_type (cells_vals r) c"
  shows "\<exists>r'. run_cmd c r = (None, r') \<and> cells_up r' \<and> cells_vals r' = redis_effect c (cells_vals r)"
proof -
  have cell: "mget r k = None \<and> members (cells_vals r) k = {} \<or> (\<exists>l. mget r k = Some (CellSet l)
      \<and> distinct l \<and> members (cells_vals r) k = set l)" if h: "\<forall>b. cells_vals r k \<noteq> Some (RString b)" for k
  proof (cases "mget r k")
    case None
    then show ?thesis by (simp add: members_def cells_vals_def)
  next
    case (Some cl)
    show ?thesis
    proof (cases cl)
      case (CellString b)
      then show ?thesis using h Some by (simp add: cells_vals_def)
    next
      case (CellSet l)
      then show ?thesis using cells_upD [OF assms(1), of k l] Some by (simp add: members_def cells_vals_def)
    qed
  qed
  have none: "put_members k {} (cells_vals r) = cells_vals r" if "mget r k = None" for k
    using that by (simp add: put_members_def cells_vals_def fun_eq_iff)
  show ?thesis
  proof (cases c)
    case (CmdSAdd k v)
    then have "\<forall>b. cells_vals r k \<noteq> Some (RString b)" using assms(2) by simp
    from cell [OF this] show ?thesis
    proof (elim disjE exE conjE)
      assume "mget r k = None" "members (cells_vals r) k = {}"
      then show ?thesis using CmdSAdd cells_up_put(3) [OF assms(1), of "[v]" k] by (simp add: cells_vals_put)
    next
      fix l assume "mget r k = Some (CellSet l)" "distinct l" "members (cells_vals r) k = set l"
      then show ?thesis using CmdSAdd cells_up_put(3) [OF assms(1), of "List.insert v l" k]
        by (simp add: cells_vals_put)
    qed
  next
    case (CmdSRem k v)
    then have "\<forall>b. cells_vals r k \<noteq> Some (RString b)" using assms(2) by simp
    from cell [OF this] show ?thesis
    proof (elim disjE exE conjE)
      assume "mget r k = None" "members (cells_vals r) k = {}"
      then show ?thesis using CmdSRem assms(1) none [of k] by simp
    next
      fix l assume "mget r k = Some (CellSet l)" "distinct l" "members (cells_vals r) k = set l"
      then show ?thesis using CmdSRem cells_up_put(3) [OF assms(1), of "remove1 v l" k]
        by (simp add: cells_vals_put)
    qed
  qed (use assms(1) in \<open>simp_all add: cells_up_put cells_vals_put\<close>)
qed

lemma run_cmds_effect:
  assumes "cells_up r" "right_type (cells_vals r) c1" "right_type (redis_effect c1 (cells_vals r)) c2"
  shows "\<exists>r'. run_cmds [c1, c2] r = (None, r') \<and> cells_up r'
      \<and> cells_vals r' = redis_effect c2 (redis_effect c1 (cells_vals r))"
proof -
  obtain r1 where r1: "run_cmd c1 r = (None, r1)" "cells_up r1" "cells_vals r1 = redis_effect c1 (cells_vals r)"
    using run_cmd_effect [OF assms(1,2)] by (elim exE conjE)
  obtain r2 where r2: "run_cmd c2 r1 = (None, r2)" "cells_up r2" "cells_vals r2 = redis_effect c2 (cells_vals r1)"
    using run_cmd_effect [OF r1(2) assms(3) [folded r1(3)]] by (elim exE conjE)
  have "run_cmds [c1, c2] r = (None, r2)" using r1(1) r2(1) by simp
  then show ?thesis using r2(2,3) unfolding r1(3) by (intro exI conjI)
qed

lemma cells_reads:
  "cells_vals r k = None \<Longrightarrow> rcGet cells_client k r = Inr None \<and> rcSMembers cells_client k r = Inr []"
  "cells_vals r k = Some (RString b) \<Longrightarrow> rcGet cells_client k r = Inr (Some b)"
  "cells_up r \<Longrightarrow> cells_vals r k = Some (RSet x) \<Longrightarrow>
     \<exists>l. rcSMembers cells_client k r = Inr l \<and> set l = x \<and> distinct l"
proof -
  have none: "cells_vals r k = None \<Longrightarrow> mget r k = None" by (simp add: cells_vals_def)
  have str: "mget r k = Some (CellString b)" if "cells_vals r k = Some (RString b)"
  proof (cases "mget r k")
    case (Some c) then show ?thesis using that by (cases c) (simp_all add: cells_vals_def)
  qed (use that in \<open>simp add: cells_vals_def\<close>)
  have st: "\<exists>l. mget r k = Some (CellSet l) \<and> x = set l" if "cells_vals r k = Some (RSet x)"
  proof (cases "mget r k")
    case (Some c) then show ?thesis using that by (cases c) (simp_all add: cells_vals_def)
  qed (use that in \<open>simp add: cells_vals_def\<close>)
  have read: "rcGet cells_client k r = (case mget r k of None \<Rightarrow> Inr None | Some (CellString b) \<Rightarrow> Inr (Some b)
        | Some (CellSet _) \<Rightarrow> Inl wrong_type)"
    "rcSMembers cells_client k r = (case mget r k of None \<Rightarrow> Inr [] | Some (CellSet l) \<Rightarrow> Inr l
        | Some (CellString _) \<Rightarrow> Inl wrong_type)"
    by (simp_all only: cells_client_def redis_client.select_convs)
  show "cells_vals r k = None \<Longrightarrow> rcGet cells_client k r = Inr None \<and> rcSMembers cells_client k r = Inr []"
    unfolding read by (drule none) simp
  show "cells_vals r k = Some (RString b) \<Longrightarrow> rcGet cells_client k r = Inr (Some b)"
    unfolding read by (drule str) simp
  assume up: "cells_up r" and "cells_vals r k = Some (RSet x)"
  from st [OF this(2)] obtain l where l: "mget r k = Some (CellSet l)" "x = set l" by (elim exE conjE)
  show "\<exists>l. rcSMembers cells_client k r = Inr l \<and> set l = x \<and> distinct l"
    using cells_upD [OF up l(1)] unfolding read l by (intro exI [of _ l]) simp
qed

lemma cells_server: "redis_server cells_client cells_up cells_vals"
proof -
  have cmds: "rcSet cells_client k b = run_cmd (CmdSet k b)" "rcTxExec cells_client = run_cmds" for k b
    unfolding cells_client_def by simp_all
  show ?thesis
    unfolding redis_server_def cmds
  proof (intro conjI allI impI, goal_cases)
    case (5 r k b) then show ?case by (rule run_cmd_effect) simp
  next
    case (6 r c1 c2) then show ?case by (rule run_cmds_effect)
  qed (simp_all add: cells_reads)
qed

fun encode_fields :: "string list \<Rightarrow> string" where
  "encode_fields [] = []"
| "encode_fields ([] # fs) = CHR ''.'' # encode_fields fs"
| "encode_fields ((c # cs) # fs) = CHR ''-'' # c # encode_fields (cs # fs)"

fun decode_fields :: "string \<Rightarrow> string \<Rightarrow> string list" where
  "decode_fields acc (m # s) =
     (if m = CHR ''.'' then rev acc # decode_fields [] s
      else case s of [] \<Rightarrow> [] | c # s \<Rightarrow> decode_fields (c # acc) s)"
| "decode_fields acc [] = []"

lemma decode_encode_field: "decode_fields acc (encode_fields (f # fs)) = (rev acc @ f) # decode_fields [] (encode_fields fs)"
  by (induction f arbitrary: acc) auto

lemma decode_encode_fields: "decode_fields [] (encode_fields fs) = fs"
  by (induction fs) (simp_all add: decode_encode_field)

definition encode_int :: "int \<Rightarrow> string" where
  "encode_int i = (if i < 0 then CHR ''-'' # replicate (nat (- i)) CHR ''1'' else replicate (nat i) CHR ''1'')"

definition decode_int :: "string \<Rightarrow> int" where
  "decode_int s = (if s \<noteq> [] \<and> hd s = CHR ''-'' then - int (length s - 1) else int (length s))"

lemma decode_encode_int [simp]: "decode_int (encode_int i) = i"
  by (auto simp: decode_int_def encode_int_def)

fun encode_state :: "sandbox_state \<Rightarrow> string" where
  "encode_state (OtherState s) = CHR ''?'' # s"
| "encode_state st = state_string st"

definition decode_state :: "string \<Rightarrow> sandbox_state" where
  "decode_state s =
     (if s = ''suspended'' then SandboxSuspended else if s = ''running'' then SandboxRunning
      else if s = ''paused'' then SandboxPaused else if s = ''deleting'' then SandboxDeleting
      else OtherState (tl s))"

fun encode_source :: "snapshot_source \<Rightarrow> string" where
  "encode_source (OtherSource s) = CHR ''?'' # s"
| "encode_source src = source_string src"

definition decode_source :: "string \<Rightarrow> snapshot_source" where
  "decode_source s =
     (if s = '''' then SnapshotNone else if s = ''local'' then SnapshotLocal
      else if s = ''external'' then SnapshotExternal else OtherSource (tl s))"

lemma decode_encode_state [simp]: "decode_state (encode_state st) = st"
  by (cases st) (simp_all add: decode_state_def)

lemma decode_encode_source [simp]: "decode_source (encode_source src) = src"
  by (cases src) (simp_all add: decode_source_def)

definition fields_codec :: json_codec where
  "fields_codec =
     \<lparr>jsSandbox = (\<lambda>sb. Inr (encode_fields [sbID sb, encode_state (sbState sb), sbWorkerID sb,
        sbLocalSnapshotPath sb, sbObjectKey sb, encode_source (sbSnapshotSource sb),
        encode_int (sbCreatedAt sb), encode_int (sbUpdatedAt sb)])),
      jsSandboxOf = (\<lambda>b. case decode_fields [] b of
        [i, st, w, p, k, src, c, u] \<Rightarrow> Inr \<lparr>sbID = i, sbState = decode_state st, sbWorkerID = w,
          sbLocalSnapshotPath = p, sbObjectKey = k, sbSnapshotSource = decode_source src,
          sbCreatedAt = decode_int c, sbUpdatedAt = decode_int u\<rparr>
        | _ \<Rightarrow> Inl (Errorf ''unexpected end of JSON input'')),
      jsWorker = (\<lambda>w. Inr (encode_fields [wkID w, wkAddress w, encode_int (wkMaxSlots w),
        encode_int (wkUsedSlots w), (if wkHealthy w then ''t'' else ''''), encode_int (wkRegisteredAt w)])),
      jsWorkerOf = (\<lambda>b. case decode_fields [] b of
        [i, a, m, u, h, t] \<Rightarrow> Inr \<lparr>wkID = i, wkAddress = a, wkMaxSlots = decode_int m,
          wkUsedSlots = decode_int u, wkHealthy = (h \<noteq> ''''), wkRegisteredAt = decode_int t\<rparr>
        | _ \<Rightarrow> Inl (Errorf ''unexpected end of JSON input''))\<rparr>"

lemma fields_lossless: "json_lossless fields_codec"
  by (simp add: json_lossless_def fields_codec_def decode_encode_fields)

section \<open>Properties\<close>


definition demo_ops :: "store_op list" where
  "demo_ops = [PutSb (zero_sandbox\<lparr>sbID := ''a''\<rparr>), GetSb ''a'', ListSb, DelSb ''a'', GetSb ''a'', GetGd]"


text \<open>The empty prefix: not ready for one store, a prefix for the other.\<close>

lemma empty_golden_differs:
  "store_run Memory [PutGd '''', GetGd] NewMemory
     = [AnsWrite None, AnsGolden (Inl (Errorf ''golden snapshot not ready''))]"
  "store_run (Redis cells_client fields_codec) [PutGd '''', GetGd] [] = [AnsWrite None, AnsGolden (Inr '''')]"
  by (simp_all add: memory_defs NewMemory_def Redis_def Redis_PutGolden_def Redis_GetGolden_def cells_client_def)

text \<open>
  A damaged record disappears from listings. A listing succeeds whenever the set of names can be
  read, and holds exactly the records that can be read and decoded, in the order of the names; a record
  that cannot be decoded is left out without an error, though a read of it reports the error.
\<close>

theorem listing_hides_damage:
  assumes "rcSMembers C keySandboxes r = Inr ids"
  shows "\<exists>l. Redis_ListSandboxes C J r = Inr l
    \<and> l = concat (map (\<lambda>sid. case Redis_GetSandbox C J sid r of Inl _ \<Rightarrow> [] | Inr sb \<Rightarrow> [sb]) ids)
    \<and> (\<forall>sid b e. rcGet C (keySandboxPrefix @ sid) r = Inr (Some b) \<longrightarrow> jsSandboxOf J b = Inl e \<longrightarrow>
         Redis_GetSandbox C J sid r = Inl e)"
proof -
  have "collect get xs = concat (map (\<lambda>sid. case get sid of Inl _ \<Rightarrow> [] | Inr v \<Rightarrow> [v]) xs)"
    for get :: "string \<Rightarrow> sandbox result" and xs
    by (induction xs) (auto split: sum.split)
  then show ?thesis by (simp add: Redis_ListSandboxes_def assms Redis_GetSandbox_def)
qed

theorem listing_hides_damage_witness:
  "\<exists>l. Redis_ListSandboxes cells_client fields_codec
      [(keySandboxes, CellSet [''a'']), (keySandboxPrefix @ ''a'', CellString ''x'')] = Inr l \<and> l = []"
proof -
  let ?r = "[(keySandboxes, CellSet [''a'']), (keySandboxPrefix @ ''a'', CellString ''x'')]"
  have ids: "rcSMembers cells_client keySandboxes ?r = Inr [''a'']"
    by (simp add: cells_client_def)
  have "Redis_GetSandbox cells_client fields_codec ''a'' ?r = Inl (Errorf ''unexpected end of JSON input'')"
    by (simp add: Redis_GetSandbox_def cells_client_def fields_codec_def redis_keys)
  then show ?thesis using listing_hides_damage [OF ids, of fields_codec] by auto
qed

end
