(* ===== verification/Reporting.thy ===== *)
theory Reporting
  imports ControlPlane WorkerResource
begin

text \<open>
  The way of a reading: what the pusher of a worker (\<open>internal/workerresource/pusher.go\<close>) sends on a
  tick and what the control plane (\<open>postResourceSignals\<close> of \<open>internal/controlplane/server.go\<close>) tells
  the policies after it.
\<close>

section \<open>Samples of a push\<close>

text \<open>A record as a sample leaves it.\<close>

definition sampled :: "gotime \<Rightarrow> sandbox_signals \<Rightarrow> sandbox_record \<Rightarrow> bool" where
  "sampled now x r \<longleftrightarrow> rcWorkerID r = sgWorkerID x \<and> rcRuntime r = sgRuntime (NormalizeLegacy x)
     \<and> snCheckpointInProgress (rcSnapshot r) = snCheckpointInProgress (sgSnapshot x) \<and> rcUpdatedAt r = now"

lemma apply_sample_get:
  assumes "sid \<noteq> ''''"
  shows "sgSandboxID x = sid \<Longrightarrow> \<exists>r. mget (ssBySandbox (apply_sample now x s)) sid = Some r \<and> sampled now x r"
    and "sgSandboxID x \<noteq> sid \<Longrightarrow> mget (ssBySandbox (apply_sample now x s)) sid = mget (ssBySandbox s) sid"
  using assms by (auto simp: apply_sample_def Let_def sampled_def)

lemma fold_sample_get:
  assumes "sid \<noteq> ''''" "\<forall>x\<in>set xs. sgSandboxID x = sid \<longrightarrow> x = y"
    and "(\<exists>x\<in>set xs. sgSandboxID x = sid) \<or> (\<exists>r. mget (ssBySandbox s) sid = Some r \<and> sampled now y r)"
  shows "\<exists>r. mget (ssBySandbox (fold (apply_sample now) xs s)) sid = Some r \<and> sampled now y r"
  using assms(2,3)
proof (induction xs arbitrary: s)
  case (Cons x xs)
  have "(\<exists>z\<in>set xs. sgSandboxID z = sid) \<or> (\<exists>r. mget (ssBySandbox (apply_sample now x s)) sid = Some r \<and> sampled now y r)"
  proof (cases "sgSandboxID x = sid")
    case True
    then show ?thesis using apply_sample_get(1) [OF assms(1) True, of now s] Cons.prems(1) by auto
  next
    case False
    then show ?thesis using apply_sample_get(2) [OF assms(1) False, of now s] Cons.prems(2) by auto
  qed
  then show ?case using Cons.IH [of "apply_sample now x s"] Cons.prems(1) by simp
qed simp

lemma time_Sub_self: "time_Sub now now = 0"
  by (simp add: time_Sub_def min_int64_def max_int64_def)

lemma ApplyPush_get:
  assumes "store_ok s" "sid \<noteq> ''''" "y \<in> set (puSamples p)" "sgSandboxID y = sid"
    and "\<forall>x\<in>set (puSamples p). sgSandboxID x = sid \<longrightarrow> x = y"
  shows "\<exists>sig. GetSandbox (ApplyPush p now s) sid now = Some sig \<and> sgWorkerID sig = sgWorkerID y
    \<and> sgRuntime sig = sgRuntime (NormalizeLegacy y)
    \<and> snCheckpointInProgress (sgSnapshot sig) = snCheckpointInProgress (sgSnapshot y) \<and> sgReportedAt sig = now"
proof -
  obtain r where r: "mget (ssBySandbox (fold (apply_sample now) (puSamples p) (apply_worker_row now p s))) sid = Some r"
      "sampled now y r"
    using fold_sample_get [OF assms(2,5)] assms(3,4) by blast
  have ok: "store_ok (fold (apply_sample now) (puSamples p) (apply_worker_row now p s))"
    using assms(1) by simp
  have "\<not> time_Sub now (rcUpdatedAt r) > ssTTL s"
    using r(2) assms(1) by (simp add: sampled_def time_Sub_self store_ok_def)
  then have "mget (ssBySandbox (ApplyPush p now s)) sid = Some r" "ssTTL (ApplyPush p now s) = ssTTL s"
    using purge_sandbox [OF ok, of now sid] r(1) by (simp_all add: ApplyPush_def)
  then show ?thesis
    using r(2) assms(1) by (simp add: GetSandbox_def sampled_def time_Sub_self store_ok_def toSandboxSignals_def Let_def)
qed

section \<open>From the worker to the policies\<close>

lemma NormalizeLegacy_sample: "NormalizeLegacy (sample_signals now x) = sample_signals now x"
  by (simp add: NormalizeLegacy_def sample_signals_def Let_def IsZero_def)

lemma attributed_sample_signals:
  "\<exists>u. attributed_sample (saWorkerID x) t (sample_signals now x) = (sample_signals now x)\<lparr>sgReportedAt := u\<rparr>"
proof -
  have "(sample_signals now x)\<lparr>sgWorkerID := saWorkerID x\<rparr> = sample_signals now x"
    by (simp add: sample_signals_def)
  then have "attributed_sample (saWorkerID x) t (sample_signals now x) =
      (if IsZero (sgReportedAt (sample_signals now x)) then (sample_signals now x)\<lparr>sgReportedAt := t\<rparr>
       else sample_signals now x)"
    by (simp only: attributed_sample_def NormalizeLegacy_sample Let_def)
  moreover have "sample_signals now x = (sample_signals now x)\<lparr>sgReportedAt := now\<rparr>"
    by (simp add: sample_signals_def)
  ultimately show ?thesis by metis
qed

lemma BuildSamples_ids: "map saSandboxID (BuildSamples ids w now a) = ids"
  by (induction ids) (auto simp: BuildSamples_def Let_def)

lemma BuildSamples_mem:
  "x \<in> set (BuildSamples ids w now a) \<Longrightarrow>
     x = hd (BuildSamples [saSandboxID x] w now a) \<and> saSandboxID x \<in> set ids"
  by (auto simp: BuildSamples_def Let_def)

lemma pushOnce_request:
  assumes "pushOnce p F now (a, st) = (Some (url, pu), a', st')" "util_ok a" "psListActive p = Some l"
  shows "puWorkerID pu = psWorkerID p \<and> url = psControlPlaneURL p @ ''/v1/signals/resource''
    \<and> puSamples pu = map (sample_signals now) (BuildSamples (l ()) (psWorkerID p) now a') \<and> util_ok a'
    \<and> acCheckpointing a' = acCheckpointing a \<and> acLastActive a' = acLastActive a
    \<and> 0 \<le> wrCPUUtil (puWorker pu) \<and> wrCPUUtil (puWorker pu) \<le> 1
    \<and> 0 \<le> wrMemUtil (puWorker pu) \<and> wrMemUtil (puWorker pu) \<le> 1"
proof -
  obtain a1 st1 where r: "refresh_metrics F (l ()) a st = (a1, st1)" by (metis prod.exhaust)
  obtain c m b k st2 where w: "ReadWorkerCgroup F st1 = ((c, m, b, k), st2)" by (metis prod.exhaust)
  note ReadWorkerCgroup_bounds [OF w]
  then show ?thesis
    using assms r w refresh_metrics_frame [OF r]
    by (auto simp: pushOnce_def Let_def split: if_splits)
qed

text \<open>
  C10: what a worker reports is what the policies see. When the pusher of a worker makes a request on a tick
  and the control plane receives it, the control plane answers 204, and from that instant on it knows
  every sandbox that was active on the worker: as hosted there, with a CPU share between 0 and 1, with
  the checkpoint flag of the worker, and active at the time the worker last marked it, or at the tick if
  it never did. The shares of the worker itself lie between 0 and 1 as well. This holds whatever the
  files of the kernel contain and however the clocks run.
\<close>

theorem push_reaches_policies:
  assumes "pushOnce p F now (a, st) = (Some (url, pu), a', st')" and "util_ok a"
    and "psListActive p = Some l" and "sid \<in> set (l ())" and "sid \<noteq> ''''" and "psWorkerID p \<noteq> ''''"
    and "sdSignals s = Some sg" and "store_ok sg"
    and "postResourceSignals cfg (Inr pu) s = (resp, s')"
  shows "resp = HttpOK 204 NoBody \<and> (\<exists>sg' sig. sdSignals s' = Some sg'
      \<and> GetSandbox sg' sid (cfNow cfg (sdTick s)) = Some sig \<and> sgWorkerID sig = psWorkerID p
      \<and> 0 \<le> rtCPUUtil (sgRuntime sig) \<and> rtCPUUtil (sgRuntime sig) \<le> 1
      \<and> snCheckpointInProgress (sgSnapshot sig) = (mget (acCheckpointing a) sid \<noteq> None)
      \<and> rtLastActiveAt (sgRuntime sig) =
          (let t = mget_or 0 (acLastActive a) sid in if IsZero t then now else t))
    \<and> wrCPUUtil (puWorker pu) \<in> {0..1} \<and> wrMemUtil (puWorker pu) \<in> {0..1}"
proof -
  note rq = pushOnce_request [OF assms(1-3)]
  define t where "t = cfNow cfg (sdTick s)"
  define x where "x = hd (BuildSamples [sid] (psWorkerID p) now a')"
  define y where "y = attributed_sample (psWorkerID p) t (sample_signals now x)"
  have x: "saSandboxID x = sid" "saWorkerID x = psWorkerID p"
    "saCheckpointInProgress x = (mget (acCheckpointing a) sid \<noteq> None)"
    "saLastActiveAt x = (let t = mget_or 0 (acLastActive a) sid in if IsZero t then now else t)"
    "0 \<le> saCPUUtil x" "saCPUUtil x \<le> 1"
    using rq by (simp_all add: x_def BuildSamples_def Let_def util_ok_def)
  obtain u where u: "y = (sample_signals now x)\<lparr>sgReportedAt := u\<rparr>"
    using attributed_sample_signals [of x t now] by (auto simp: y_def x(2))
  have samples: "puSamples (attributed_push t pu) = map (\<lambda>z. attributed_sample (psWorkerID p) t (sample_signals now z))
      (BuildSamples (l ()) (psWorkerID p) now a')"
    using rq by (simp add: attributed_push_def Let_def)
  have only: "z = y" if "z \<in> set (puSamples (attributed_push t pu))" "sgSandboxID z = sid" for z
  proof -
    note h = that
    obtain z' where z': "z' \<in> set (BuildSamples (l ()) (psWorkerID p) now a')"
      "z = attributed_sample (psWorkerID p) t (sample_signals now z')" using h(1) by (auto simp: samples)
    have "sgSandboxID z = saSandboxID z'"
      by (simp add: z'(2) attributed_sample_def sample_signals_def Let_def)
    then show ?thesis using BuildSamples_mem [OF z'(1)] h(2) z'(2) by (simp add: y_def x_def)
  qed
  have "sid \<in> saSandboxID ` set (BuildSamples (l ()) (psWorkerID p) now a')"
    using assms(4) BuildSamples_ids [of "l ()" "psWorkerID p" now a'] by (metis list.set_map)
  then have mem: "y \<in> set (puSamples (attributed_push t pu))"
    using BuildSamples_mem by (fastforce simp: samples y_def x_def)
  have ysid: "sgSandboxID y = sid" by (simp add: u sample_signals_def x(1))
  obtain sig where sig: "GetSandbox (ApplyPush (attributed_push t pu) t sg) sid t = Some sig"
      "sgWorkerID sig = sgWorkerID y" "sgRuntime sig = sgRuntime (NormalizeLegacy y)"
      "snCheckpointInProgress (sgSnapshot sig) = snCheckpointInProgress (sgSnapshot y)"
    using ApplyPush_get [OF assms(8,5) mem ysid] only by blast
  have y: "sgWorkerID y = psWorkerID p" "snCheckpointInProgress (sgSnapshot y) = saCheckpointInProgress x"
    "sgRuntime (NormalizeLegacy y) = \<lparr>rtCPUUtil = saCPUUtil x, rtMemRSSBytes = saMemRSSBytes x, rtLastActiveAt = saLastActiveAt x\<rparr>"
    by (simp_all add: u sample_signals_def x(2) NormalizeLegacy_def Let_def IsZero_def)
  have "resp = HttpOK 204 NoBody" "sdSignals s' = Some (ApplyPush (attributed_push t pu) t sg)"
    using assms(6,7,9) rq by (auto simp: postResourceSignals_def time_Now_def on_signals_def t_def tick_def)
  then show ?thesis using sig y x rq by (simp add: t_def)
qed

definition demo_pusher :: pusher where
  "demo_pusher = \<lparr>psWorkerID = ''w'', psControlPlaneURL = ''http://c'', psInterval = 0,
     psListActive = Some (\<lambda>_. [''u'']), psIsHealthy = None\<rparr>"

definition no_files :: sys_files where
  "no_files = \<lparr>sfRead = (\<lambda>_. None), sfWalk = [], sfNow = int\<rparr>"

theorem push_reaches_policies_witness:
  "\<exists>url pu a' st' resp s' sig sg'. pushOnce demo_pusher no_files 7 (NewActivity, cpu_start) = (Some (url, pu), a', st')
     \<and> postResourceSignals demo_cfg (Inr pu) (demo_start\<lparr>sdSignals := Some (NewStore 1)\<rparr>) = (resp, s')
     \<and> resp = HttpOK 204 NoBody \<and> sdSignals s' = Some sg' \<and> GetSandbox sg' ''u'' 0 = Some sig
     \<and> rtLastActiveAt (sgRuntime sig) = 7"
proof -
  let ?s = "demo_start\<lparr>sdSignals := Some (NewStore 1)\<rparr>"
  obtain r a' st' where r: "pushOnce demo_pusher no_files 7 (NewActivity, cpu_start) = (r, a', st')"
    by (metis prod.exhaust)
  then have "r \<noteq> None" by (auto simp: pushOnce_def demo_pusher_def Let_def split: prod.splits)
  then obtain url pu where run: "pushOnce demo_pusher no_files 7 (NewActivity, cpu_start) = (Some (url, pu), a', st')"
    using r by auto
  obtain resp s' where post: "postResourceSignals demo_cfg (Inr pu) ?s = (resp, s')" by (metis prod.exhaust)
  have ok: "util_ok NewActivity" by (simp add: util_ok_def NewActivity_def mget_or_def)
  have p: "psListActive demo_pusher = Some (\<lambda>_. [''u''])" "psWorkerID demo_pusher = ''w''" by (simp_all add: demo_pusher_def)
  have pre: "''u'' \<in> set ((\<lambda>_ :: unit. [''u'']) ())" "''u'' \<noteq> ([] :: string)" "psWorkerID demo_pusher \<noteq> ''''"
    "sdSignals ?s = Some (NewStore 1)" by (simp_all add: p)
  have "cfNow demo_cfg (sdTick ?s) = 0" "mget_or 0 (acLastActive NewActivity) ''u'' = 0"
    by (simp_all add: demo_cfg_def demo_start_def sched_New_def NewActivity_def mget_or_def)
  with push_reaches_policies [OF run ok p(1) pre store_ok_NewStore [of 1] post]
  show ?thesis using run post by (simp add: IsZero_def Let_def) blast
qed

end
