(* ===== verification/ControlMain.thy ===== *)
theory ControlMain
  imports Redis ControlPlane SchedTermination GoText
begin

text \<open>
  The control plane as \<open>cmd/controlplane/main.go\<close> puts it together: the settings it reads from the
  environment, the scheduler on Redis, on the workers over HTTP and on the configured policy, the wait
  for Redis at the start and the loop that prepares the golden snapshot. Listening, logging and the
  shutdown on a signal are left out. The two loops test the clock each time round; as a clock may stand
  still they are partial functions, with the value \<open>None\<close> where they do not return.
\<close>

section \<open>Settings\<close>

definition env_or :: "environ \<Rightarrow> string \<Rightarrow> string \<Rightarrow> string" where
  "env_or getenv k def = (let v = getenv k in if v \<noteq> '''' then v else def)"

definition envDuration :: "environ \<Rightarrow> string \<Rightarrow> duration \<Rightarrow> duration" where
  "envDuration getenv k def =
     (let v = getenv k
      in if v \<noteq> '''' then (case time_ParseDuration v of Some d \<Rightarrow> d | None \<Rightarrow> def) else def)"

record main_settings =
  msAddr :: string
  msRedisAddr :: string
  msPolicy :: policy
  msSnapRoot :: string
  msSignalTTL :: duration

definition controlplane_settings :: "(string \<Rightarrow> real option) \<Rightarrow> environ \<Rightarrow> main_settings result" where
  "controlplane_settings parseFloat getenv =
     (let policyName = env_or getenv ''POLICY'' ''semantic-score''
      in case policy_New parseFloat getenv policyName of
           Inl e \<Rightarrow> Inl e
         | Inr pol \<Rightarrow> Inr
             \<lparr>msAddr = env_or getenv ''LISTEN_ADDR'' '':8080'',
              msRedisAddr = env_or getenv ''REDIS_ADDR'' ''127.0.0.1:6379'',
              msPolicy = pol,
              msSnapRoot = env_or getenv ''SNAPSHOT_ROOT'' ''/var/lib/actordock/snapshots'',
              msSignalTTL = envDuration getenv ''SIGNAL_TTL'' (30 * second)\<rparr>)"

text \<open>The scheduler on its parts; the clock, the random generator and the UUIDs are arguments.\<close>

definition controlplane_cfg ::
    "'r redis_client \<Rightarrow> json_codec \<Rightarrow> 'h host_api \<Rightarrow> environ \<Rightarrow> (nat \<Rightarrow> gotime) \<Rightarrow> (nat \<Rightarrow> nat) \<Rightarrow>
     (nat \<Rightarrow> string) \<Rightarrow> main_settings \<Rightarrow> ('r, 'h cluster) sched_cfg" where
  "controlplane_cfg C J H getenv now draw uuid ms =
     \<lparr>cfStore = Redis C J, cfPolicy = msPolicy ms, cfWorkers = http_workers H, cfSnapRoot = msSnapRoot ms,
      cfNow = now, cfDraw = draw, cfUUID = uuid, cfEnv = getenv\<rparr>"

definition controlplane_start :: "main_settings \<Rightarrow> 'r \<Rightarrow> 'h cluster \<Rightarrow> ('r, 'h cluster) scheduler" where
  "controlplane_start ms r w =
     sched_New r w (Some (new_metrics (policy_Name (msPolicy ms)))) (Some (NewStore (msSignalTTL ms)))"

section \<open>The two loops\<close>

text \<open>Attempt \<open>i\<close> of the wait comes after reading \<open>i\<close> of the clock and its outcome is \<open>ping i\<close>.\<close>

partial_function (option) wait_loop ::
    "(nat \<Rightarrow> gotime) \<Rightarrow> (nat \<Rightarrow> go_error option) \<Rightarrow> gotime \<Rightarrow> nat \<Rightarrow> go_error option \<Rightarrow> go_error option option" where
  "wait_loop now ping deadline i lastErr =
     (if now i < deadline then
        (case ping i of
           None \<Rightarrow> Some None
         | Some e \<Rightarrow> wait_loop now ping deadline (Suc i) (Some e))
      else Some lastErr)"

definition waitRedis :: "(nat \<Rightarrow> gotime) \<Rightarrow> (nat \<Rightarrow> go_error option) \<Rightarrow> gotime \<Rightarrow> go_error option option" where
  "waitRedis now ping start = wait_loop now ping (time_Add start (60 * second)) 0 None"

text \<open>
  The loop that builds the golden snapshot: whether it was built before the deadline, and the state.
  Between two attempts other requests may change the state in any way that \<open>others\<close> says.
\<close>

partial_function (option) golden_loop ::
    "('m, 'w) sched_cfg \<Rightarrow> (('m, 'w) scheduler \<Rightarrow> ('m, 'w) scheduler) \<Rightarrow> gotime \<Rightarrow> ('m, 'w) scheduler \<Rightarrow>
     (bool \<times> ('m, 'w) scheduler) option" where
  "golden_loop cfg others deadline s =
     (case time_Now cfg s of (now, s1) \<Rightarrow>
       if now < deadline then
         (case EnsureGolden cfg s1 of
            (Inr p, s2) \<Rightarrow> Some (True, s2)
          | (Inl e, s2) \<Rightarrow> golden_loop cfg others deadline (others s2))
       else Some (False, s1))"

definition golden_main ::
    "('m, 'w) sched_cfg \<Rightarrow> (('m, 'w) scheduler \<Rightarrow> ('m, 'w) scheduler) \<Rightarrow> ('m, 'w) scheduler \<Rightarrow>
     (bool \<times> ('m, 'w) scheduler) option" where
  "golden_main cfg others s =
     (case time_Now cfg s of (now, s) \<Rightarrow> golden_loop cfg others (time_Add now (180 * second)) s)"

text \<open>
  C33: the wait for Redis ends. If the clock passes the deadline at some reading, the wait returns; it
  returns no error exactly if some ping before the first such reading succeeded, or if not even one
  ping was made because the deadline had passed at the first reading.
\<close>

theorem wait_redis_returns:
  assumes "start + 60 * second \<le> now k" and "\<forall>j<k. now j < start + 60 * second"
  shows "\<exists>r. waitRedis now ping start = Some r
    \<and> (r = None \<longleftrightarrow> k = 0 \<or> (\<exists>j<k. ping j = None))
    \<and> (r \<noteq> None \<longrightarrow> r = ping (k - 1))"
proof -
  have loop: "\<exists>r. wait_loop now ping (start + 60 * second) i e = Some r
      \<and> (r = None \<longleftrightarrow> (\<exists>j. i \<le> j \<and> j < k \<and> ping j = None) \<or> i = k \<and> e = None)
      \<and> (r \<noteq> None \<longrightarrow> r = (if i = k then e else ping (k - 1)))" if "i \<le> k" for i e
    using that
  proof (induction "k - i" arbitrary: i e)
    case 0
    then have "i = k" by simp
    then show ?case using assms(1) by (subst wait_loop.simps) auto
  next
    case (Suc n)
    then have i: "i < k" by simp
    show ?case
    proof (cases "ping i")
      case None
      then show ?thesis using assms(2) i by (subst wait_loop.simps) auto
    next
      case (Some x)
      have step: "wait_loop now ping (start + 60 * second) i e =
          wait_loop now ping (start + 60 * second) (Suc i) (Some x)"
        using assms(2) i Some by (subst wait_loop.simps) simp
      have "(\<exists>j. Suc i \<le> j \<and> j < k \<and> ping j = None) = (\<exists>j. i \<le> j \<and> j < k \<and> ping j = None)"
        using Some by (metis Suc_leD le_neq_implies_less not_less_eq_eq option.distinct(1) Suc_leI)
      moreover have "(if Suc i = k then Some x else ping (k - 1)) = ping (k - 1)"
        using Some i by auto
      ultimately show ?thesis using Suc.hyps(1) [of "Suc i" "Some x"] Suc.hyps(2) i unfolding step by auto
    qed
  qed
  show ?thesis using loop [of 0 None] by (auto simp: waitRedis_def time_Add_def)
qed

theorem wait_redis_returns_witness:
  "waitRedis (\<lambda>i. int i * 31 * second) (\<lambda>_. Some (Errorf ''refused'')) 0 = Some (Some (Errorf ''refused''))"
proof -
  have k: "0 + 60 * second \<le> int 2 * 31 * second" by (simp add: second_def)
  have lt: "\<forall>j<2. int j * 31 * second < 0 + 60 * second" by (auto simp: second_def)
  from wait_redis_returns [of 0 "\<lambda>i. int i * 31 * second" 2, OF k lt, of "\<lambda>_. Some (Errorf ''refused'')"]
  show ?thesis by auto
qed

text \<open>
  The golden loop ends. If the clock passes every time and stays past it, and other requests never
  set the readings of the clock back, the loop that prepares the golden snapshot returns from every
  state; when it returns success the last attempt has returned the prefix.
\<close>

theorem golden_loop_returns:
  assumes "\<And>t. \<exists>N. \<forall>n\<ge>N. t < cfNow cfg n" and "\<And>s. sdTick s \<le> sdTick (others s)"
  shows "\<exists>b s'. golden_main cfg others s = Some (b, s')
    \<and> (b \<longrightarrow> (\<exists>t p. EnsureGolden cfg t = (Inr p, s')))"
proof -
  define d where "d = time_Add (cfNow cfg (sdTick s)) (180 * second)"
  obtain N where N: "\<forall>n\<ge>N. d < cfNow cfg n" using assms(1) by blast
  have loop: "\<exists>b s'. golden_loop cfg others d s = Some (b, s') \<and> (b \<longrightarrow> (\<exists>t p. EnsureGolden cfg t = (Inr p, s')))" for s
  proof (induction "N - sdTick s" arbitrary: s rule: less_induct)
    case less
    have now: "time_Now cfg s = (cfNow cfg (sdTick s), tick s)" by (simp add: time_Now_def)
    show ?case
    proof (cases "cfNow cfg (sdTick s) < d")
      case True
      then have "sdTick s < N" using N by (meson less_le_not_le not_le order_less_trans)
      obtain r s2 where e: "EnsureGolden cfg (tick s) = (r, s2)" by (metis prod.exhaust)
      show ?thesis
      proof (cases r)
        case (Inr p)
        then show ?thesis using True e by (subst golden_loop.simps) (auto simp: now)
      next
        case (Inl x)
        have "sdTick (tick s) \<le> sdTick (others s2)"
          using EnsureGolden_tick [of "tick s" cfg] assms(2) [of s2] e by simp
        then have "N - sdTick (others s2) < N - sdTick s" using \<open>sdTick s < N\<close> by (simp add: tick_def)
        then show ?thesis using less [of "others s2"] True e Inl
          by (subst golden_loop.simps) (simp add: now)
      qed
    next
      case False
      then show ?thesis by (subst golden_loop.simps) (auto simp: now)
    qed
  qed
  show ?thesis using loop [of "tick s"] by (simp add: golden_main_def time_Now_def d_def)
qed

theorem golden_loop_returns_witness:
  "\<exists>b s'. golden_main demo_cfg (\<lambda>s. s) demo_start = Some (b, s')"
proof -
  have "\<exists>N. \<forall>n\<ge>N. t < cfNow demo_cfg n" for t
    by (rule exI [of _ "nat t + 1"]) (auto simp: demo_cfg_def)
  from golden_loop_returns [of demo_cfg "\<lambda>s. s" demo_start, OF this] show ?thesis by auto
qed

section \<open>The system on Redis\<close>

text \<open>
  A state to start from: the stored sandboxes are those of clients, and each one stored as running holds
  the slot of its worker. The control plane may have run before.
\<close>

definition sound_start ::
    "json_codec \<Rightarrow> ('r \<Rightarrow> bool) \<Rightarrow> ('r \<Rightarrow> string \<Rightarrow> redis_value option) \<Rightarrow> 'r \<Rightarrow> 'h cluster \<Rightarrow> bool" where
  "sound_start J up vals r w \<longleftrightarrow> redis_ok J up vals r \<and> cluster_ok w
     \<and> (\<forall>sid sb. redis_sandboxes J vals r sid = Some sb \<longrightarrow> \<not> foreign_name sid
          \<and> (is_running sb \<longrightarrow> (\<exists>v. redis_workers J vals r (sbWorkerID sb) = Some v
               \<and> cluster_slot w (wkAddress v) = Some sid)))"

lemma redis_env:
  assumes "redis_server C up vals" "json_lossless J"
  shows "sched_env (controlplane_cfg C J H getenv now draw uuid ms) (redis_ok J up vals) (redis_sandboxes J vals)
    (redis_workers J vals) (redis_golden vals) cluster_ok cluster_slot"
  using redis_metadata_store [OF assms] http.worker_pool_axioms
  by (simp add: sched_env_def controlplane_cfg_def)

lemma start_agrees:
  assumes C: "redis_server C up vals" "json_lossless J" and s: "sound_start J up vals r w"
  shows "sched_env.agree (redis_ok J up vals) (redis_sandboxes J vals) (redis_workers J vals) cluster_ok cluster_slot
    (controlplane_start ms r w, Map.empty)"
proof -
  note E = redis_env [OF C, of H getenv now draw uuid ms for H :: "'b host_api" and getenv now draw uuid ms]
  have none: "redis_sandboxes J vals r sid = None" if "foreign_name sid" for sid
    using s that by (cases "redis_sandboxes J vals r sid") (auto simp: sound_start_def)
  show ?thesis
    using s none by (auto simp: sched_env.agree_but_def [OF E] sched_env.store_but_def [OF E] sched_env.good_def [OF E]
        sched_env.sbs_def [OF E] sched_env.addr_def [OF E] sched_env.slots_def [OF E] sound_start_def
        controlplane_start_def sched_New_def) blast
qed

lemma redis_plain_env:
  fixes H :: "'h host_api"
  assumes "redis_server C up vals" "json_lossless J"
  shows "plain_env (controlplane_cfg C J H getenv now draw uuid ms) (redis_ok J up vals) (redis_sandboxes J vals)
    (redis_workers J vals) (redis_golden vals) cluster_ok cluster_slot"
proof (rule plain_env.intro [OF redis_env [OF assms]], unfold_locales)
  let ?cfg = "controlplane_cfg C J H getenv now draw uuid ms"
  show "redis_ok J up vals m \<Longrightarrow> stGetSandbox (cfStore ?cfg) sid m = Inl e \<Longrightarrow> plain e" for m sid e
    by (auto simp: controlplane_cfg_def Redis_def redis_reads(1) [OF assms(1)] split: option.splits)
  show "redis_ok J up vals m \<Longrightarrow> stGetWorker (cfStore ?cfg) wid m = Inl e \<Longrightarrow> plain e" for m wid e
    by (auto simp: controlplane_cfg_def Redis_def redis_reads(2) [OF assms(1)] split: option.splits)
  show "wcBoot (cfWorkers ?cfg) a sid w = (Some e, w') \<Longrightarrow> plain e" for a sid w e w'
    by (auto simp: controlplane_cfg_def http_workers_def Client_Boot_def dest: client_err_plain)
  show "wcCheckpoint (cfWorkers ?cfg) a sid opts w = (Inl e, w') \<Longrightarrow> plain e" for a sid opts w e w'
    by (auto simp: controlplane_cfg_def http_workers_def Client_Checkpoint_def dest: client_do_plain)
qed

text \<open>
  Calls of \<open>Resume\<close> return in the deployment too: whatever policy the environment names, on a Redis
  server that answers and with a clock that passes every time.
\<close>

lemma production_resume_returns:
  fixes H :: "'h host_api"
  assumes "redis_server C up vals" "json_lossless J" "redis_ok J up vals (sdStore s)" "cluster_ok (sdWorld s)"
    and "\<And>t. \<exists>N. \<forall>n\<ge>N. t < now n"
  shows "\<exists>fuel r. \<forall>n\<ge>fuel. fst (Resume (controlplane_cfg C J H getenv now draw uuid ms) n sid s) = Some r"
proof (rule returns_Resume, rule plain_env.begin_returns [OF redis_plain_env [OF assms(1,2)]])
  show "sched_env.good (redis_ok J up vals) cluster_ok s"
    using assms(3,4) by (simp add: sched_env.good_def [OF redis_env [OF assms(1,2)]])
  show "\<And>t. \<exists>N. \<forall>n\<ge>N. t < cfNow (controlplane_cfg C J H getenv now draw uuid ms) n"
    using assms(5) by (simp add: controlplane_cfg_def)
qed


definition demo_books :: "redis_cells \<Rightarrow> demo_host cluster \<Rightarrow> bool" where
  "demo_books r w \<longleftrightarrow> redis_sandboxes fields_codec cells_vals r
       = [''u'' \<mapsto> (demo_sandbox ''u'')\<lparr>sbState := SandboxRunning, sbWorkerID := ''w''\<rparr>]
     \<and> redis_workers fields_codec cells_vals r = [''w'' \<mapsto> worker0 ''w'' 1]
     \<and> redis_ok fields_codec cells_up cells_vals r \<and> w = sdWorld demo_busy"

lemma demo_books_exist: "\<exists>r w. demo_books r w"
proof -
  let ?ok = "redis_ok fields_codec cells_up cells_vals"
  let ?sb = "(demo_sandbox ''u'')\<lparr>sbState := SandboxRunning, sbWorkerID := ''w''\<rparr>"
  have e: "?ok []" "redis_sandboxes fields_codec cells_vals [] = Map.empty" "redis_workers fields_codec cells_vals [] = Map.empty"
    by (simp_all add: redis_ok_def cells_up_def cells_vals_def table_ok_def members_def redis_sandboxes_def
        redis_workers_def entry_def fun_eq_iff)
  obtain r1 where r1: "?ok r1" "redis_workers fields_codec cells_vals r1 = [''w'' \<mapsto> worker0 ''w'' 1]"
      "redis_sandboxes fields_codec cells_vals r1 = Map.empty"
    using redis_put_worker [OF cells_server fields_lossless e(1), of "worker0 ''w'' 1"] e(2,3)
    by (auto simp: worker0_def)
  have "sbID ?sb = ''u''" by (simp add: demo_sandbox_def)
  then obtain r2 where "?ok r2" "redis_sandboxes fields_codec cells_vals r2 = [''u'' \<mapsto> ?sb]"
      "redis_workers fields_codec cells_vals r2 = [''w'' \<mapsto> worker0 ''w'' 1]"
    using redis_put_sandbox [OF cells_server fields_lossless r1(1), of ?sb] r1(2,3) by (metis (no_types, lifting))
  then show ?thesis by (auto simp: demo_books_def)
qed


end
