(* ===== verification/WorkerMain.thy ===== *)
theory WorkerMain
  imports ControlMain WorkerHost S3 Reporting
begin

text \<open>
  The worker as \<open>cmd/worker/main.go\<close> puts it together: the settings it reads from the environment, the
  directories it empties at the start, the object store it opens, the server, the pusher of signals and
  the registration with the control plane. Listening, logging and the shutdown on a signal are left
  out; the exporter of the metrics is the error it may give at the start.
\<close>

section \<open>Settings\<close>

record worker_settings =
  wtAddr :: string
  wtWorkerID :: string
  wtControlPlaneURL :: string
  wtAdvertise :: string
  wtRuntime :: gv_config
  wtPolicy :: string
  wtSignals :: bool
  wtInterval :: duration

definition worker_settings_of :: "environ \<Rightarrow> worker_settings" where
  "worker_settings_of getenv =
     \<lparr>wtAddr = env_or getenv ''LISTEN_ADDR'' '':8081'',
      wtWorkerID = env_or getenv ''WORKER_ID'' ''worker-0'',
      wtControlPlaneURL = env_or getenv ''CONTROLPLANE_URL'' '''',
      wtAdvertise = env_or getenv ''ADVERTISE_URL'' ''http://127.0.0.1:8081'',
      wtRuntime =
        \<lparr>gvRunscPath = env_or getenv ''RUNSC_PATH'' ''runsc'',
         gvStateDir = env_or getenv ''RUNSC_ROOT'' ''/var/lib/actordock/runsc'',
         gvBundleDir = env_or getenv ''BUNDLE_DIR'' ''/var/lib/actordock/bundles'',
         gvRootfs = env_or getenv ''ROOTFS'' ''/opt/actordock/rootfs'',
         gvPlatform = env_or getenv ''PLATFORM'' ''systrap'',
         gvNetwork = env_or getenv ''NETWORK'' ''none'',
         gvTimeout = 0\<rparr>,
      wtPolicy = env_or getenv ''POLICY'' ''worker'',
      wtSignals = envBool getenv ''SIGNAL_RESOURCE_ENABLED'' True,
      wtInterval = envDuration getenv ''SIGNAL_RESOURCE_INTERVAL'' (5 * second)\<rparr>"

section \<open>The start\<close>

fun reset_dirs :: "string list \<Rightarrow> 'p machine \<Rightarrow> go_error option \<times> 'p machine" where
  "reset_dirs [] m = (None, m)"
| "reset_dirs (p # ps) m =
     (case on_disk (os_MkdirAll p) (remove_all p m) of
        (Some e, m) \<Rightarrow> (Some e, m)
      | (None, m) \<Rightarrow> reset_dirs ps m)"

text \<open>
  \<open>filepath.Glob\<close> of the file stores of older workers. The root file system's own path is taken to have
  no pattern characters.
\<close>

definition filestores :: "string \<Rightarrow> disk \<Rightarrow> string list" where
  "filestores rootfs d =
     (let dir = filepath_Dir (filepath_Join [rootfs, ''.gvisor.filestore.*''])
      in if is_dir dir d
         then map (\<lambda>n. filepath_Join [dir, n]) (List.filter (prefix ''.gvisor.filestore.'') (dir_entries dir d))
         else [])"

definition remove_filestores :: "string \<Rightarrow> 'p machine \<Rightarrow> 'p machine" where
  "remove_filestores rootfs m =
     m\<lparr>mcDisk := fold (\<lambda>p d. snd (os_Remove p d)) (filestores rootfs (mcDisk m)) (mcDisk m)\<rparr>"

definition openSnapshotStore ::
    "(s3_options \<Rightarrow> 's s3_client) \<Rightarrow> environ \<Rightarrow> 's S3_store option result" where
  "openSnapshotStore dial getenv =
     (let endpoint = env_or getenv ''S3_ENDPOINT'' '''' in
      if endpoint = '''' then Inr None
      else case NewS3 dial
               \<lparr>scEndpoint = endpoint, scRegion = env_or getenv ''S3_REGION'' ''us-east-1'',
                scBucket = env_or getenv ''S3_BUCKET'' ''actordock-snapshots'',
                scAccessKey = env_or getenv ''S3_ACCESS_KEY'' ''rustfsadmin'',
                scSecretKey = env_or getenv ''S3_SECRET_KEY'' ''rustfsadmin'',
                scPathStyle = strings_EqualFold (env_or getenv ''S3_PATH_STYLE'' ''true'') ''true''\<rparr> of
             Inl e \<Rightarrow> Inl e
           | Inr st \<Rightarrow> Inr (Some st))"

text \<open>The running worker: the API its handlers call and the server with its empty slot.\<close>

record ('p, 's) worker_process =
  wpSettings :: worker_settings
  wpRuntime :: gv_config
  wpSnaps :: "'s S3_store option"
  wpHost :: "('p, 's) worker_host host_api"
  wpServer :: "('p, 's) worker_host worker_server"

definition worker_start ::
    "'p commands \<Rightarrow> snap_lib \<Rightarrow> (s3_options \<Rightarrow> 's s3_client) \<Rightarrow> environ \<Rightarrow> go_error option \<Rightarrow>
     ('p, 's) worker_host \<Rightarrow> ('p, 's) worker_process result \<times> ('p, 's) worker_host" where
  "worker_start C L dial getenv exporter h =
     (let ws = worker_settings_of getenv in
      case on_machine (gv_New C (wtRuntime ws)) h of
        (Inl e, h) \<Rightarrow> (Inl e, h)
      | (Inr rt, h) \<Rightarrow>
          (case on_machine (reset_dirs [env_or getenv ''RUNSC_ROOT'' ''/var/lib/actordock/runsc'',
                  env_or getenv ''BUNDLE_DIR'' ''/var/lib/actordock/bundles'']) h of
             (Some e, h) \<Rightarrow> (Inl e, h)
           | (None, h) \<Rightarrow>
               let h = h\<lparr>whMachine := remove_filestores (env_or getenv ''ROOTFS'' ''/opt/actordock/rootfs'') (whMachine h)\<rparr>
               in case openSnapshotStore dial getenv of
                    Inl e \<Rightarrow> (Inl e, h)
                  | Inr snaps \<Rightarrow>
                      (case exporter of
                         Some e \<Rightarrow> (Inl e, h)
                       | None \<Rightarrow>
                           (Inr \<lparr>wpSettings = ws, wpRuntime = rt, wpSnaps = snaps,
                              wpHost = agent_host C rt L (map_option s3_snaps snaps),
                              wpServer = New (wtWorkerID ws) h (Some (new_metrics (wtPolicy ws))) (Some NewActivity)\<rparr>, h))))"

section \<open>Signals and registration\<close>

text \<open>The pusher, if one is started; it asks the server for the active sandboxes on each tick.\<close>

definition worker_pusher :: "worker_settings \<Rightarrow> 'h worker_server \<Rightarrow> pusher option" where
  "worker_pusher ws srv =
     (if wtSignals ws \<and> wtControlPlaneURL ws \<noteq> ''''
      then Some \<lparr>psWorkerID = wtWorkerID ws,
                 psControlPlaneURL = strings_TrimRight (wtControlPlaneURL ws) slash,
                 psInterval = wtInterval ws,
                 psListActive = Some (\<lambda>_. ActiveSandboxIDs srv), psIsHealthy = None\<rparr>
      else None)"

text \<open>
  The requests of the first \<open>n\<close> rounds of \<open>registerLoop\<close>, one each five seconds: whatever is answered,
  the same record is sent again. An address that is no URL gives no request.
\<close>

definition registerLoop :: "(string \<Rightarrow> bool) \<Rightarrow> string \<Rightarrow> worker \<Rightarrow> nat \<Rightarrow> (string \<times> worker) list" where
  "registerLoop valid_url base w n =
     (let url = base @ ''/v1/workers/register'' in if valid_url url then replicate n (url, w) else [])"

definition registrations ::
    "(string \<Rightarrow> bool) \<Rightarrow> worker_settings \<Rightarrow> gotime \<Rightarrow> nat \<Rightarrow> (string \<times> worker) list" where
  "registrations valid_url ws now n =
     (if wtControlPlaneURL ws \<noteq> ''''
      then registerLoop valid_url (wtControlPlaneURL ws)
             \<lparr>wkID = wtWorkerID ws, wkAddress = wtAdvertise ws, wkMaxSlots = 1, wkUsedSlots = 0,
              wkHealthy = True, wkRegisteredAt = now\<rparr> n
      else [])"

text \<open>
  With a URL that ends in a slash the pusher drops the slash and the registration does not: it posts to
  a path with two slashes, which no route of the control plane has.
\<close>

lemma trailing_slash_registers_elsewhere:
  assumes "wtControlPlaneURL ws = ''http://c/''" "wtSignals ws" "registrations valid_url ws now n = (url, w) # rest"
  shows "url = ''http://c//v1/workers/register''"
    and "map_option psControlPlaneURL (worker_pusher ws srv) = Some ''http://c''"
proof -
  have "(url, w) \<in> set (registrations valid_url ws now n)" using assms(3) by simp
  then show "url = ''http://c//v1/workers/register''"
    using assms(1) by (auto simp: registrations_def registerLoop_def Let_def split: if_splits)
  show "map_option psControlPlaneURL (worker_pusher ws srv) = Some ''http://c''"
    using assms(1,2) by (simp add: worker_pusher_def strings_TrimRight_def)
qed

section \<open>The directories after the start\<close>

lemma env_or_nonempty: "def \<noteq> '''' \<Longrightarrow> env_or getenv k def \<noteq> ''''"
  by (simp add: env_or_def Let_def)

lemma env_dirs [simp]:
  "or_default (env_or getenv ''RUNSC_ROOT'' ''/var/lib/actordock/runsc'') def = env_or getenv ''RUNSC_ROOT'' ''/var/lib/actordock/runsc''"
  "or_default (env_or getenv ''BUNDLE_DIR'' ''/var/lib/actordock/bundles'') def = env_or getenv ''BUNDLE_DIR'' ''/var/lib/actordock/bundles''"
  "or_default (env_or getenv ''ROOTFS'' ''/opt/actordock/rootfs'') def = env_or getenv ''ROOTFS'' ''/opt/actordock/rootfs''"
  using env_or_nonempty by (simp_all add: or_default_def)

definition off_path :: "string \<Rightarrow> string list \<Rightarrow> bool" where
  "off_path p q \<longleftrightarrow> \<not> prefix q (resolve p) \<and> \<not> prefix (resolve p) q"

lemma gv_New_effect:
  assumes "disk_ok (mcDisk m)" "gv_New C cfg m = (r, m')"
  shows "disk_ok (mcDisk m')" "mcProcs m' = mcProcs m" "\<And>x. r = Inr x \<Longrightarrow> x = gv_defaults cfg"
    "off_path (gvStateDir (gv_defaults cfg)) q \<Longrightarrow> off_path (gvBundleDir (gv_defaults cfg)) q \<Longrightarrow>
       mget (mcDisk m') q = mget (mcDisk m) q"
proof -
  let ?S = "gvStateDir (gv_defaults cfg)" and ?B = "gvBundleDir (gv_defaults cfg)"
  obtain e1 d1 where 1: "os_MkdirAll ?S (mcDisk m) = (e1, d1)" by (metis prod.exhaust)
  obtain e2 d2 where 2: "os_MkdirAll ?B d1 = (e2, d2)" by (metis prod.exhaust)
  have ok: "disk_ok d1" "disk_ok d2" using os_MkdirAll_ok [OF assms(1) 1] os_MkdirAll_ok [OF _ 2] by blast+
  have m': "m' = m\<lparr>mcDisk := d1\<rparr> \<or> m' = m\<lparr>mcDisk := d2\<rparr>" and r: "\<And>x. r = Inr x \<Longrightarrow> x = gv_defaults cfg"
    using assms(2) 1 2 by (auto simp: gv_New_def on_disk_def Let_def split: option.splits sum.splits)
  have "off_path ?S q \<Longrightarrow> mget d1 q = mget (mcDisk m) q" "off_path ?B q \<Longrightarrow> mget d2 q = mget d1 q"
    using os_MkdirAll_frame(4) [OF 1, of q] os_MkdirAll_frame(4) [OF 2, of q] by (auto simp: off_path_def)
  then show "disk_ok (mcDisk m')" "mcProcs m' = mcProcs m" "\<And>x. r = Inr x \<Longrightarrow> x = gv_defaults cfg"
    "off_path ?S q \<Longrightarrow> off_path ?B q \<Longrightarrow> mget (mcDisk m') q = mget (mcDisk m) q"
    using m' ok r by auto
qed

text \<open>One directory that is emptied, and the two that are emptied one after the other.\<close>

lemma reset_one:
  assumes "disk_ok d" "os_MkdirAll p (os_RemoveAll p d) = (e, d')"
  shows "disk_ok d'" "off_path p q \<Longrightarrow> mget d' q = mget d q"
    "e = None \<Longrightarrow> strict_prefix (resolve p) q \<Longrightarrow> mget d' q = None"
    "e = None \<Longrightarrow> prefix q (resolve p) \<Longrightarrow> q \<noteq> [] \<Longrightarrow> mget d' q = Some DirNode"
proof -
  have g: "gomap_ok d" using assms(1) by (simp add: disk_ok_def)
  show "disk_ok d'" by (rule os_MkdirAll_ok [OF os_RemoveAll_ok [OF assms(1)] assms(2)])
  show "mget d' q = mget d q" if "off_path p q"
    using that os_MkdirAll_frame(4) [OF assms(2), of q] by (auto simp: off_path_def os_RemoveAll_get [OF g])
  show "mget d' q = None" if "e = None" "strict_prefix (resolve p) q"
  proof -
    note h = that
    obtain es where "q = resolve p @ es" "es \<noteq> []" using h(2) by (auto simp: strict_prefix_def prefix_def)
    then show ?thesis using emptied_directory [OF assms(1), of p d' es] assms(2) h(1) by simp
  qed
  show "mget d' q = Some DirNode" if "e = None" "prefix q (resolve p)" "q \<noteq> []"
    using os_MkdirAll_made [OF assms(2) [unfolded that(1)] that(2,3)] .
qed

definition empty_dir :: "disk \<Rightarrow> string \<Rightarrow> bool" where
  "empty_dir d p \<longleftrightarrow> (resolve p = [] \<or> mget d (resolve p) = Some DirNode)
     \<and> (\<forall>q. strict_prefix (resolve p) q \<longrightarrow> mget d q = None)"

lemma reset_two:
  assumes "disk_ok (mcDisk m)" "reset_dirs [p1, p2] m = (None, m')"
    and "\<not> prefix (resolve p1) (resolve p2)" "\<not> prefix (resolve p2) (resolve p1)"
  shows "disk_ok (mcDisk m')" "mcProcs m' = mcProcs m" "empty_dir (mcDisk m') p1" "empty_dir (mcDisk m') p2"
    "off_path p1 q \<Longrightarrow> off_path p2 q \<Longrightarrow> mget (mcDisk m') q = mget (mcDisk m) q"
proof -
  obtain e1 d1 where 1: "os_MkdirAll p1 (os_RemoveAll p1 (mcDisk m)) = (e1, d1)" by (metis prod.exhaust)
  obtain e2 d2 where 2: "os_MkdirAll p2 (os_RemoveAll p2 d1) = (e2, d2)" by (metis prod.exhaust)
  have e: "e1 = None" "e2 = None" and m': "m' = m\<lparr>mcDisk := d2\<rparr>"
    using assms(2) 1 2 by (auto simp: on_disk_def remove_all_def split: option.splits)
  note r1 = reset_one [OF assms(1) 1] and r2 = reset_one [OF reset_one(1) [OF assms(1) 1] 2]
  have off: "off_path p2 (resolve p1 @ es)" for es
    using assms(3,4) prefix_same_cases [of "resolve p2" "resolve p1 @ es" "resolve p1"]
    by (auto simp: off_path_def dest: append_prefixD)
  show "disk_ok (mcDisk m')" "mcProcs m' = mcProcs m" using r2(1) by (simp_all add: m')
  show "empty_dir (mcDisk m') p2" using r2(3,4) e by (auto simp: empty_dir_def m')
  have "mget d2 (resolve p1 @ es) = mget d1 (resolve p1 @ es)" for es by (rule r2(2) [OF off])
  then have same: "prefix (resolve p1) q \<Longrightarrow> mget d2 q = mget d1 q" for q by (auto simp: prefix_def)
  show "empty_dir (mcDisk m') p1"
    using r1(3,4) same e by (auto simp: empty_dir_def m' strict_prefix_def)
  show "mget (mcDisk m') q = mget (mcDisk m) q" if "off_path p1 q" "off_path p2 q"
    using that r1(2) r2(2) by (simp add: m')
qed

text \<open>The removal of the file stores of older workers takes nothing else.\<close>

lemma remove_list:
  "disk_ok d \<Longrightarrow> disk_ok (fold (\<lambda>p d. snd (os_Remove p d)) ps d)
     \<and> (\<forall>q. mget (fold (\<lambda>p d. snd (os_Remove p d)) ps d) q = mget d q
          \<or> mget (fold (\<lambda>p d. snd (os_Remove p d)) ps d) q = None \<and> q \<in> resolve ` set ps)"
proof (induction ps arbitrary: d)
  case (Cons p ps)
  obtain e d1 where r: "os_Remove p d = (e, d1)" by (metis prod.exhaust)
  note f = os_Remove_ok [OF Cons.prems r]
  have "mget d1 q = mget d q \<or> mget d1 q = None \<and> q = resolve p" for q
    using f(2,3) by (cases e) auto
  then show ?case using Cons.IH [OF f(1)] r by (auto; metis)
qed simp

lemma rooted_Dir: "rooted (filepath_Dir (slash # x))"
proof -
  define y where "y = dropWhile (\<lambda>c. c \<noteq> slash) (rev x @ [slash])"
  have "dropWhile (\<lambda>c. c \<noteq> slash) (ys @ [slash]) \<noteq> [] \<and> last (dropWhile (\<lambda>c. c \<noteq> slash) (ys @ [slash])) = slash" for ys
    by (induction ys) simp_all
  then have "y \<noteq> []" "last y = slash" by (simp_all add: y_def)
  then have "rev y \<noteq> ''''" "hd (rev y) = slash" by (simp_all add: hd_rev)
  from Clean_rooted [OF this] show ?thesis by (simp add: filepath_Dir_def y_def [symmetric] rooted_def)
qed

lemma filestore_path:
  assumes "disk_ok d" "rooted p" "f \<in> set (filestores p d)"
  shows "\<exists>n. resolve f = resolve p @ [n] \<and> prefix ''.gvisor.filestore.'' n"
proof -
  define dir where "dir = filepath_Dir (filepath_Join [p, ''.gvisor.filestore.*''])"
  have n0: "list_all plain_name [''.gvisor.filestore.*'']" by (simp add: plain_name_def)
  have dir: "resolve dir = resolve p" "rooted dir"
    using resolve_butlast [OF assms(2) n0] Join_rooted(1) [of p "''.gvisor.filestore.*''"] assms(2)
      rooted_Dir [of "join_slash (resolve (p @ slash # ''.gvisor.filestore.*''))"]
    by (simp_all add: dir_def rooted_def)
  obtain n where n: "f = filepath_Join [dir, n]" "prefix ''.gvisor.filestore.'' n" "n \<in> set (dir_entries dir d)"
    using assms(3) unfolding filestores_def Let_def dir_def [symmetric]
    by (auto simp del: filepath_Join.simps split: if_splits)
  then obtain q nd where q: "mget d q = Some nd" "q \<noteq> []" "n = last q"
    using assms(1) by (auto simp: dir_entries_def disk_ok_def mget_mem)
  then have "list_all plain_name [n]"
    using disk_okD(2) [OF assms(1) q(1)] by (simp add: list_all_iff)
  from resolve_name [OF dir(2) this] n dir(1) show ?thesis by auto
qed


lemma worker_start_parts:
  assumes "worker_start C L dial getenv exporter h = (Inr wp, h')"
  defines "ws \<equiv> worker_settings_of getenv"
  shows "\<exists>m1 m2. gv_New C (wtRuntime ws) (whMachine h) = (Inr (wpRuntime wp), m1)
      \<and> reset_dirs [gvStateDir (gv_defaults (wtRuntime ws)), gvBundleDir (gv_defaults (wtRuntime ws))] m1 = (None, m2)
      \<and> h' = h\<lparr>whMachine := remove_filestores (gvRootfs (gv_defaults (wtRuntime ws))) m2\<rparr>"
    and "openSnapshotStore dial getenv = Inr (wpSnaps wp)"
    and "wpHost wp = agent_host C (wpRuntime wp) L (map_option s3_snaps (wpSnaps wp))"
    and "wpServer wp = New (wtWorkerID ws) h' (Some (new_metrics (wtPolicy ws))) (Some NewActivity)"
proof -
  have dirs: "env_or getenv ''RUNSC_ROOT'' ''/var/lib/actordock/runsc'' = gvStateDir (gv_defaults (wtRuntime ws))"
    "env_or getenv ''BUNDLE_DIR'' ''/var/lib/actordock/bundles'' = gvBundleDir (gv_defaults (wtRuntime ws))"
    "env_or getenv ''ROOTFS'' ''/opt/actordock/rootfs'' = gvRootfs (gv_defaults (wtRuntime ws))"
    by (simp_all add: gv_defaults_def ws_def worker_settings_of_def)
  obtain r m1 where 1: "gv_New C (wtRuntime ws) (whMachine h) = (r, m1)" by (metis prod.exhaust)
  obtain e m2 where 2: "reset_dirs [gvStateDir (gv_defaults (wtRuntime ws)), gvBundleDir (gv_defaults (wtRuntime ws))] m1 = (e, m2)"
    by (metis prod.exhaust)
  have on: "on_machine (gv_New C (wtRuntime ws)) h = (r, h\<lparr>whMachine := m1\<rparr>)"
    "on_machine (reset_dirs [gvStateDir (gv_defaults (wtRuntime ws)), gvBundleDir (gv_defaults (wtRuntime ws))])
       (h\<lparr>whMachine := m1\<rparr>) = (e, h\<lparr>whMachine := m2\<rparr>)"
    by (simp_all add: on_machine_def 1 2 del: reset_dirs.simps)
  note start = assms(1) [unfolded worker_start_def dirs ws_def [symmetric] Let_def]
  obtain rt where r: "r = Inr rt" using start by (cases r) (auto simp: on)
  have e: "e = None" using start by (cases e) (auto simp: on r)
  obtain snaps where sn: "openSnapshotStore dial getenv = Inr snaps"
    using start by (cases "openSnapshotStore dial getenv") (auto simp: on r e)
  have x: "exporter = None" using start by (cases exporter) (auto simp: on r e sn)
  show "\<exists>m1 m2. gv_New C (wtRuntime ws) (whMachine h) = (Inr (wpRuntime wp), m1)
      \<and> reset_dirs [gvStateDir (gv_defaults (wtRuntime ws)), gvBundleDir (gv_defaults (wtRuntime ws))] m1 = (None, m2)
      \<and> h' = h\<lparr>whMachine := remove_filestores (gvRootfs (gv_defaults (wtRuntime ws))) m2\<rparr>"
    using start 1 2 by (auto simp: on r e sn x)
  show "openSnapshotStore dial getenv = Inr (wpSnaps wp)"
    "wpHost wp = agent_host C (wpRuntime wp) L (map_option s3_snaps (wpSnaps wp))"
    "wpServer wp = New (wtWorkerID ws) h' (Some (new_metrics (wtPolicy ws))) (Some NewActivity)"
    using start by (auto simp: on r e sn x)
qed

section \<open>Properties\<close>

text \<open>
  C32: a worker starts clean. When the start succeeds and neither the state directory nor the bundle
  directory lies in the other or in the root file system, both exist and are empty, the worker has no
  sandbox, and nothing else of its files is touched but the file stores of older workers, which may be
  removed: the images of suspended sandboxes survive a restart. Objects and processes are left alone.
\<close>

theorem worker_starts_clean:
  assumes "disk_ok (host_disk h)" and "worker_start C L dial getenv exporter h = (Inr wp, h')"
    and "rt = wpRuntime wp" and "rooted (gvRootfs rt)"
    and "\<not> prefix (resolve (gvStateDir rt)) (resolve (gvBundleDir rt))"
    and "\<not> prefix (resolve (gvBundleDir rt)) (resolve (gvStateDir rt))"
    and "\<not> prefix (resolve (gvRootfs rt)) (resolve (gvStateDir rt))"
    and "\<not> prefix (resolve (gvRootfs rt)) (resolve (gvBundleDir rt))"
  shows "empty_dir (host_disk h') (gvStateDir rt) \<and> empty_dir (host_disk h') (gvBundleDir rt)
    \<and> disk_ok (host_disk h') \<and> ActiveSandboxIDs (wpServer wp) = [] \<and> wsHost (wpServer wp) = h'
    \<and> mcProcs (whMachine h') = mcProcs (whMachine h) \<and> whObjects h' = whObjects h
    \<and> (\<forall>q. off_path (gvStateDir rt) q \<longrightarrow> off_path (gvBundleDir rt) q \<longrightarrow>
         mget (host_disk h') q = mget (host_disk h) q
         \<or> mget (host_disk h') q = None
           \<and> (\<exists>n. prefix ''.gvisor.filestore.'' n \<and> q = resolve (gvRootfs rt) @ [n]))"
proof -
  obtain m1 m2 where m: "gv_New C (wtRuntime (worker_settings_of getenv)) (whMachine h) = (Inr rt, m1)"
    "reset_dirs [gvStateDir (gv_defaults (wtRuntime (worker_settings_of getenv))),
        gvBundleDir (gv_defaults (wtRuntime (worker_settings_of getenv)))] m1 = (None, m2)"
    "h' = h\<lparr>whMachine := remove_filestores (gvRootfs (gv_defaults (wtRuntime (worker_settings_of getenv)))) m2\<rparr>"
    using worker_start_parts(1) [OF assms(2)] assms(3) by blast
  note new = gv_New_effect [OF assms(1) [unfolded host_disk_def] m(1)]
  have rt: "gv_defaults (wtRuntime (worker_settings_of getenv)) = rt" using new(3) by simp
  note two = reset_two [OF new(1) m(2) [unfolded rt] assms(5,6)]
  define ps where "ps = filestores (gvRootfs rt) (mcDisk m2)"
  define d where "d = fold (\<lambda>p d. snd (os_Remove p d)) ps (mcDisk m2)"
  have d: "host_disk h' = d" "mcProcs (whMachine h') = mcProcs m2" "whObjects h' = whObjects h"
    by (simp_all add: m(3) rt host_disk_def remove_filestores_def d_def ps_def)
  note rm = remove_list [OF two(1), of ps, folded d_def]
  have store: "\<exists>n. prefix ''.gvisor.filestore.'' n \<and> q = resolve (gvRootfs rt) @ [n]"
    if "q \<in> resolve ` set ps" for q
    using that filestore_path [OF two(1) assms(4)] by (auto simp: ps_def)
  have keep: "mget d q = mget (mcDisk m2) q \<or> mget d q = None
      \<and> (\<exists>n. prefix ''.gvisor.filestore.'' n \<and> q = resolve (gvRootfs rt) @ [n])" for q
    using rm store by blast
  have "empty_dir d p" if "empty_dir (mcDisk m2) p" "\<not> prefix (resolve (gvRootfs rt)) (resolve p)" for p
  proof -
    note h = that
    have "resolve p \<noteq> []  \<Longrightarrow> mget d (resolve p) = mget (mcDisk m2) (resolve p)"
      using keep [of "resolve p"] h(2) by auto
    moreover have "mget d q = None" if "mget (mcDisk m2) q = None" for q using keep [of q] that by auto
    ultimately show ?thesis using h(1) by (cases "resolve p = []") (simp_all add: empty_dir_def)
  qed
  then have "empty_dir d (gvStateDir rt)" "empty_dir d (gvBundleDir rt)" using two(3,4) assms(7,8) by blast+
  moreover have "ActiveSandboxIDs (wpServer wp) = []" "wsHost (wpServer wp) = h'"
    by (simp_all add: worker_start_parts(4) [OF assms(2)] New_def ActiveSandboxIDs_def)
  moreover have "mget d q = mget (host_disk h) q \<or> mget d q = None
      \<and> (\<exists>n. prefix ''.gvisor.filestore.'' n \<and> q = resolve (gvRootfs rt) @ [n])"
    if "off_path (gvStateDir rt) q" "off_path (gvBundleDir rt) q" for q
    using keep [of q] two(5) [OF that] new(4) [unfolded rt, OF that] by (simp add: host_disk_def)
  ultimately show ?thesis using d rm two(2) new(2) by simp
qed

definition used_disk :: disk where
  "used_disk = [([''opt''], DirNode), ([''opt'', ''actordock''], DirNode), ([''opt'', ''actordock'', ''rootfs''], DirNode),
     ([''opt'', ''actordock'', ''rootfs'', ''.gvisor.filestore.u''], FileNode [Some 1]),
     ([''var''], DirNode), ([''var'', ''lib''], DirNode), ([''var'', ''lib'', ''actordock''], DirNode),
     ([''var'', ''lib'', ''actordock'', ''runsc''], DirNode),
     ([''var'', ''lib'', ''actordock'', ''runsc'', ''lock''], FileNode [])]"

definition used_host :: "'s \<Rightarrow> (string list, 's) worker_host" where
  "used_host objs = \<lparr>whMachine = \<lparr>mcDisk = used_disk, mcProcs = []\<rparr>, whObjects = objs\<rparr>"

definition s3_env :: environ where
  "s3_env k = (if k = ''S3_ENDPOINT'' then ''http://s3'' else '''')"

lemma used_disk_ok: "disk_ok (host_disk (used_host objs))"
  by (simp add: used_host_def host_disk_def used_disk_def disk_ok_def gomap_ok_def ancestors_def plain_name_def
      upt_rec numeral_2_eq_2)

lemma used_start: "\<exists>wp h'. worker_start demo_commands stored_lib (\<lambda>_. s3_memory) s3_env None (used_host []) = (Inr wp, h')"
proof -
  have "case fst (worker_start demo_commands stored_lib (\<lambda>_. s3_memory) s3_env None (used_host [])) of
      Inl e \<Rightarrow> False | Inr wp \<Rightarrow> True" by code_simp
  then show ?thesis by (metis (no_types, lifting) prod.collapse sum.case_eq_if sum.collapse(2))
qed

theorem worker_starts_clean_witness:
  "\<exists>wp h'. worker_start demo_commands stored_lib (\<lambda>_. s3_memory) s3_env None (used_host []) = (Inr wp, h')
     \<and> mget (host_disk h') [''var'', ''lib'', ''actordock'', ''runsc'', ''lock''] = None"
proof -
  obtain wp h' where s: "worker_start demo_commands stored_lib (\<lambda>_. s3_memory) s3_env None (used_host []) = (Inr wp, h')"
    using used_start by blast
  obtain m1 where g: "gv_New demo_commands (wtRuntime (worker_settings_of s3_env))
      (whMachine (used_host ([] :: s3_cells))) = (Inr (wpRuntime wp), m1)"
    using worker_start_parts(1) [OF s] by blast
  note rt = gv_New_effect(3) [OF used_disk_ok [of "[] :: s3_cells", unfolded host_disk_def] g refl]
  have dirs: "resolve (gvStateDir (wpRuntime wp)) = [''var'', ''lib'', ''actordock'', ''runsc'']"
    "resolve (gvBundleDir (wpRuntime wp)) = [''var'', ''lib'', ''actordock'', ''bundles'']"
    "resolve (gvRootfs (wpRuntime wp)) = [''opt'', ''actordock'', ''rootfs'']" "rooted (gvRootfs (wpRuntime wp))"
    by (simp_all add: rt gv_defaults_def worker_settings_of_def env_or_def s3_env_def or_default_def resolve_def
        clean_step_def rooted_def)
  have "empty_dir (host_disk h') (gvStateDir (wpRuntime wp))"
    using worker_starts_clean [OF used_disk_ok s refl dirs(4)] by (simp add: dirs(1-3))
  then have "mget (host_disk h') [''var'', ''lib'', ''actordock'', ''runsc'', ''lock''] = None"
    by (simp add: empty_dir_def dirs(1))
  with s show ?thesis by blast
qed

text \<open>
  C8: a worker that has just started takes over from S3. Two workers built by \<open>main\<close> share an S3 service;
  one suspends a sandbox with upload and answers success. The other, started since, on files of its own
  and with the objects as they are, answers a restore with what its runtime says of an image directory
  that holds the same files and bytes, on the processes it found at the start.
\<close>

theorem fresh_worker_resumes_from_s3:
  assumes "zstd_codec (lbEncode L) (lbDecode L)" and "\<forall>fs. lbUnmarshal L (lbMarshal L fs) = Inr fs"
    and "\<forall>opts. s3_service (dial opts) up objs" and "tidy CA"
    and "worker_start CA L dial envA xA hA = (Inr wa, hA')" and "wpSnaps wa = Some st"
    and "handleCheckpoint (wpHost wa) t sid (Some (imgA, key)) a = (HttpOK c n, a')"
    and "key \<noteq> ''''" and "rooted imgA" and "disk_ok (host_disk (wsHost a))" and "up (whObjects (wsHost a))"
    and "\<forall>q f. mget (host_disk (wsHost a')) q = Some (FileNode f) \<longrightarrow> in_int64 (int (length f))"
    and "worker_start CB L dial envB xB hB = (Inr wb, hB')" and "wpSnaps wb = Some st"
    and "disk_ok (host_disk hB')" and "whObjects hB' = whObjects (wsHost a')" and "rooted imgB"
    and "\<forall>q\<in>set (ancestors (resolve imgB)). dir_or_free (host_disk hB') q"
    and "is_dir imgB (host_disk hB') \<longrightarrow> dir_entries imgB (host_disk hB') = []"
  shows "\<exists>b1. handleRestore (wpHost wb) now t' sid (Some (imgB, key)) (wpServer wb) =
        restore_run (wpHost wb) now sid imgB b1
      \<and> mcProcs (whMachine (wsHost b1)) = mcProcs (whMachine hB') \<and> ws_slot b1 = Some sid
      \<and> (\<forall>es. es \<noteq> [] \<longrightarrow> image_of imgB (host_disk (wsHost b1)) es =
           (if join_slash es = manifestName then None else image_of imgA (host_disk (wsHost a')) es))"
proof -
  have hosts: "wpHost wa = agent_host CA (wpRuntime wa) L (Some (s3_snaps st))"
    "wpHost wb = agent_host CB (wpRuntime wb) L (Some (s3_snaps st))"
    using worker_start_parts(3) [OF assms(5)] worker_start_parts(3) [OF assms(13)] assms(6,14) by simp_all
  have "\<exists>opts. s3Client st = dial opts"
    using worker_start_parts(2) [OF assms(5)] assms(6)
    by (auto simp: openSnapshotStore_def NewS3_def Let_def split: if_splits sum.splits)
  then have "s3_service (s3Client st) up objs" using assms(3) by auto
  note store = s3_object_store [OF this]
  have srv: "slot_ok (wpServer wb)" "ws_slot (wpServer wb) = None" "wsHost (wpServer wb) = hB'"
    by (simp_all add: worker_start_parts(4) [OF assms(13)] New_def slot_ok_def ws_slot_def)
  show ?thesis
    using resume_elsewhere [OF assms(1,2) store s3_prefix assms(8,4,9,10,11) assms(7) [unfolded hosts(1)] assms(12)
        srv(1,2) assms(17), where C = CB and cfg = "wpRuntime wb" and now = now and t' = t'] assms(15,16,18,19)
    unfolding hosts srv(3) by blast
qed

text \<open>Worker A of the witness suspends into the service; worker B starts with the objects it left.\<close>

definition s3_suspend :: "(64 word http_response \<times> (string list, s3_cells) worker_host worker_server) option" where
  "s3_suspend =
     (case fst (worker_start demo_commands stored_lib (\<lambda>_. s3_memory) s3_env None (used_host [])) of
        Inl e \<Rightarrow> None
      | Inr wa \<Rightarrow> Some (handleCheckpoint (wpHost wa) 1 ''u'' (Some (''/img'', ''sandboxes/u''))
          ((wpServer wa)\<lparr>wsAlive := [(''u'', ())], wsHost := \<lparr>whMachine = demo_machine [''u''], whObjects = []\<rparr>\<rparr>)))"

lemma s3_suspend_ok:
  "case s3_suspend of Some (HttpOK c n, a') \<Rightarrow>
      list_all (\<lambda>(q, nd). case nd of FileNode f \<Rightarrow> length f < 100 | _ \<Rightarrow> True) (host_disk (wsHost a'))
      \<and> (case worker_start demo_commands stored_lib (\<lambda>_. s3_memory) s3_env None (used_host (whObjects (wsHost a'))) of
           (Inr wb, hB) \<Rightarrow> whObjects hB = whObjects (wsHost a') \<and> disk_ok (host_disk hB)
             \<and> list_all (dir_or_free (host_disk hB)) (ancestors (resolve ''/snap/b/u''))
             \<and> \<not> is_dir ''/snap/b/u'' (host_disk hB)
         | (Inl e, hB) \<Rightarrow> False)
    | _ \<Rightarrow> False"
  by code_simp

theorem fresh_worker_resumes_from_s3_witness:
  "\<exists>c n a' wb hB' b1. s3_suspend = Some (HttpOK c n, a')
     \<and> worker_start demo_commands stored_lib (\<lambda>_. s3_memory) s3_env None (used_host (whObjects (wsHost a'))) = (Inr wb, hB')
     \<and> handleRestore (wpHost wb) 0 1 ''u'' (Some (''/snap/b/u'', ''sandboxes/u'')) (wpServer wb)
       = restore_run (wpHost wb) 0 ''u'' ''/snap/b/u'' b1
     \<and> image_of ''/snap/b/u'' (host_disk (wsHost b1)) [''checkpoint.img'']
       = image_of ''/img'' (host_disk (wsHost a')) [''checkpoint.img'']"
proof -
  let ?st = "\<lparr>s3Client = s3_memory, s3Bucket = ''actordock-snapshots''\<rparr>"
  have open_s3: "openSnapshotStore (\<lambda>_. s3_memory) s3_env = Inr (Some ?st)"
    by (simp add: openSnapshotStore_def env_or_def s3_env_def NewS3_def)
  obtain wa hA' where sa: "worker_start demo_commands stored_lib (\<lambda>_. s3_memory) s3_env None (used_host []) = (Inr wa, hA')"
    using used_start by blast
  define a where "a = (wpServer wa)\<lparr>wsAlive := [(''u'', ())], wsHost := \<lparr>whMachine = demo_machine [''u''], whObjects = []\<rparr>\<rparr>"
  obtain r a' where ra: "handleCheckpoint (wpHost wa) 1 ''u'' (Some (''/img'', ''sandboxes/u'')) a = (r, a')"
    by (metis prod.exhaust)
  have sus: "s3_suspend = Some (r, a')" by (simp add: s3_suspend_def sa ra a_def [symmetric])
  note ok = s3_suspend_ok [unfolded sus option.case prod.case]
  then obtain c n where r: "r = HttpOK c n" by (cases r) auto
  obtain w hB' where sw: "worker_start demo_commands stored_lib (\<lambda>_. s3_memory) s3_env None (used_host (whObjects (wsHost a'))) = (w, hB')"
    by (metis prod.exhaust)
  then obtain wb where w: "w = Inr wb" using ok by (cases w) (auto simp: r)
  note sb = sw [unfolded w] and ok = ok [unfolded r http_response.case sw w prod.case sum.case]
  have lib: "zstd_codec (lbEncode stored_lib) (lbDecode stored_lib)" "\<forall>fs. lbUnmarshal stored_lib (lbMarshal stored_lib fs) = Inr fs"
    using stored_codec stored_lib_names by (simp_all add: stored_lib_def)
  have sv: "\<forall>opts :: s3_options. s3_service s3_memory (\<lambda>_. True) mget" using s3_memory_service by blast
  have st: "wpSnaps wa = Some ?st" "wpSnaps wb = Some ?st"
    using worker_start_parts(2) [OF sa] worker_start_parts(2) [OF sb] open_s3 by simp_all
  have pre: "''sandboxes/u'' \<noteq> ''''" "rooted ''/img''" "rooted ''/snap/b/u''" by (simp_all add: rooted_def)
  have da: "disk_ok (host_disk (wsHost a))" using demo_machine_ok by (simp add: a_def host_disk_def)
  have small: "\<forall>q f. mget (host_disk (wsHost a')) q = Some (FileNode f) \<longrightarrow> in_int64 (int (length f))"
  proof (intro allI impI)
    fix q f assume "mget (host_disk (wsHost a')) q = Some (FileNode f)"
    then have "(q, FileNode f) \<in> set (host_disk (wsHost a'))" by (rule map_of_SomeD)
    then have "length f < 100" using ok by (auto simp: list_all_iff)
    then show "in_int64 (int (length f))" by (simp add: in_int64_def min_int64_def max_int64_def)
  qed
  have B: "disk_ok (host_disk hB')" "whObjects hB' = whObjects (wsHost a')"
    "\<forall>q\<in>set (ancestors (resolve ''/snap/b/u'')). dir_or_free (host_disk hB') q"
    "is_dir ''/snap/b/u'' (host_disk hB') \<longrightarrow> dir_entries ''/snap/b/u'' (host_disk hB') = []"
    using ok by (simp_all add: list_all_iff)
  obtain b1 where "handleRestore (wpHost wb) 0 1 ''u'' (Some (''/snap/b/u'', ''sandboxes/u'')) (wpServer wb)
       = restore_run (wpHost wb) 0 ''u'' ''/snap/b/u'' b1"
    "\<forall>es. es \<noteq> [] \<longrightarrow> image_of ''/snap/b/u'' (host_disk (wsHost b1)) es =
      (if join_slash es = manifestName then None else image_of ''/img'' (host_disk (wsHost a')) es)"
    using fresh_worker_resumes_from_s3 [OF lib sv demo_tidy sa st(1) ra [unfolded r] pre(1,2) da TrueI small
        sb st(2) B(1,2) pre(3) B(3,4), of 0 1] by blast
  moreover from this(2) have "image_of ''/snap/b/u'' (host_disk (wsHost b1)) [''checkpoint.img'']
       = image_of ''/img'' (host_disk (wsHost a')) [''checkpoint.img'']"
    by (simp add: manifestName_def)
  ultimately show ?thesis using sus r sb by blast
qed

end
