(* ===== verification/Restart.thy ===== *)
theory Restart
  imports Races ControlPlane
begin

text \<open>
  A worker that restarts. Its process begins with an empty slot (\<open>New\<close> in
  \<open>internal/workerserver/server.go\<close>) and no container, and its loop registers it again, while the
  control plane goes on from its store: nothing tells it that the sandbox it placed there is gone.
\<close>

section \<open>The situation\<close>

text \<open>The server of a worker after its process has been started anew on the same disk.\<close>

definition restarted :: "demo_host worker_server \<Rightarrow> demo_host worker_server" where
  "restarted n = New (wsWorkerID n) ((wsHost n)\<lparr>dhRunning := []\<rparr>) None None"

definition restart_worker :: "string \<Rightarrow> ('m, demo_host cluster) scheduler \<Rightarrow> ('m, demo_host cluster) scheduler" where
  "restart_worker wid s =
     s\<lparr>sdWorld := (sdWorld s)\<lparr>clNodes := map (\<lambda>(a, n). (a, if a = wid then restarted n else n)) (clNodes (sdWorld s))\<rparr>\<rparr>"

text \<open>Sandbox \<open>u\<close> runs on the only worker; \<open>z\<close> is a new sandbox.\<close>

definition restart_start :: "(memory, demo_host cluster) scheduler" where
  "restart_start =
     \<lparr>sdStore = \<lparr>mmSandboxes = [(''u'', (demo_sandbox ''u'')\<lparr>sbState := SandboxRunning, sbWorkerID := ''w''\<rparr>),
          (''z'', demo_sandbox ''z'')],
        mmWorkers = [(''w'', worker0 ''w'' 1)], mmGolden = ''g''\<rparr>,
      sdWorld = \<lparr>clNodes = [(''w'', pair_node ''w'' [''u''])], clNow = 1, clTransfer = 1\<rparr>,
      sdSignals = None, sdMetrics = None, sdLog = [], sdResumeWaiters = [], sdRestoreReserve = [],
      sdTick = 0\<rparr>"

text \<open>The worker restarts and registers again.\<close>

definition restart_back :: "api_response \<times> (memory, demo_host cluster) scheduler" where
  "restart_back = registerWorker demo_cfg (Inr (worker0 ''w'' 9)) (restart_worker ''w'' restart_start)"

definition restart_free :: "(memory, demo_host cluster) scheduler" where
  "restart_free = restart_start
     \<lparr>sdStore := (sdStore restart_start)\<lparr>mmWorkers := [(''w'', worker0 ''w'' 9)]\<rparr>,
      sdWorld := (sdWorld restart_start)\<lparr>clNodes := [(''w'', restarted (pair_node ''w'' [''u'']))]\<rparr>\<rparr>"

lemma restart_register: "restart_back = (HttpOK 201 (WorkerBody (worker0 ''w'' 9)), restart_free)"
  by (simp add: restart_back_def restart_free_def registerWorker_def restart_start_def restart_worker_def
      restarted_def New_def pair_node_def demo_defs on_store_def Memory_def Memory_PutWorker_def IsZero_def Let_def)
lemma restart_run:
  "case resume_run demo_cfg 6 (resume_begin demo_cfg ''z'' restart_free) of (pc, s) \<Rightarrow>
       (\<exists>x. pc = Returned ''z'' (Inr x) \<and> sbWorkerID x = ''w'' \<and> mget (mmSandboxes (sdStore s)) ''z'' = Some x
          \<and> sbState x = SandboxRunning)
       \<and> mget (mmSandboxes (sdStore s)) ''u'' = mget (mmSandboxes (sdStore restart_start)) ''u''
       \<and> (\<exists>n. clNodes (sdWorld s) = [(''w'', n)] \<and> wsAlive n = [(''z'', ())] \<and> dhRunning (wsHost n) = [''z''])"
  by (simp add: restart_free_def restart_start_def restarted_def New_def
      pair_node_def demo_defs resume_defs worker_defs Let_def eval_nat_numeral
      worker_less_def workerLoadScore_def workerHostingCheckpoint.simps)


end
