(* ===== verification/Spec2Isabelle.thy ===== *)
theory Spec2Isabelle
  imports Prelude Types Signals SignalStore Policy BasicPolicies SemanticScore Policies
    Paths Store Metrics WorkerResource WorkerServer WorkerClient SchedState SchedLifecycle SchedResume
    SchedEnv SchedInvariants SchedKnock SchedSystem SchedExclusive Deployed
    Multiplexer Races SchedSettle SchedTermination
    SparseCodec HostDisk SnapshotStore S3 Gvisor WorkerHost ControlPlane
    GoText Cgroups Redis Reporting ControlMain WorkerMain Restart
begin

text \<open>
  Actordock multiplexes agent sandboxes onto a pool of workers. A worker runs at most one sandbox at a
  time. The control plane lets another in by checkpointing the one that runs, and keeps in its metadata
  store which sandbox is parked and which one runs where. The program consists of

  \<^item> the control plane, \<open>cmd/controlplane\<close>: an HTTP API (\<open>internal/controlplane\<close>) in front of the scheduler
    (\<open>internal/scheduler\<close>), which asks a policy (\<open>internal/policy\<close>) for a worker or a victim, reads the
    signals of the agents (\<open>internal/signals\<close>), writes the metadata store (\<open>internal/store\<close>) and
    calls the workers over HTTP (\<open>internal/workerclient\<close>);
  \<^item> the worker, \<open>cmd/worker\<close>: a server with one slot (\<open>internal/workerserver\<close>) in front of the gVisor
    backend (\<open>internal/runtime\<close>) and the snapshot store (\<open>internal/snapshotstore\<close>), and a pusher of
    resource readings (\<open>internal/workerresource\<close>) that ends in the signals of the control plane.

  \<^bold>\<open>Theories and sources.\<close> A theory models the files below; a definition carries the name of the Go
  function or type (\<open>Client_Boot\<close> for the method \<open>Client.Boot\<close>) and record fields the name of the Go field
  behind a short prefix of the record.

  \<^item> \<open>Prelude\<close>: Go maps, slices, sorting, instants, durations, 64-bit integers and errors, and
    \<open>weak_order\<close>, the locale behind every choice of a best element. \<open>GoText\<close>: the functions of the
    packages \<open>strings\<close>, \<open>strconv\<close> and \<open>time\<close> on text.
  \<^item> \<open>Types\<close>: \<open>types/types.go\<close>. \<open>Signals\<close>: \<open>signals/types.go\<close>, \<open>signals/gds.go\<close>. \<open>SignalStore\<close>:
    \<open>signals/store.go\<close>.
  \<^item> \<open>Policy\<close>: \<open>policy.go\<close>, \<open>place.go\<close>, \<open>resume.go\<close>, \<open>evict.go\<close> of \<open>internal/policy\<close> and the contract of a
    policy (\<open>policy_contract\<close>, \<open>resume_contract\<close>). \<open>BasicPolicies\<close>: \<open>fifo.go\<close>, \<open>random.go\<close>, \<open>lru_idle.go\<close>,
    \<open>resource_evict.go\<close>. \<open>SemanticScore\<close>: \<open>semantic_score.go\<close>. \<open>Policies\<close>: the interface and \<open>factory.go\<close>.
  \<^item> \<open>Store\<close>: \<open>store/store.go\<close>, its contract \<open>metadata_store\<close>, and \<open>store/memory.go\<close>. \<open>Redis\<close>:
    \<open>store/redis.go\<close>.
  \<^item> \<open>Metrics\<close>: \<open>metrics/metrics.go\<close>.
  \<^item> \<open>SchedState\<close>, \<open>SchedLifecycle\<close>, \<open>SchedResume\<close>: \<open>scheduler/scheduler.go\<close>, in this order its state and
    small operations, the operations other than \<open>Resume\<close>, and \<open>Resume\<close> as a machine of steps. \<open>SchedEnv\<close>
    is the scheduler over a store and workers that keep their contracts; \<open>SchedInvariants\<close>, \<open>SchedKnock\<close>,
    \<open>SchedSystem\<close>, \<open>SchedExclusive\<close> prove its invariants there; \<open>SchedSettle\<close> and \<open>SchedTermination\<close> that
    \<open>Resume\<close> returns. \<open>Deployed\<close> discharges the contracts for the in-process store and the HTTP workers.
    \<open>Multiplexer\<close> is the abstract specification, \<open>Races\<close> and \<open>Restart\<close> are runs that go wrong.
  \<^item> \<open>WorkerServer\<close>: \<open>workerserver/server.go\<close> over a host of any type. \<open>WorkerClient\<close>:
    \<open>workerclient/client.go\<close> and its contract \<open>worker_pool\<close>. \<open>Gvisor\<close>: \<open>runtime/gvisor/gvisor.go\<close>.
    \<open>WorkerHost\<close>: the host of the server, built from the gVisor backend, the disk and an object store.
  \<^item> \<open>Paths\<close>, \<open>HostDisk\<close>: names of files and objects, and the local file system. \<open>SparseCodec\<close>:
    \<open>sparsezstd.go\<close>, \<open>codec.go\<close>. \<open>SnapshotStore\<close>: \<open>store.go\<close>, \<open>fs.go\<close> of \<open>internal/snapshotstore\<close> and the
    contract \<open>object_store\<close>. \<open>S3\<close>: \<open>s3.go\<close>.
  \<^item> \<open>WorkerResource\<close>: \<open>activity.go\<close>, \<open>pusher.go\<close>. \<open>Cgroups\<close>: \<open>cgroup_linux.go\<close>,
    \<open>worker_cgroup_linux.go\<close>. \<open>Reporting\<close>: the way of a reading from the kernel files to the policies.
  \<^item> \<open>ControlPlane\<close>: \<open>controlplane/server.go\<close>. \<open>ControlMain\<close>: \<open>cmd/controlplane/main.go\<close>. \<open>WorkerMain\<close>:
    \<open>cmd/worker/main.go\<close>.
\<close>

text \<open>
  \<^bold>\<open>What the lemmas show.\<close>

  \<^item> The system: in every reachable state of the scheduler, its store, its workers and the calls of
    \<open>Resume\<close> in flight, a sandbox stored as running holds the slot of its worker alone (\<open>Deployed\<close>, and on
    Redis with the settings of the environment \<open>ControlMain\<close>); a resume has its worker to itself
    from its admission to its commit; every step is one of the abstract table (\<open>Multiplexer\<close>); a pause or
    suspend has its exact effect; every call of \<open>Resume\<close> returns (\<open>SchedTermination\<close>). The API reports what
    is true (\<open>ControlPlane\<close>).
  \<^item> Images: a directory that was uploaded is downloaded with the same files and bytes, through the sparse
    and the plain format; a sandbox that was suspended on one worker and resumed on another runs on the
    image of its suspension, through the directory store or S3 (\<open>WorkerHost\<close>, \<open>WorkerMain\<close>).
  \<^item> Policies: all five keep one contract: a placement is an idle eligible worker, a victim is a running
    sandbox; the victim of each is the one its comment names; one waiter knocks at a time and an aged
    waiter goes first.
  \<^item> Signals: the clocks measure the timeline, expired records are invisible, the GreedyDual clock and the
    priorities move as they should; what a worker pushes is what the policies read (\<open>Reporting\<close>).
  \<^item> Stores: \<open>Redis\<close> and \<open>Memory\<close> give the same answers to the same calls.
  \<^item> Errors: what the API answers, which refusals are retried, what a failed upload, a torn download, a
    stale local image, two calls for one sandbox and the restart of a worker lead to.

  \<^bold>\<open>Steps, fuel and loops.\<close> A method that holds a mutex from its start to its end is one step. \<open>Resume\<close>
  releases its locks while it waits, so it is the relation \<open>resume_step\<close> on program counters, and
  \<open>sys_step\<close> interleaves the steps of the calls in flight with the other operations. \<open>Resume\<close> and the
  handler that calls it run it for a number of steps; \<open>resume_returns\<close> shows that there is always a number
  from which on the result does not change. The two loops of the control plane that only the clock ends
  (\<open>wait_loop\<close>, \<open>golden_loop\<close>) are partial functions, with a lemma that they return when the clock
  passes every time. All other loops are structural recursions or have a measure.

  \<^bold>\<open>Idealisations.\<close>

  \<^item> A \<open>float64\<close> is a real number. Instants are integers without time zones, durations are 64-bit.
    The order of iteration over a map is the order of its list, about which nothing is assumed.
  \<^item> The closure under \<open>knockMu\<close>, \<open>EnsureGolden\<close>, \<open>Pause\<close>, \<open>Suspend\<close> and \<open>Delete\<close> are one step each, the
    requests they send to workers included, and a listing of the Redis store is one step. A response that
    is lost after the worker has acted is not modelled, nor are expiring contexts other than the waits of
    \<open>Resume\<close>, where each may be cancelled.
  \<^item> The invariants are stated for at most one \<open>Resume\<close> of a sandbox in flight and for workers that keep
    the address they registered with; \<open>Races\<close> shows what happens without the first.
  \<^item> Clocks, random draws and UUIDs are arbitrary sequences. Log output is left out, except the
    decisions of the scheduler.
  \<^item> A file system without permissions, links and lack of space; \<open>filepath.Glob\<close> is applied to a root whose
    name contains no pattern characters; the size of a directory counts regular files.
  \<^item> Each worker has its own object store state in the model of its host; a theorem about two workers says
    that they see the same one.

  \<^bold>\<open>Parameters.\<close> The zstd library (\<open>zstd_codec\<close>), \<open>encoding/json\<close> (\<open>json_lossless\<close>: what is encoded decodes to
  itself, as it does for text in UTF-8, the named states and years of four digits), the Redis client
  (\<open>redis_server\<close>), the S3 client (\<open>s3_service\<close>), the commands \<open>runsc\<close> and \<open>cp\<close> (\<open>tidy\<close>), the files of the
  kernel and \<open>strconv.ParseFloat\<close> are arguments of the definitions that use them. What is assumed of them is
  their documented behaviour, stated by the predicate named, and each has an instance for which the
  predicate is proved.

  \<^bold>\<open>Not modelled.\<close> The exporter of \<open>metrics/prometheus.go\<close> and the creation of the instruments
  (\<open>MustNew\<close>, \<open>SetPoolStats\<close>), which are wiring of OpenTelemetry; listening, signals and
  shutdown in the two \<open>main\<close> functions; \<open>SnapshotJSON\<close> of the in-process store, an aid of the tests; the
  stubs of the control group readers for other systems, which return zeros; the test harness.
\<close>

end
